theory Spec2Isabelle
  imports Main "HOL-Library.Sublist"
begin

section \<open>Errors\<close>

text \<open>
  A Go \<^verbatim>\<open>error\<close> is a value. The server builds its own errors with
  \<^verbatim>\<open>fmt.Errorf\<close>; the format string, the plain arguments and the error wrapped by
  \<^verbatim>\<open>%w\<close> are kept apart, so that no formatting has to be modelled. An error
  that a library returns is \<open>errors_New\<close> of its message, and a panic (the
  \<^verbatim>\<open>...OrDie\<close> constructors) is a value too.
\<close>

datatype error =
    errors_New string
  | fmt_Errorf string "string list" "error option"
  | panic string

section \<open>Client configurations (client-go types used by Run)\<close>

text \<open>
  \<^verbatim>\<open>rest.Config\<close>, and the kubeconfig types of \<^verbatim>\<open>clientcmdapi\<close>, with the fields
  \<^verbatim>\<open>Run\<close> reads and writes. A Go map literal is an association list in the order of
  the source; \<open>map_of\<close> looks a key up.
\<close>

record rest_Config =
  Host :: string
  BearerToken :: string
  CAData :: string
  TLSClientConfig_ServerName :: string

record clientcmdapi_AuthInfo =
  Token :: string

record clientcmdapi_Cluster =
  Server :: string
  CertificateAuthorityData :: string
  TLSServerName :: string

record clientcmdapi_Context =
  Cluster :: string
  AuthInfo :: string

record clientcmdapi_Config =
  AuthInfos :: "(string \<times> clientcmdapi_AuthInfo) list"
  Clusters :: "(string \<times> clientcmdapi_Cluster) list"
  Contexts :: "(string \<times> clientcmdapi_Context) list"
  CurrentContext :: string

section \<open>The server and its hooks (pkg/server/server.go)\<close>

text \<open>
  Hooks are closures in the source. A hook is named by where it comes from: the three
  hooks the server itself builds, with what each closure captures (the kubeconfig handed
  to the cluster controller; the admin configuration and the cluster name of the
  cross-cluster client of the workspace controller), and the hooks of a caller, numbered.
\<close>

datatype PostStartHookFunc =
    startNamespaceController
  | installClusterControllerHook clientcmdapi_Config
  | installWorkspaceControllerHook rest_Config string
  | CallerPostStartHook nat

datatype PreShutdownHookFunc = CallerPreShutdownHook nat

text \<open>
  \<^verbatim>\<open>postStartHookEntry\<close> and \<^verbatim>\<open>preShutdownHookEntry\<close> are the same pair
  of a name and a hook, over the two hook types.
\<close>

record 'h hookEntry =
  name :: string
  hook :: 'h

type_synonym postStartHookEntry = "PostStartHookFunc hookEntry"
type_synonym preShutdownHookEntry = "PreShutdownHookFunc hookEntry"

text \<open>
  The fields of \<^verbatim>\<open>Config\<close> that \<^verbatim>\<open>Run\<close> reads. The declaration of the struct
  is not among the sources; the record lists the fields by the names \<^verbatim>\<open>Run\<close> uses.
\<close>

record tls_Config =
  InsecureSkipVerify :: bool
  Certificates :: "string list"
  RootCAs :: "string option"

record EtcdClientInfo =
  Endpoints :: "string list"
  CertFile :: string
  KeyFile :: string
  TrustedCAFile :: string
  TLS :: "tls_Config option"

record Config =
  ProfilerAddress :: string
  RootDirectory :: string
  EtcdDirectory :: string
  EtcdClientInfo :: EtcdClientInfo
  EtcdPeerPort :: string
  EtcdClientPort :: string
  Authentication :: string
  Listen :: string
  ShardKubeconfigFile :: string
  EnableSharding :: bool
  KubeConfigPath :: string
  InstallClusterController :: bool
  InstallWorkspaceController :: bool

record Server =
  cfg :: Config
  postStartHooks :: "postStartHookEntry list"
  preShutdownHooks :: "preShutdownHookEntry list"

definition NewServer :: "Config \<Rightarrow> Server" where
  "NewServer c =
     (let s = \<lparr>cfg = c, postStartHooks = [], preShutdownHooks = []\<rparr>
      in s\<lparr>postStartHooks := postStartHooks s @
            [\<lparr>name = ''start-namespace-controller'', hook = startNamespaceController\<rparr>]\<rparr>)"

definition AddPostStartHook :: "Server \<Rightarrow> string \<Rightarrow> PostStartHookFunc \<Rightarrow> Server" where
  "AddPostStartHook s n h = s\<lparr>postStartHooks := postStartHooks s @ [\<lparr>name = n, hook = h\<rparr>]\<rparr>"

definition AddPreShutdownHook :: "Server \<Rightarrow> string \<Rightarrow> PreShutdownHookFunc \<Rightarrow> Server" where
  "AddPreShutdownHook s n h =
     s\<lparr>preShutdownHooks := preShutdownHooks s @ [\<lparr>name = n, hook = h\<rparr>]\<rparr>"

text \<open>
  What a caller does with a server before running it: a sequence of calls of the two
  methods, in the order they are made.
\<close>

datatype hookCall =
    CallAddPostStartHook string PostStartHookFunc
  | CallAddPreShutdownHook string PreShutdownHookFunc

fun applyCall :: "Server \<Rightarrow> hookCall \<Rightarrow> Server" where
  "applyCall s (CallAddPostStartHook n h) = AddPostStartHook s n h"
| "applyCall s (CallAddPreShutdownHook n h) = AddPreShutdownHook s n h"

text \<open>The entries a sequence of calls asks for, each kind in call order.\<close>

fun postStartRequested :: "hookCall list \<Rightarrow> postStartHookEntry list" where
  "postStartRequested [] = []"
| "postStartRequested (CallAddPostStartHook n h # cs) =
     \<lparr>name = n, hook = h\<rparr> # postStartRequested cs"
| "postStartRequested (CallAddPreShutdownHook n h # cs) = postStartRequested cs"

fun preShutdownRequested :: "hookCall list \<Rightarrow> preShutdownHookEntry list" where
  "preShutdownRequested [] = []"
| "preShutdownRequested (CallAddPostStartHook n h # cs) = preShutdownRequested cs"
| "preShutdownRequested (CallAddPreShutdownHook n h # cs) =
     \<lparr>name = n, hook = h\<rparr> # preShutdownRequested cs"

section \<open>The handler chain (BuildHandlerChainFunc in Run)\<close>

text \<open>
  An \<^verbatim>\<open>http.Handler\<close> is a closure over the handler it delegates to, so a chain is
  a nest of wrappers around a terminal handler. The three wrappers \<^verbatim>\<open>Run\<close> uses are
  not among the sources; nothing is assumed of them but that each wraps its argument:
  \<^item> \<open>ServeHTTP h c\<close> is this package's \<^verbatim>\<open>ServeHTTP(h, c)\<close>, the logical-cluster
    handler;
  \<^item> \<open>sharding_ServeHTTP h l\<close> is \<^verbatim>\<open>sharding.ServeHTTP(h, clientLoader)\<close>, the
    shard proxy;
  \<^item> \<open>WithFilter f h\<close> is one filter of the generic API server wrapped around \<open>h\<close>.
  \<^verbatim>\<open>genericapiserver.DefaultBuildHandlerChain(h, c)\<close> belongs to the API server
  library: the filters it installs are a parameter, the field \<open>DefaultFilters\<close> of
  the generic configuration, outermost first.
\<close>

record genericapiserver_Config =
  DefaultFilters :: "string list"

datatype clientLoader = ClientLoader string

datatype handler =
    Terminal string
  | sharding_ServeHTTP handler clientLoader
  | ServeHTTP handler genericapiserver_Config
  | WithFilter string handler

definition DefaultBuildHandlerChain :: "handler \<Rightarrow> genericapiserver_Config \<Rightarrow> handler" where
  "DefaultBuildHandlerChain apiHandler c = foldr WithFilter (DefaultFilters c) apiHandler"

text \<open>
  The closure assigned to \<^verbatim>\<open>serverOptions.BuildHandlerChainFunc\<close>; it captures
  \<^verbatim>\<open>s.cfg\<close> and \<^verbatim>\<open>clientLoader\<close>.
\<close>

definition BuildHandlerChainFunc ::
  "Config \<Rightarrow> clientLoader \<Rightarrow> handler \<Rightarrow> genericapiserver_Config \<Rightarrow> handler" where
  "BuildHandlerChainFunc scfg loader apiHandler c =
     (let apiHandler1 =
            (if EnableSharding scfg then sharding_ServeHTTP apiHandler loader else apiHandler)
      in ServeHTTP (DefaultBuildHandlerChain apiHandler1 c) c)"

text \<open>
  Serving a request. A handler that runs is recorded; a wrapper then either answers the
  request itself or hands a request on to the handler it wraps. What each wrapper
  decides is the parameter \<open>b\<close>: \<open>b k r = None\<close> when the wrapper \<open>k\<close> answers \<open>r\<close>
  itself, \<open>Some r'\<close> when it delegates \<open>r'\<close>.
\<close>

datatype hit =
    hit_lcluster
  | hit_shard_proxy
  | hit_filter string
  | hit_terminal string

fun serve :: "(hit \<Rightarrow> 'r \<Rightarrow> 'r option) \<Rightarrow> handler \<Rightarrow> 'r \<Rightarrow> hit list" where
  "serve b (Terminal n) r = [hit_terminal n]"
| "serve b (sharding_ServeHTTP h l) r =
     hit_shard_proxy # (case b hit_shard_proxy r of None \<Rightarrow> [] | Some r' \<Rightarrow> serve b h r')"
| "serve b (ServeHTTP h c) r =
     hit_lcluster # (case b hit_lcluster r of None \<Rightarrow> [] | Some r' \<Rightarrow> serve b h r')"
| "serve b (WithFilter f h) r =
     hit_filter f # (case b (hit_filter f) r of None \<Rightarrow> [] | Some r' \<Rightarrow> serve b h r')"

text \<open>The handlers of a chain from the outermost to the terminal one.\<close>

fun layers :: "handler \<Rightarrow> hit list" where
  "layers (Terminal n) = [hit_terminal n]"
| "layers (sharding_ServeHTTP h l) = hit_shard_proxy # layers h"
| "layers (ServeHTTP h c) = hit_lcluster # layers h"
| "layers (WithFilter f h) = hit_filter f # layers h"

section \<open>Run (pkg/server/server.go)\<close>

subsection \<open>What Run sets up and what it calls\<close>

text \<open>
  \<^verbatim>\<open>options.ServerRunOptions\<close>, with the fields \<^verbatim>\<open>Run\<close> assigns.
\<close>

record TransportConfig =
  Transport_ServerList :: "string list"
  Transport_CertFile :: string
  Transport_KeyFile :: string
  Transport_TrustedCAFile :: string

record ServerRunOptions =
  Options_Authentication :: string
  SecureServing_BindAddress :: string
  SecureServing_BindPort :: int
  ServerCert_CertDirectory :: string
  Options_BuildHandlerChainFunc :: "handler \<Rightarrow> genericapiserver_Config \<Rightarrow> handler"
  StorageConfig_Transport :: TransportConfig

text \<open>
  The server \<^verbatim>\<open>CreateServerChain\<close> returns, \<^verbatim>\<open>os.FileInfo\<close>,
  \<^verbatim>\<open>url.URL\<close> and the message sent on the injector channel.
\<close>

record APIServer =
  LoopbackClientConfig :: rest_Config
  ExternalAddress :: string

record FileInfo =
  IsDir :: bool

record url_URL =
  URL_Scheme :: string
  URL_Host :: string
  URL_Path :: string

record IdentifiedConfig =
  Identifier :: string
  Config :: rest_Config

text \<open>
  \<^verbatim>\<open>Run\<close> calls the operating system, etcd, the API server library and packages of
  this repository that are not among the sources. What each call returns is a
  parameter: the record \<open>env\<close> gives, for every call \<^verbatim>\<open>Run\<close> makes, its result as a
  function of its arguments. \<^verbatim>\<open>server.AddPostStartHook\<close> and
  \<^verbatim>\<open>server.AddPreShutdownHook\<close> validate a hook against those registered before, so
  they also see the names \<^verbatim>\<open>Run\<close> has registered so far.
\<close>

record env =
  filepath_IsAbs :: "string \<Rightarrow> bool"
  filepath_Join :: "string list \<Rightarrow> string"
  os_Stat :: "string \<Rightarrow> error + FileInfo"
  os_IsNotExist :: "error \<Rightarrow> bool"
  os_MkdirAll :: "string \<Rightarrow> nat \<Rightarrow> error option"
  etcd_Server_Run :: "string \<Rightarrow> string \<Rightarrow> string \<Rightarrow> error + EtcdClientInfo"
  tls_LoadX509KeyPair :: "string \<Rightarrow> string \<Rightarrow> error + string"
  ioutil_ReadFile :: "string \<Rightarrow> error + string"
  clientv3_New :: "string list \<Rightarrow> tls_Config option \<Rightarrow> error option"
  Cluster_MemberList :: "error + (nat \<times> string) list"
  options_NewServerRunOptions :: ServerRunOptions
  net_SplitHostPort :: "string \<Rightarrow> error + string \<times> string"
  net_ParseIP :: "string \<Rightarrow> string"
  strconv_Atoi :: "string \<Rightarrow> error + int"
  sharding_New :: "string \<Rightarrow> error + clientLoader"
  genericcontrolplane_Complete :: "ServerRunOptions \<Rightarrow> error + ServerRunOptions"
  genericcontrolplane_CreateServerChain :: "ServerRunOptions \<Rightarrow> error + APIServer"
  genericcontrolplane_SanitizedClusterName :: "string \<Rightarrow> string \<Rightarrow> string"
  genericcontrolplane_SanitizeClusterId :: "string \<Rightarrow> string"
  clientcmd_ClientConfig :: "clientcmdapi_Config \<Rightarrow> string \<Rightarrow> error + rest_Config"
  clientcmd_WriteToFile :: "clientcmdapi_Config \<Rightarrow> string \<Rightarrow> error option"
  server_AddPostStartHook :: "string list \<Rightarrow> string \<Rightarrow> error option"
  server_AddPreShutdownHook :: "string list \<Rightarrow> string \<Rightarrow> error option"
  ClusterControllerOptions_Validate :: "error option"
  kcpclient_NewForConfigOrDie :: "rest_Config \<Rightarrow> error option"
  apiextensionsclient_NewForConfigOrDie :: "rest_Config \<Rightarrow> error option"
  url_Parse :: "string \<Rightarrow> error + url_URL"
  URL_String :: "url_URL \<Rightarrow> string"
  kcpclient_NewClusterForConfig :: "rest_Config \<Rightarrow> error option"
  workspace_NewController :: "error option"
  prepared_Run :: "error option"

text \<open>
  What \<^verbatim>\<open>Run\<close> does to the world, in the order it does it: every call that starts
  something, writes something or registers something is recorded with its arguments.
  Calls that only read (\<^verbatim>\<open>os.Stat\<close>, \<^verbatim>\<open>ioutil.ReadFile\<close>, the parsers) are not.
\<close>

datatype effect =
    go_http_ListenAndServe string
  | call_os_MkdirAll string nat
  | call_etcd_Server_Run string string string
  | call_clientv3_New "string list" "tls_Config option"
  | call_Client_Close
  | call_MemberList
  | Fprintf_Stderr_Connected nat string
  | call_sharding_New string
  | call_CreateServerChain
  | send_injector IdentifiedConfig
  | call_WriteToFile clientcmdapi_Config string
  | call_server_AddPostStartHook string PostStartHookFunc
  | call_server_AddPreShutdownHook string PreShutdownHookFunc
  | call_PrepareRun
  | call_prepared_Run

text \<open>
  A part of \<^verbatim>\<open>Run\<close> yields the effects it had and either the error it returns with
  or the values the rest of the function goes on with. \<open>andThen\<close> is the sequencing
  of Go statements with \<^verbatim>\<open>if err != nil { return err }\<close> between them.
\<close>

type_synonym 'a step = "effect list \<times> (error + 'a)"

definition andThen :: "'a step \<Rightarrow> ('a \<Rightarrow> 'b step) \<Rightarrow> 'b step" where
  "andThen m f =
     (case m of
        (tr, Inl err) \<Rightarrow> (tr, Inl err)
      | (tr, Inr x) \<Rightarrow> (case f x of (tr', r) \<Rightarrow> (tr @ tr', r)))"

definition mode_0755 :: nat where
  "mode_0755 = 7 * 64 + 5 * 8 + 5"

subsection \<open>The root directory (lines 107 to 126)\<close>

definition Run_dir :: "env \<Rightarrow> Config \<Rightarrow> string" where
  "Run_dir w c =
     (if filepath_IsAbs w (RootDirectory c) then RootDirectory c
      else filepath_Join w [''.'', RootDirectory c])"

definition Run_rootDirectory :: "env \<Rightarrow> Config \<Rightarrow> string step" where
  "Run_rootDirectory w c =
     (let dir = Run_dir w c in
      if length dir \<noteq> 0 then
        (case os_Stat w dir of
           Inl err \<Rightarrow>
             if \<not> os_IsNotExist w err then ([], Inl err)
             else
               (case os_MkdirAll w dir mode_0755 of
                  Some err' \<Rightarrow> ([call_os_MkdirAll dir mode_0755], Inl err')
                | None \<Rightarrow> ([call_os_MkdirAll dir mode_0755], Inr dir))
         | Inr fi \<Rightarrow>
             if \<not> IsDir fi
             then ([], Inl (fmt_Errorf
                     ''%q is a file, please delete or select another location'' [dir] None))
             else ([], Inr dir))
      else ([], Inr dir))"

subsection \<open>etcd (lines 128 to 180)\<close>

definition Run_etcd :: "env \<Rightarrow> Config \<Rightarrow> string \<Rightarrow> EtcdClientInfo step" where
  "Run_etcd w c etcdDir =
     (if length (Endpoints (EtcdClientInfo c)) = 0 then
        (case etcd_Server_Run w etcdDir (EtcdPeerPort c) (EtcdClientPort c) of
           Inl err \<Rightarrow>
             ([call_etcd_Server_Run etcdDir (EtcdPeerPort c) (EtcdClientPort c)], Inl err)
         | Inr embeddedClientInfo \<Rightarrow>
             ([call_etcd_Server_Run etcdDir (EtcdPeerPort c) (EtcdClientPort c)],
              Inr embeddedClientInfo))
      else
        (let info = EtcdClientInfo c;
             tls0 = \<lparr>InsecureSkipVerify = True, Certificates = [], RootCAs = None\<rparr>
         in
         andThen
           (if length (CertFile info) > 0 \<and> length (KeyFile info) > 0 then
              (case tls_LoadX509KeyPair w (CertFile info) (KeyFile info) of
                 Inl err \<Rightarrow>
                   ([], Inl (fmt_Errorf ''failed to load x509 keypair: %w'' [] (Some err)))
               | Inr cert \<Rightarrow> ([], Inr (tls0\<lparr>Certificates := [cert]\<rparr>)))
            else ([], Inr tls0))
           (\<lambda>tls1.
              if length (TrustedCAFile info) > 0 then
                (case ioutil_ReadFile w (TrustedCAFile info) of
                   Inl err \<Rightarrow>
                     ([], Inl (fmt_Errorf ''failed to read ca file: %w'' [] (Some err)))
                 | Inr caCert \<Rightarrow>
                     ([], Inr (info\<lparr>TLS := Some (tls1\<lparr>RootCAs := Some caCert,
                                                        InsecureSkipVerify := False\<rparr>)\<rparr>)))
              else ([], Inr (info\<lparr>TLS := Some tls1\<rparr>)))))"

text \<open>
  \<^verbatim>\<open>clientv3.New\<close>, the member list and the lines printed to standard error. The
  client is closed when \<^verbatim>\<open>Run\<close> returns (\<^verbatim>\<open>defer c.Close()\<close>): \<open>Run_deferClose\<close>
  puts the close after whatever the rest of the function does.
\<close>

definition Run_memberList :: "env \<Rightarrow> unit step" where
  "Run_memberList w =
     (case Cluster_MemberList w of
        Inl err \<Rightarrow> ([call_MemberList], Inl err)
      | Inr members \<Rightarrow>
          (call_MemberList # map (\<lambda>(i, n). Fprintf_Stderr_Connected i n) members, Inr ()))"

definition Run_deferClose :: "'a step \<Rightarrow> 'a step" where
  "Run_deferClose m = (case m of (tr, r) \<Rightarrow> (tr @ [call_Client_Close], r))"

subsection \<open>The listen address (lines 182 to 200)\<close>

definition Run_listen :: "env \<Rightarrow> Config \<Rightarrow> ServerRunOptions \<Rightarrow> ServerRunOptions step" where
  "Run_listen w c serverOptions =
     (case net_SplitHostPort w (Listen c) of
        Inl err \<Rightarrow>
          ([], Inl (fmt_Errorf ''--listen must be of format host:port: %w'' [] (Some err)))
      | Inr (host, port) \<Rightarrow>
          (let so1 = (if host \<noteq> [] then
                        serverOptions\<lparr>SecureServing_BindAddress := net_ParseIP w host\<rparr>
                      else serverOptions)
           in if port \<noteq> [] then
                (case strconv_Atoi w port of
                   Inl err \<Rightarrow> ([], Inl err)
                 | Inr p \<Rightarrow> ([], Inr (so1\<lparr>SecureServing_BindPort := p\<rparr>)))
              else ([], Inr so1)))"

subsection \<open>The shard loader and the server chain (lines 202 to 236)\<close>

definition Run_shardingNew :: "env \<Rightarrow> Config \<Rightarrow> clientLoader step" where
  "Run_shardingNew w c =
     (case sharding_New w (ShardKubeconfigFile c) of
        Inl err \<Rightarrow> ([call_sharding_New (ShardKubeconfigFile c)], Inl err)
      | Inr loader \<Rightarrow> ([call_sharding_New (ShardKubeconfigFile c)], Inr loader))"

definition Run_serverChain ::
  "env \<Rightarrow> Config \<Rightarrow> EtcdClientInfo \<Rightarrow> string \<Rightarrow> ServerRunOptions \<Rightarrow> clientLoader \<Rightarrow>
   APIServer step" where
  "Run_serverChain w c info etcdDir serverOptions loader =
     (let so = serverOptions
            \<lparr>Options_BuildHandlerChainFunc := BuildHandlerChainFunc c loader,
             ServerCert_CertDirectory := etcdDir,
             StorageConfig_Transport :=
               \<lparr>Transport_ServerList = Endpoints info,
                Transport_CertFile = CertFile info,
                Transport_KeyFile = KeyFile info,
                Transport_TrustedCAFile = TrustedCAFile info\<rparr>\<rparr>
      in case genericcontrolplane_Complete w so of
           Inl err \<Rightarrow> ([], Inl err)
         | Inr cpOptions \<Rightarrow>
             (case genericcontrolplane_CreateServerChain w cpOptions of
                Inl err \<Rightarrow> ([call_CreateServerChain], Inl err)
              | Inr server \<Rightarrow> ([call_CreateServerChain], Inr server)))"

subsection \<open>The kubeconfig and the shard announcement (lines 238 to 305)\<close>

definition clientConfig :: "env \<Rightarrow> APIServer \<Rightarrow> clientcmdapi_Config" where
  "clientConfig w server =
     \<lparr>AuthInfos = [(''loopback'', \<lparr>Token = BearerToken (LoopbackClientConfig server)\<rparr>)],
      Clusters =
        [(''cross-cluster'',
          \<lparr>Server = Host (LoopbackClientConfig server) @ ''/clusters/*'',
           CertificateAuthorityData = CAData (LoopbackClientConfig server),
           TLSServerName = TLSClientConfig_ServerName (LoopbackClientConfig server)\<rparr>),
         (''admin'',
          \<lparr>Server = Host (LoopbackClientConfig server),
           CertificateAuthorityData = CAData (LoopbackClientConfig server),
           TLSServerName = TLSClientConfig_ServerName (LoopbackClientConfig server)\<rparr>),
         (''user'',
          \<lparr>Server = Host (LoopbackClientConfig server) @ ''/clusters/'' @
             genericcontrolplane_SanitizedClusterName w (ExternalAddress server) ''user'',
           CertificateAuthorityData = CAData (LoopbackClientConfig server),
           TLSServerName = TLSClientConfig_ServerName (LoopbackClientConfig server)\<rparr>)],
      Contexts =
        [(''cross-cluster'', \<lparr>Cluster = ''cross-cluster'', AuthInfo = ''loopback''\<rparr>),
         (''admin'', \<lparr>Cluster = ''admin'', AuthInfo = ''loopback''\<rparr>),
         (''user'', \<lparr>Cluster = ''user'', AuthInfo = ''loopback''\<rparr>)],
      CurrentContext = ''admin''\<rparr>"

definition shardConfig :: "env \<Rightarrow> APIServer \<Rightarrow> clientcmdapi_Config" where
  "shardConfig w server =
     (let id = genericcontrolplane_SanitizeClusterId w (ExternalAddress server) in
      \<lparr>AuthInfos = [(''loopback'', \<lparr>Token = BearerToken (LoopbackClientConfig server)\<rparr>)],
       Clusters =
         [(id, \<lparr>Server = Host (LoopbackClientConfig server),
                CertificateAuthorityData = CAData (LoopbackClientConfig server),
                TLSServerName = TLSClientConfig_ServerName (LoopbackClientConfig server)\<rparr>)],
       Contexts = [(id, \<lparr>Cluster = id, AuthInfo = ''loopback''\<rparr>)],
       CurrentContext = id\<rparr>)"

definition Run_announce :: "env \<Rightarrow> Config \<Rightarrow> APIServer \<Rightarrow> unit step" where
  "Run_announce w c server =
     (if EnableSharding c then
        (case clientcmd_ClientConfig w (clientConfig w server) ''admin'' of
           Inl err \<Rightarrow> ([], Inl err)
         | Inr adminConfig \<Rightarrow>
             (let sent = send_injector
                           \<lparr>Identifier = ExternalAddress server, Config = adminConfig\<rparr>;
                  file = filepath_Join w [RootDirectory c, ''data'', ''shard.kubeconfig''];
                  written = call_WriteToFile (shardConfig w server) file
              in case clientcmd_WriteToFile w (shardConfig w server) file of
                   Some err \<Rightarrow> ([sent, written], Inl err)
                 | None \<Rightarrow> ([sent, written], Inr ())))
      else ([], Inr ()))"

definition Run_writeKubeconfig :: "env \<Rightarrow> Config \<Rightarrow> APIServer \<Rightarrow> unit step" where
  "Run_writeKubeconfig w c server =
     (let file = filepath_Join w [RootDirectory c, KubeConfigPath c] in
      case clientcmd_WriteToFile w (clientConfig w server) file of
        Some err \<Rightarrow> ([call_WriteToFile (clientConfig w server) file], Inl err)
      | None \<Rightarrow> ([call_WriteToFile (clientConfig w server) file], Inr ()))"

subsection \<open>Hooks and controllers (lines 307 to 398)\<close>

fun Run_addPostStartHooks ::
  "env \<Rightarrow> string list \<Rightarrow> postStartHookEntry list \<Rightarrow> string list step" where
  "Run_addPostStartHooks w reg [] = ([], Inr reg)"
| "Run_addPostStartHooks w reg (entry # entries) =
     (case server_AddPostStartHook w reg (name entry) of
        Some err \<Rightarrow> ([call_server_AddPostStartHook (name entry) (hook entry)], Inl err)
      | None \<Rightarrow>
          andThen ([call_server_AddPostStartHook (name entry) (hook entry)], Inr ())
            (\<lambda>_. Run_addPostStartHooks w (reg @ [name entry]) entries))"

fun Run_addPreShutdownHooks ::
  "env \<Rightarrow> string list \<Rightarrow> preShutdownHookEntry list \<Rightarrow> string list step" where
  "Run_addPreShutdownHooks w reg [] = ([], Inr reg)"
| "Run_addPreShutdownHooks w reg (entry # entries) =
     (case server_AddPreShutdownHook w reg (name entry) of
        Some err \<Rightarrow> ([call_server_AddPreShutdownHook (name entry) (hook entry)], Inl err)
      | None \<Rightarrow>
          andThen ([call_server_AddPreShutdownHook (name entry) (hook entry)], Inr ())
            (\<lambda>_. Run_addPreShutdownHooks w (reg @ [name entry]) entries))"

text \<open>
  The loop over \<^verbatim>\<open>kubeconfig.Clusters\<close> that points every cluster of the copy at the
  external address. Go ranges over a map in no fixed order; the order only decides which
  parse error is returned when several servers fail to parse.
\<close>

fun Run_rewriteClusters ::
  "env \<Rightarrow> APIServer \<Rightarrow> (string \<times> clientcmdapi_Cluster) list \<Rightarrow>
   error + (string \<times> clientcmdapi_Cluster) list" where
  "Run_rewriteClusters w server [] = Inr []"
| "Run_rewriteClusters w server ((k, cluster) # rest) =
     (case url_Parse w (Server cluster) of
        Inl err \<Rightarrow> Inl err
      | Inr hostURL \<Rightarrow>
          (case Run_rewriteClusters w server rest of
             Inl err \<Rightarrow> Inl err
           | Inr rest' \<Rightarrow>
               Inr ((k, cluster\<lparr>Server :=
                       URL_String w (hostURL\<lparr>URL_Host := ExternalAddress server\<rparr>)\<rparr>) # rest')))"

definition Run_clusterController ::
  "env \<Rightarrow> Config \<Rightarrow> APIServer \<Rightarrow> string list \<Rightarrow> string list step" where
  "Run_clusterController w c server reg =
     (if InstallClusterController c then
        (case ClusterControllerOptions_Validate w of
           Some err \<Rightarrow> ([], Inl err)
         | None \<Rightarrow>
        (case clientcmd_ClientConfig w (clientConfig w server) ''admin'' of
           Inl err \<Rightarrow> ([], Inl err)
         | Inr adminConfig \<Rightarrow>
        (case kcpclient_NewForConfigOrDie w adminConfig of
           Some err \<Rightarrow> ([], Inl err)
         | None \<Rightarrow>
        (case apiextensionsclient_NewForConfigOrDie w adminConfig of
           Some err \<Rightarrow> ([], Inl err)
         | None \<Rightarrow>
        (case Run_rewriteClusters w server (Clusters (clientConfig w server)) of
           Inl err \<Rightarrow> ([], Inl err)
         | Inr clusters \<Rightarrow>
             (let kubeconfig = (clientConfig w server)\<lparr>Clusters := clusters\<rparr>;
                  added = call_server_AddPostStartHook ''install-cluster-controller''
                            (installClusterControllerHook kubeconfig)
              in case server_AddPostStartHook w reg ''install-cluster-controller'' of
                   Some err \<Rightarrow> ([added], Inl err)
                 | None \<Rightarrow> ([added], Inr (reg @ [''install-cluster-controller'']))))))))
      else ([], Inr reg))"

definition clusterAll :: string where
  "clusterAll = ''*''"

definition Run_workspaceController ::
  "env \<Rightarrow> Config \<Rightarrow> APIServer \<Rightarrow> string list \<Rightarrow> string list step" where
  "Run_workspaceController w c server reg =
     (if InstallWorkspaceController c then
        (case clientcmd_ClientConfig w (clientConfig w server) ''admin'' of
           Inl err \<Rightarrow> ([], Inl err)
         | Inr adminConfig \<Rightarrow>
        (case kcpclient_NewClusterForConfig w adminConfig of
           Some err \<Rightarrow> ([], Inl err)
         | None \<Rightarrow>
        (case workspace_NewController w of
           Some err \<Rightarrow> ([], Inl err)
         | None \<Rightarrow>
             (let added = call_server_AddPostStartHook ''install-workspace-controller''
                            (installWorkspaceControllerHook adminConfig clusterAll)
              in case server_AddPostStartHook w reg ''install-workspace-controller'' of
                   Some err \<Rightarrow> ([added], Inl err)
                 | None \<Rightarrow> ([added], Inr (reg @ [''install-workspace-controller'']))))))
      else ([], Inr reg))"

subsection \<open>Run, part by part and as a whole\<close>

text \<open>
  \<^verbatim>\<open>Run\<close> in parts, in the order of the source: the profiler (lines 102 to 105);
  the root directory (lines 107 to 126); etcd and its client (lines 128 to 172); the
  member list, the server options and the server chain (lines 174 to 236); the
  kubeconfig and the shard announcement (lines 238 to 305); the hooks, the controllers
  and the run of the prepared server (lines 307 to 402). The result \<open>Inr ()\<close> is the \<^verbatim>\<open>nil\<close> that \<^verbatim>\<open>prepared.Run\<close> returned. The
  assignment to \<^verbatim>\<open>s.cfg.EtcdClientInfo\<close> is the value \<open>info\<close> that the later
  parts read.
\<close>

definition Run_openEtcd :: "env \<Rightarrow> Config \<Rightarrow> string \<Rightarrow> (string \<times> EtcdClientInfo) step" where
  "Run_openEtcd w c dir =
     (let etcdDir = filepath_Join w [dir, EtcdDirectory c] in
      andThen (Run_etcd w c etcdDir) (\<lambda>info.
        (case clientv3_New w (Endpoints info) (TLS info) of
           Some err \<Rightarrow> ([call_clientv3_New (Endpoints info) (TLS info)], Inl err)
         | None \<Rightarrow> ([call_clientv3_New (Endpoints info) (TLS info)], Inr (etcdDir, info)))))"

definition Run_startServer ::
  "env \<Rightarrow> Config \<Rightarrow> string \<Rightarrow> EtcdClientInfo \<Rightarrow> APIServer step" where
  "Run_startServer w c etcdDir info =
     andThen (Run_memberList w) (\<lambda>_.
       (let serverOptions =
              (options_NewServerRunOptions w)\<lparr>Options_Authentication := Authentication c\<rparr>
        in andThen (Run_listen w c serverOptions) (\<lambda>so.
           andThen (Run_shardingNew w c) (\<lambda>loader.
             Run_serverChain w c info etcdDir so loader))))"

definition Run_fromHooks :: "env \<Rightarrow> Server \<Rightarrow> APIServer \<Rightarrow> unit step" where
  "Run_fromHooks w s server =
     andThen (Run_addPostStartHooks w [] (postStartHooks s)) (\<lambda>reg.
     andThen (Run_addPreShutdownHooks w [] (preShutdownHooks s)) (\<lambda>_.
     andThen (Run_clusterController w (cfg s) server reg) (\<lambda>reg1.
     andThen (Run_workspaceController w (cfg s) server reg1) (\<lambda>_.
       ([call_PrepareRun, call_prepared_Run],
        (case prepared_Run w of Some err \<Rightarrow> Inl err | None \<Rightarrow> Inr ()))))))"

definition Run_fromKubeconfig :: "env \<Rightarrow> Server \<Rightarrow> APIServer \<Rightarrow> unit step" where
  "Run_fromKubeconfig w s server =
     andThen (Run_announce w (cfg s) server) (\<lambda>_.
     andThen (Run_writeKubeconfig w (cfg s) server) (\<lambda>_.
       Run_fromHooks w s server))"

definition Run_fromEtcd :: "env \<Rightarrow> Server \<Rightarrow> string \<Rightarrow> unit step" where
  "Run_fromEtcd w s dir =
     andThen (Run_openEtcd w (cfg s) dir) (\<lambda>(etcdDir, info).
       Run_deferClose
         (andThen (Run_startServer w (cfg s) etcdDir info) (\<lambda>server.
            Run_fromKubeconfig w s server)))"

definition Run_profiler :: "Config \<Rightarrow> effect list" where
  "Run_profiler c =
     (if ProfilerAddress c \<noteq> [] then [go_http_ListenAndServe (ProfilerAddress c)] else [])"

definition Run :: "env \<Rightarrow> Server \<Rightarrow> unit step" where
  "Run w s =
     andThen (Run_profiler (cfg s), Inr ())
       (\<lambda>_. andThen (Run_rootDirectory w (cfg s)) (\<lambda>dir. Run_fromEtcd w s dir))"

text \<open>
  The server that the start of \<^verbatim>\<open>Run\<close> creates, when it gets as far as line 233
  without an error: the value of \<^verbatim>\<open>server\<close> in the rest of the function.
\<close>

definition Run_server :: "env \<Rightarrow> Config \<Rightarrow> APIServer option" where
  "Run_server w c =
     (case snd (Run_rootDirectory w c) of
        Inl err \<Rightarrow> None
      | Inr dir \<Rightarrow>
          (case snd (Run_openEtcd w c dir) of
             Inl err \<Rightarrow> None
           | Inr (etcdDir, info) \<Rightarrow>
               (case snd (Run_startServer w c etcdDir info) of
                  Inl err \<Rightarrow> None
                | Inr server \<Rightarrow> Some server)))"

text \<open>Reading a trace: the announcements sent on the injector channel, in order.\<close>

fun announcements :: "effect list \<Rightarrow> IdentifiedConfig list" where
  "announcements [] = []"
| "announcements (send_injector a # tr) = a # announcements tr"
| "announcements (e # tr) = announcements tr"

text \<open>
  The effects that start the API server (the server chain, its preparation, its run),
  and those that create or open etcd state (the embedded server on its directory, the
  client).
\<close>

fun startsAPIServer :: "effect \<Rightarrow> bool" where
  "startsAPIServer call_CreateServerChain = True"
| "startsAPIServer call_PrepareRun = True"
| "startsAPIServer call_prepared_Run = True"
| "startsAPIServer e = False"

fun touchesEtcd :: "effect \<Rightarrow> bool" where
  "touchesEtcd (call_etcd_Server_Run d pp cp) = True"
| "touchesEtcd (call_clientv3_New eps t) = True"
| "touchesEtcd call_MemberList = True"
| "touchesEtcd e = False"

text \<open>
  The address of a logical cluster that \<^verbatim>\<open>startNamespaceController\<close> gives its
  discovery client (line 449).
\<close>

definition logicalClusterConfig_Host :: "rest_Config \<Rightarrow> string \<Rightarrow> string" where
  "logicalClusterConfig_Host loopback clusterName = Host loopback @ ''/clusters/'' @ clusterName"

section \<open>A sample world, for concrete runs\<close>

text \<open>
  A configuration, a server and a world in which every call \<^verbatim>\<open>Run\<close> makes succeeds;
  the concrete runs below change one answer of this world at a time. The library
  functions are given on the inputs used here, with the results the Go library gives:
  \<^verbatim>\<open>filepath.IsAbs\<close> on Unix paths; \<^verbatim>\<open>filepath.Join\<close> on clean elements;
  \<^verbatim>\<open>net.SplitHostPort\<close> on addresses without square brackets, which splits at a
  single colon, with an empty host or an empty port too, and rejects an address without
  a colon and one with several (the bracketed form of an IPv6 address is not treated,
  and refused here); \<^verbatim>\<open>strconv.Atoi\<close> on the port of the sample and on strings
  that are not numbers, the empty string among them;
  the resolution of a kubeconfig context into a \<^verbatim>\<open>rest.Config\<close>; and the API
  server's refusal of a hook name that is already registered.
\<close>

definition unix_IsAbs :: "string \<Rightarrow> bool" where
  "unix_IsAbs p = (take 1 p = ''/'')"

fun joinClean :: "string list \<Rightarrow> string" where
  "joinClean [] = []"
| "joinClean [e] = e"
| "joinClean (e # es) = (if e = [] then joinClean es else e @ ''/'' @ joinClean es)"

definition ENOENT :: error where
  "ENOENT = errors_New ''no such file or directory''"

definition sample_SplitHostPort :: "string \<Rightarrow> error + string \<times> string" where
  "sample_SplitHostPort a =
     (if CHR '':'' \<notin> set a
      then Inl (errors_New (''address '' @ a @ '': missing port in address''))
      else if length (filter (\<lambda>ch. ch = CHR '':'') a) = 1 \<and>
              CHR ''['' \<notin> set a \<and> CHR '']'' \<notin> set a
      then Inr (takeWhile (\<lambda>ch. ch \<noteq> CHR '':'') a, tl (dropWhile (\<lambda>ch. ch \<noteq> CHR '':'') a))
      else Inl (errors_New (''address '' @ a @ '': too many colons in address'')))"

definition sample_Atoi :: "string \<Rightarrow> error + int" where
  "sample_Atoi p =
     (if p = ''6443'' then Inr 6443
      else Inl (errors_New
             (''strconv.Atoi: parsing '' @ [CHR 0x22] @ p @ [CHR 0x22] @ '': invalid syntax'')))"

definition sample_ClientConfig :: "clientcmdapi_Config \<Rightarrow> string \<Rightarrow> error + rest_Config" where
  "sample_ClientConfig k ctx =
     (case map_of (Contexts k) ctx of
        None \<Rightarrow> Inl (errors_New ''context was not found'')
      | Some cx \<Rightarrow>
          (case map_of (Clusters k) (Cluster cx) of
             None \<Rightarrow> Inl (errors_New ''cluster has no server defined'')
           | Some cl \<Rightarrow>
               (case map_of (AuthInfos k) (AuthInfo cx) of
                  None \<Rightarrow> Inl (errors_New ''auth info was not found'')
                | Some ai \<Rightarrow>
                    Inr \<lparr>Host = Server cl, BearerToken = Token ai,
                         CAData = CertificateAuthorityData cl,
                         TLSClientConfig_ServerName = TLSServerName cl\<rparr>)))"

definition sample_AddHook :: "string list \<Rightarrow> string \<Rightarrow> error option" where
  "sample_AddHook reg n =
     (if n \<in> set reg then Some (errors_New ''unable to add hook: already registered'')
      else None)"

definition sampleConfig :: Config where
  "sampleConfig =
     \<lparr>ProfilerAddress = [], RootDirectory = ''/var/kcp'', EtcdDirectory = ''etcd'',
      EtcdClientInfo =
        \<lparr>Endpoints = [], CertFile = [], KeyFile = [], TrustedCAFile = [], TLS = None\<rparr>,
      EtcdPeerPort = ''2380'', EtcdClientPort = ''2379'', Authentication = ''default'',
      Listen = '':6443'', ShardKubeconfigFile = [], EnableSharding = False,
      KubeConfigPath = ''admin.kubeconfig'', InstallClusterController = False,
      InstallWorkspaceController = False\<rparr>"

definition shardedConfig :: Config where
  "shardedConfig = sampleConfig\<lparr>EnableSharding := True\<rparr>"

definition sampleAPIServer :: APIServer where
  "sampleAPIServer =
     \<lparr>LoopbackClientConfig =
        \<lparr>Host = ''https://localhost:6443'', BearerToken = ''loopback-token'',
         CAData = ''ca-data'', TLSClientConfig_ServerName = ''apiserver-loopback-client''\<rparr>,
      ExternalAddress = ''192.168.0.2:6443''\<rparr>"

definition sampleGenericConfig :: genericapiserver_Config where
  "sampleGenericConfig =
     \<lparr>DefaultFilters =
        [''WithPanicRecovery'', ''WithRequestInfo'', ''WithAuthentication'',
         ''WithAuthorization'']\<rparr>"

definition sampleEnv :: env where
  "sampleEnv =
     \<lparr>filepath_IsAbs = unix_IsAbs,
      filepath_Join = joinClean,
      os_Stat = (\<lambda>p. Inr \<lparr>IsDir = True\<rparr>),
      os_IsNotExist = (\<lambda>err. err = ENOENT),
      os_MkdirAll = (\<lambda>p m. None),
      etcd_Server_Run = (\<lambda>d pp cp.
        Inr \<lparr>Endpoints = [''localhost:'' @ cp], CertFile = [], KeyFile = [],
             TrustedCAFile = [], TLS = None\<rparr>),
      tls_LoadX509KeyPair = (\<lambda>c k. Inr (c @ k)),
      ioutil_ReadFile = (\<lambda>f. Inr f),
      clientv3_New = (\<lambda>eps t. None),
      Cluster_MemberList = Inr [(1, ''default'')],
      options_NewServerRunOptions =
        \<lparr>Options_Authentication = [], SecureServing_BindAddress = ''0.0.0.0'',
         SecureServing_BindPort = 6443, ServerCert_CertDirectory = [],
         Options_BuildHandlerChainFunc = DefaultBuildHandlerChain,
         StorageConfig_Transport =
           \<lparr>Transport_ServerList = [], Transport_CertFile = [], Transport_KeyFile = [],
            Transport_TrustedCAFile = []\<rparr>\<rparr>,
      net_SplitHostPort = sample_SplitHostPort,
      net_ParseIP = (\<lambda>h. h),
      strconv_Atoi = sample_Atoi,
      sharding_New = (\<lambda>f. Inr (ClientLoader f)),
      genericcontrolplane_Complete = Inr,
      genericcontrolplane_CreateServerChain = (\<lambda>so. Inr sampleAPIServer),
      genericcontrolplane_SanitizedClusterName = (\<lambda>a n. n),
      genericcontrolplane_SanitizeClusterId = (\<lambda>a. a),
      clientcmd_ClientConfig = sample_ClientConfig,
      clientcmd_WriteToFile = (\<lambda>k f. None),
      server_AddPostStartHook = sample_AddHook,
      server_AddPreShutdownHook = sample_AddHook,
      ClusterControllerOptions_Validate = None,
      kcpclient_NewForConfigOrDie = (\<lambda>k. None),
      apiextensionsclient_NewForConfigOrDie = (\<lambda>k. None),
      url_Parse = (\<lambda>u. Inr \<lparr>URL_Scheme = ''https'', URL_Host = [], URL_Path = u\<rparr>),
      URL_String = (\<lambda>u. URL_Scheme u @ ''://'' @ URL_Host u @ URL_Path u),
      kcpclient_NewClusterForConfig = (\<lambda>k. None),
      workspace_NewController = None,
      prepared_Run = None\<rparr>"

text \<open>The same world with, in turn: the root directory a file; no root directory;
  no root directory and no permission to create it.\<close>

definition env_rootIsFile :: env where
  "env_rootIsFile = sampleEnv\<lparr>os_Stat := (\<lambda>p. Inr \<lparr>IsDir = False\<rparr>)\<rparr>"

definition env_rootMissing :: env where
  "env_rootMissing = sampleEnv\<lparr>os_Stat := (\<lambda>p. Inl ENOENT)\<rparr>"

definition env_rootNotCreatable :: env where
  "env_rootNotCreatable =
     env_rootMissing\<lparr>os_MkdirAll := (\<lambda>p m. Some (errors_New ''permission denied''))\<rparr>"

text \<open>Configurations that differ from the sample in the listen address only.\<close>

definition noPortConfig :: Config where
  "noPortConfig = sampleConfig\<lparr>Listen := ''localhost''\<rparr>"

definition emptyPortConfig :: Config where
  "emptyPortConfig = sampleConfig\<lparr>Listen := ''0.0.0.0:''\<rparr>"

definition namedPortConfig :: Config where
  "namedPortConfig = sampleConfig\<lparr>Listen := ''localhost:https''\<rparr>"

text \<open>The sample world with an etcd that does not answer the request for its members.\<close>

definition env_membersUnavailable :: env where
  "env_membersUnavailable =
     sampleEnv\<lparr>Cluster_MemberList := Inl (errors_New ''context deadline exceeded'')\<rparr>"

definition badListenShardedConfig :: Config where
  "badListenShardedConfig = shardedConfig\<lparr>Listen := ''localhost''\<rparr>"

text \<open>A behaviour of the wrappers under which each hands the request on unchanged.\<close>

definition delegating :: "hit \<Rightarrow> string \<Rightarrow> string option" where
  "delegating k r = Some r"

section \<open>The logical-cluster router (modelled from the spec)\<close>

text \<open>
  The handler that reads the logical cluster off the request path, this package's
  \<^verbatim>\<open>ServeHTTP\<close>, is not among the sources. The sources fix the shape of the paths:
  \<^verbatim>\<open>/clusters/\<close> followed by the name of the cluster (lines 258 and 449 of
  server.go), the name \<^verbatim>\<open>*\<close> for all clusters (lines 246 and 364), the name
  \<^verbatim>\<open>admin\<close> for the admin cluster of the kubeconfig (line 251).
\<close>

datatype clusterTarget = AllClusters | AdminCluster | NamedCluster string

definition clusterPrefix :: string where
  "clusterPrefix = ''/clusters/''"

definition clusterAdmin :: string where
  "clusterAdmin = ''admin''"

text \<open>
  Modelled from the spec: the first step of the router (section 4.2, step 1, "parse the
  path prefix to extract a logical-cluster token"); the handler that does it is missing
  from the sources. The token is what stands between the prefix and the next slash.
\<close>

definition splitClusterPath :: "string \<Rightarrow> (string \<times> string) option" where
  "splitClusterPath p =
     (if take (length clusterPrefix) p = clusterPrefix then
        (let rest = drop (length clusterPrefix) p
         in Some (takeWhile (\<lambda>ch. ch \<noteq> CHR ''/'') rest, dropWhile (\<lambda>ch. ch \<noteq> CHR ''/'') rest))
      else None)"

text \<open>
  Modelled from the spec: the decision of the router (section 4.2, steps 1 and 2, and
  its error conditions; section 6, request path contract); the handler is missing from
  the sources. The wildcard token means all logical clusters, the admin token the admin
  cluster, any other token a single logical cluster of that name; the prefix is stripped
  from the path handed on. A path with no recognizable token passes through unchanged.
\<close>

definition routeRequest :: "string \<Rightarrow> clusterTarget \<times> string" where
  "routeRequest p =
     (case splitClusterPath p of
        None \<Rightarrow> (AdminCluster, p)
      | Some (token, rest) \<Rightarrow>
          if token = [] then (AdminCluster, p)
          else if token = clusterAll then (AllClusters, rest)
          else if token = clusterAdmin then (AdminCluster, rest)
          else (NamedCluster token, rest))"

text \<open>
  A custom resource definition as the test reads it: its name and the logical cluster
  it lives in (\<^verbatim>\<open>crd.ObjectMeta.Name\<close>, \<^verbatim>\<open>crd.ObjectMeta.ClusterName\<close>).
\<close>

record CustomResourceDefinition =
  CRD_Name :: string
  CRD_ClusterName :: string

text \<open>
  Modelled from the spec: which logical clusters a routed request sees (section 6: the
  wildcard is the cross-cluster aggregation, any other token one logical cluster); the
  storage that serves it is missing from the sources.
\<close>

fun inTarget :: "clusterTarget \<Rightarrow> string \<Rightarrow> bool" where
  "inTarget AllClusters cl = True"
| "inTarget AdminCluster cl = (cl = clusterAdmin)"
| "inTarget (NamedCluster n) cl = (cl = n)"

text \<open>
  Modelled from the spec: the list of custom resource definitions served at a path,
  out of those stored in the server; the server side of the list is missing from the
  sources.
\<close>

definition listCRDs ::
  "CustomResourceDefinition list \<Rightarrow> string \<Rightarrow> CustomResourceDefinition list" where
  "listCRDs stored p =
     filter (\<lambda>crd. inTarget (fst (routeRequest p)) (CRD_ClusterName crd)) stored"

text \<open>
  The path at which the client of the logical cluster \<open>c\<close> lists the custom resource
  definitions (\<^verbatim>\<open>crdClient.Cluster(c).ApiextensionsV1().CustomResourceDefinitions()\<close>).
\<close>

definition crdListPath :: "string \<Rightarrow> string" where
  "crdListPath c =
     clusterPrefix @ c @ ''/apis/apiextensions.k8s.io/v1/customresourcedefinitions''"

text \<open>
  \<^verbatim>\<open>detectClusterName\<close> of the test (lines 367 to 385 of the test file): list the
  definitions of all clusters, and return the cluster of the first one of the given
  name. The answer of the server to the list is the parameter \<open>list\<close>.
\<close>

fun findCRD :: "CustomResourceDefinition list \<Rightarrow> string \<Rightarrow> error + string" where
  "findCRD [] crdName = Inl (errors_New ''detected no admin cluster'')"
| "findCRD (crd # crds) crdName =
     (if CRD_Name crd = crdName then Inr (CRD_ClusterName crd) else findCRD crds crdName)"

definition detectClusterName ::
  "(string \<Rightarrow> error + CustomResourceDefinition list) \<Rightarrow> string \<Rightarrow> error + string" where
  "detectClusterName list crdName =
     (case list (crdListPath ''*'') of
        Inl err \<Rightarrow> Inl (fmt_Errorf ''failed to list crds: %w'' [] (Some err))
      | Inr items \<Rightarrow>
          if length items = 0
          then Inl (errors_New ''found no crds, cannot detect cluster name'')
          else findCRD items crdName)"

text \<open>A server that holds three definitions in two logical clusters.\<close>

definition sampleCRDs :: "CustomResourceDefinition list" where
  "sampleCRDs =
     [\<lparr>CRD_Name = ''clusters.cluster.example.dev'', CRD_ClusterName = ''admin''\<rparr>,
      \<lparr>CRD_Name = ''cowboys.wildwest.dev'', CRD_ClusterName = ''admin''\<rparr>,
      \<lparr>CRD_Name = ''cowboys.wildwest.dev'', CRD_ClusterName = ''user''\<rparr>]"

definition sampleList :: "string \<Rightarrow> error + CustomResourceDefinition list" where
  "sampleList p = Inr (listCRDs sampleCRDs p)"

section \<open>The cluster controller (modelled from the spec) and the wait of the test\<close>

text \<open>
  The \<^verbatim>\<open>Cluster\<close> object as the test uses it (lines 317 to 320 and 343 to 353 of the
  test file): a name, the kubeconfig of the sink in its spec, and conditions with a type
  and a status in its status. The phase and the other fields of a condition are those
  of the spec (section 3).
\<close>

datatype ConditionStatus = ConditionTrue | ConditionFalse | ConditionUnknown

datatype ClusterConditionType = ClusterConditionReady

datatype ClusterPhase = PhaseInitializing | PhaseReady | PhaseError | PhaseTerminating

record ClusterCondition =
  Condition_Type :: ClusterConditionType
  Condition_Status :: ConditionStatus
  Condition_Reason :: string
  Condition_Message :: string
  LastProbeTime :: nat
  LastTransitionTime :: nat

record v1alpha1_Cluster =
  Cluster_Name :: string
  Spec_KubeConfig :: string
  Status_Phase :: ClusterPhase
  Status_Conditions :: "ClusterCondition list"

fun errorText :: "error \<Rightarrow> string" where
  "errorText (errors_New m) = m"
| "errorText (fmt_Errorf f args wrapped) = f"
| "errorText (panic m) = m"

text \<open>
  Modelled from the spec: the condition the controller publishes for a binding that is
  ready (section 4.3; section 3 for the fields); the controller is missing from the
  sources.
\<close>

definition readyCondition :: "nat \<Rightarrow> ClusterCondition" where
  "readyCondition now =
     \<lparr>Condition_Type = ClusterConditionReady, Condition_Status = ConditionTrue,
      Condition_Reason = [], Condition_Message = [],
      LastProbeTime = now, LastTransitionTime = now\<rparr>"

text \<open>
  Modelled from the spec: the condition the controller publishes for a binding in
  error, which carries the reason and the error (section 4.3); the controller is missing
  from the sources.
\<close>

definition errorCondition :: "nat \<Rightarrow> string \<Rightarrow> error \<Rightarrow> ClusterCondition" where
  "errorCondition now reason err =
     \<lparr>Condition_Type = ClusterConditionReady, Condition_Status = ConditionFalse,
      Condition_Reason = reason, Condition_Message = errorText err,
      LastProbeTime = now, LastTransitionTime = now\<rparr>"

text \<open>
  Modelled from the spec: a transition of the state machine (section 4.3: "append a
  condition with transition timestamp only if the previous state differed"); the
  controller is missing from the sources.
\<close>

definition moveTo :: "ClusterPhase \<Rightarrow> ClusterCondition \<Rightarrow> v1alpha1_Cluster \<Rightarrow> v1alpha1_Cluster" where
  "moveTo ph c b =
     (if Status_Phase b \<noteq> ph
      then b\<lparr>Status_Phase := ph, Status_Conditions := Status_Conditions b @ [c]\<rparr>
      else b)"

text \<open>
  Modelled from the spec: one reconciliation of a binding (section 4.3): parse the
  credential blob, on failure go to error with the reason "invalid configuration"; on
  success probe the sink, and go to ready if it answers and to error with the error of
  the probe if it does not. Terminating is terminal. The parser of the blob and the
  probe are the collaborators of section 1, taken as parameters; the controller is
  missing from the sources.
\<close>

definition reconcile ::
  "(string \<Rightarrow> error + rest_Config) \<Rightarrow> (rest_Config \<Rightarrow> error option) \<Rightarrow> nat \<Rightarrow>
   v1alpha1_Cluster \<Rightarrow> v1alpha1_Cluster" where
  "reconcile parse probe now b =
     (if Status_Phase b = PhaseTerminating then b
      else
        (case parse (Spec_KubeConfig b) of
           Inl err \<Rightarrow> moveTo PhaseError (errorCondition now ''invalid configuration'' err) b
         | Inr credentials \<Rightarrow>
             (case probe credentials of
                None \<Rightarrow> moveTo PhaseReady (readyCondition now) b
              | Some err \<Rightarrow> moveTo PhaseError (errorCondition now ''probe failed'' err) b)))"

text \<open>
  What happens to a binding: its owner changes its spec, the controller reconciles it
  at some time with some answer of the sink to the probe (\<open>None\<close> when the sink
  answers), or its deletion is requested.
\<close>

datatype controllerEvent =
    SpecChange string
  | Reconcile nat "error option"
  | DeletionRequest

text \<open>
  Modelled from the spec: the life of a binding (section 4.3 and section 3: the spec is
  owner-writable, the status is the controller's, deletion enters Terminating, which
  only the disappearance of the object leaves); the controller is missing from the
  sources.
\<close>

fun control ::
  "(string \<Rightarrow> error + rest_Config) \<Rightarrow> v1alpha1_Cluster \<Rightarrow> controllerEvent \<Rightarrow> v1alpha1_Cluster"
  where
  "control parse b (SpecChange k) =
     (if Status_Phase b = PhaseTerminating then b else b\<lparr>Spec_KubeConfig := k\<rparr>)"
| "control parse b (Reconcile now answer) = reconcile parse (\<lambda>credentials. answer) now b"
| "control parse b DeletionRequest = b\<lparr>Status_Phase := PhaseTerminating\<rparr>"

text \<open>
  Modelled from the spec: a binding as it is created (section 4.3: the state machine
  starts in Initializing; section 3: the condition history starts empty).
\<close>

definition newCluster :: "string \<Rightarrow> string \<Rightarrow> v1alpha1_Cluster" where
  "newCluster n k =
     \<lparr>Cluster_Name = n, Spec_KubeConfig = k, Status_Phase = PhaseInitializing,
      Status_Conditions = []\<rparr>"

text \<open>
  The test of a condition in \<^verbatim>\<open>installCluster\<close> (line 349 of the test file).
\<close>

definition isReadyTrue :: "ClusterCondition \<Rightarrow> bool" where
  "isReadyTrue c =
     (Condition_Type c = ClusterConditionReady \<and> Condition_Status c = ConditionTrue)"

text \<open>
  The phase of a binding agrees with the last condition of its history.
\<close>

fun settled :: "v1alpha1_Cluster \<Rightarrow> bool" where
  "settled b =
     (case Status_Phase b of
        PhaseInitializing \<Rightarrow> Status_Conditions b = []
      | PhaseReady \<Rightarrow> Status_Conditions b \<noteq> [] \<and> isReadyTrue (last (Status_Conditions b))
      | PhaseError \<Rightarrow> Status_Conditions b \<noteq> [] \<and> \<not> isReadyTrue (last (Status_Conditions b))
      | PhaseTerminating \<Rightarrow> True)"

text \<open>A parser of kubeconfigs that knows one kubeconfig.\<close>

definition sampleParse :: "string \<Rightarrow> error + rest_Config" where
  "sampleParse k =
     (if k = ''kubeconfig of the sink''
      then Inr \<lparr>Host = ''https://sink:6443'', BearerToken = ''sink-token'', CAData = ''sink-ca'',
                TLSClientConfig_ServerName = []\<rparr>
      else Inl (errors_New ''invalid kubeconfig''))"

section \<open>Watches, and the objects of the test\<close>

text \<open>
  The test's resource, a cowboy (lines 67 to 75 of the test file), with the metadata the
  test reads and the resource version every stored object has.
\<close>

record Cowboy =
  Namespace :: string
  Name :: string
  Labels :: "(string \<times> string) list"
  ResourceVersion :: nat
  Spec_Intent :: string
  Status_Result :: string

datatype watch_EventType =
  watch_Added | watch_Modified | watch_Deleted | watch_Bookmark | watch_Error

datatype runtime_Object =
    ClusterObject v1alpha1_Cluster
  | CowboyObject Cowboy
  | StatusObject string

record watch_Event =
  Event_Type :: watch_EventType
  Event_Object :: runtime_Object

text \<open>
  The loop of \<^verbatim>\<open>installCluster\<close> (lines 334 to 363 of the test file) over the events
  that arrive before the deadline of thirty seconds; when they are used up the deadline
  passes.
\<close>

fun installCluster_wait :: "string \<Rightarrow> watch_Event list \<Rightarrow> error option" where
  "installCluster_wait cluster_Name [] =
     Some (fmt_Errorf ''failed to wait for cluster in source kcp to be ready: %w'' []
            (Some (errors_New ''context deadline exceeded'')))"
| "installCluster_wait cluster_Name (event # events) =
     (case Event_Type event of
        watch_Added \<Rightarrow> installCluster_wait cluster_Name events
      | watch_Bookmark \<Rightarrow> installCluster_wait cluster_Name events
      | watch_Modified \<Rightarrow>
          (case Event_Object event of
             ClusterObject updated \<Rightarrow>
               if list_ex isReadyTrue (Status_Conditions updated) then None
               else installCluster_wait cluster_Name events
           | CowboyObject other \<Rightarrow> installCluster_wait cluster_Name events
           | StatusObject other \<Rightarrow> installCluster_wait cluster_Name events)
      | watch_Deleted \<Rightarrow>
          Some (fmt_Errorf ''cluster %s was deleted before being ready'' [cluster_Name] None)
      | watch_Error \<Rightarrow>
          Some (fmt_Errorf ''encountered error while watching cluster %s: %#v''
                 [cluster_Name] None))"

section \<open>The syncer (modelled from the spec) and the test cases\<close>

text \<open>
  The syncer and the API servers it runs between are not among the sources. An object
  is identified by its namespace and name (section 3, synced object pair).
\<close>

type_synonym objectKey = "string \<times> string"

definition cowboyKey :: "Cowboy \<Rightarrow> objectKey" where
  "cowboyKey obj = (Namespace obj, Name obj)"

text \<open>
  Modelled from the spec: one side of the pair as the typed client of section 6 sees
  it: the stored objects, the last resource version given out, and two watches, the
  test's and the syncer's, each a queue of the events not yet received. The API server
  is missing from the sources.
\<close>

record apiCluster =
  objects :: "objectKey \<Rightarrow> Cowboy option"
  lastResourceVersion :: nat
  testWatcher :: "watch_Event list"
  syncerWatcher :: "watch_Event list"

text \<open>
  Modelled from the spec: delivery of a change to every watch of the cluster (sections
  5 and 6: per-object event order is preserved within one watch stream).
\<close>

definition publish :: "watch_EventType \<Rightarrow> Cowboy \<Rightarrow> apiCluster \<Rightarrow> apiCluster" where
  "publish ty obj c =
     c\<lparr>testWatcher := testWatcher c @ [\<lparr>Event_Type = ty, Event_Object = CowboyObject obj\<rparr>],
       syncerWatcher := syncerWatcher c @ [\<lparr>Event_Type = ty, Event_Object = CowboyObject obj\<rparr>]\<rparr>"

text \<open>
  Modelled from the spec: a write of the API server: the object gets the next resource
  version, is stored under its key, and the change is delivered to the watches.
\<close>

definition store :: "watch_EventType \<Rightarrow> Cowboy \<Rightarrow> apiCluster \<Rightarrow> Cowboy \<times> apiCluster" where
  "store ty obj c =
     (let rv = Suc (lastResourceVersion c);
          stored = obj\<lparr>ResourceVersion := rv\<rparr>
      in (stored,
          publish ty stored
            (c\<lparr>objects := (objects c)(cowboyKey obj \<mapsto> stored), lastResourceVersion := rv\<rparr>)))"

text \<open>
  Modelled from the spec: create of the typed client (section 6); the API server is
  missing from the sources.
\<close>

definition api_Create :: "Cowboy \<Rightarrow> apiCluster \<Rightarrow> error + Cowboy \<times> apiCluster" where
  "api_Create obj c =
     (case objects c (cowboyKey obj) of
        Some existing \<Rightarrow> Inl (errors_New ''already exists'')
      | None \<Rightarrow> Inr (store watch_Added obj c))"

text \<open>
  Modelled from the spec: the status-subresource patch of the typed client (section
  6). A patch that changes nothing writes nothing and delivers no event.
\<close>

definition api_PatchStatus ::
  "objectKey \<Rightarrow> string \<Rightarrow> apiCluster \<Rightarrow> error + Cowboy \<times> apiCluster" where
  "api_PatchStatus k result c =
     (case objects c k of
        None \<Rightarrow> Inl (errors_New ''not found'')
      | Some cur \<Rightarrow>
          if Status_Result cur = result then Inr (cur, c)
          else Inr (store watch_Modified (cur\<lparr>Status_Result := result\<rparr>) c))"

text \<open>
  Modelled from the spec: the patch of the typed client on the spec (section 6).
\<close>

definition api_PatchSpec ::
  "objectKey \<Rightarrow> string \<Rightarrow> apiCluster \<Rightarrow> error + Cowboy \<times> apiCluster" where
  "api_PatchSpec k intent c =
     (case objects c k of
        None \<Rightarrow> Inl (errors_New ''not found'')
      | Some cur \<Rightarrow>
          if Spec_Intent cur = intent then Inr (cur, c)
          else Inr (store watch_Modified (cur\<lparr>Spec_Intent := intent\<rparr>) c))"

text \<open>
  Modelled from the spec: the pair of clusters of one binding with the state of its
  syncer: the phase of the binding (the supervisor of section 4.5 runs syncers for a
  ready binding only), the markers of section 4.4 (per object, the resource version each
  direction last produced), and counts of the writes the syncer made on each side to
  each object.
\<close>

record world =
  source :: apiCluster
  sink :: apiCluster
  binding :: ClusterPhase
  wroteToSink :: "objectKey \<Rightarrow> nat option"
  wroteToSource :: "objectKey \<Rightarrow> nat option"
  sinkWrites :: "objectKey \<Rightarrow> nat"
  sourceWrites :: "objectKey \<Rightarrow> nat"

text \<open>
  Modelled from the spec: the sink-visible object of section 4.4: same identity,
  the spec of the source, the sink's own metadata, no status.
\<close>

definition sinkObject :: "Cowboy \<Rightarrow> Cowboy" where
  "sinkObject obj =
     \<lparr>Namespace = Namespace obj, Name = Name obj, Labels = Labels obj, ResourceVersion = 0,
      Spec_Intent = Spec_Intent obj, Status_Result = []\<rparr>"

text \<open>
  Modelled from the spec: the spec direction stamps what it wrote to the sink with the
  resource version the write produced (section 4.4, echo suppression).
\<close>

definition wroteSink :: "world \<Rightarrow> Cowboy \<times> apiCluster \<Rightarrow> world" where
  "wroteSink w r =
     w\<lparr>sink := snd r,
       wroteToSink := (wroteToSink w)(cowboyKey (fst r) \<mapsto> ResourceVersion (fst r)),
       sinkWrites := (sinkWrites w)(cowboyKey (fst r) := Suc (sinkWrites w (cowboyKey (fst r))))\<rparr>"

text \<open>
  Modelled from the spec: the status direction stamps what it wrote to the source
  (section 4.4, echo suppression).
\<close>

definition wroteSource :: "world \<Rightarrow> Cowboy \<times> apiCluster \<Rightarrow> world" where
  "wroteSource w r =
     w\<lparr>source := snd r,
       wroteToSource := (wroteToSource w)(cowboyKey (fst r) \<mapsto> ResourceVersion (fst r)),
       sourceWrites :=
         (sourceWrites w)(cowboyKey (fst r) := Suc (sourceWrites w (cowboyKey (fst r))))\<rparr>"

text \<open>
  Modelled from the spec: the spec direction on one changed source object (section
  4.4): an event that is the echo of the syncer's own write to the source is discarded;
  otherwise the object is created on the sink if it is not there, left alone if the
  sink already has its spec, and patched if not.
\<close>

definition applySpec :: "world \<Rightarrow> Cowboy \<Rightarrow> world" where
  "applySpec w obj =
     (if wroteToSource w (cowboyKey obj) = Some (ResourceVersion obj) then w
      else
        (case objects (sink w) (cowboyKey obj) of
           None \<Rightarrow>
             (case api_Create (sinkObject obj) (sink w) of
                Inl err \<Rightarrow> w
              | Inr r \<Rightarrow> wroteSink w r)
         | Some cur \<Rightarrow>
             if Spec_Intent cur = Spec_Intent obj then w
             else
               (case api_PatchSpec (cowboyKey obj) (Spec_Intent obj) (sink w) of
                  Inl err \<Rightarrow> w
                | Inr r \<Rightarrow> wroteSink w r)))"

text \<open>
  Modelled from the spec: the status direction on one changed sink object (section
  4.4): an event that is the echo of the syncer's own write to the sink is discarded;
  otherwise the status of the source object is patched if it differs.
\<close>

definition applyStatus :: "world \<Rightarrow> Cowboy \<Rightarrow> world" where
  "applyStatus w obj =
     (if wroteToSink w (cowboyKey obj) = Some (ResourceVersion obj) then w
      else
        (case objects (source w) (cowboyKey obj) of
           None \<Rightarrow> w
         | Some cur \<Rightarrow>
             if Status_Result cur = Status_Result obj then w
             else
               (case api_PatchStatus (cowboyKey obj) (Status_Result obj) (source w) of
                  Inl err \<Rightarrow> w
                | Inr r \<Rightarrow> wroteSource w r)))"

text \<open>
  Modelled from the spec: the events a direction acts on are additions and updates
  of objects of the kind (section 4.4, "on add/update").
\<close>

definition changed :: "watch_Event \<Rightarrow> Cowboy option" where
  "changed event =
     (case Event_Object event of
        CowboyObject obj \<Rightarrow>
          if Event_Type event = watch_Added \<or> Event_Type event = watch_Modified
          then Some obj else None
      | ClusterObject other \<Rightarrow> None
      | StatusObject other \<Rightarrow> None)"

text \<open>
  Modelled from the spec: one turn of the spec direction: it takes the next event of
  its watch on the source, if there is one and the binding is ready.
\<close>

definition specDirection :: "world \<Rightarrow> world" where
  "specDirection w =
     (if binding w \<noteq> PhaseReady then w
      else
        (case syncerWatcher (source w) of
           [] \<Rightarrow> w
         | event # pending \<Rightarrow>
             (let w1 = w\<lparr>source := (source w)\<lparr>syncerWatcher := pending\<rparr>\<rparr>
              in case changed event of None \<Rightarrow> w1 | Some obj \<Rightarrow> applySpec w1 obj)))"

text \<open>
  Modelled from the spec: one turn of the status direction, on its watch on the sink.
\<close>

definition statusDirection :: "world \<Rightarrow> world" where
  "statusDirection w =
     (if binding w \<noteq> PhaseReady then w
      else
        (case syncerWatcher (sink w) of
           [] \<Rightarrow> w
         | event # pending \<Rightarrow>
             (let w1 = w\<lparr>sink := (sink w)\<lparr>syncerWatcher := pending\<rparr>\<rparr>
              in case changed event of None \<Rightarrow> w1 | Some obj \<Rightarrow> applyStatus w1 obj)))"

text \<open>
  Modelled from the spec: the two directions run concurrently, with no order between
  them (section 5). A schedule is the order in which they get their turns; a turn of a
  direction whose watch has nothing to deliver changes nothing.
\<close>

datatype direction = SpecDirection | StatusDirection

fun turn :: "world \<Rightarrow> direction \<Rightarrow> world" where
  "turn w SpecDirection = specDirection w"
| "turn w StatusDirection = statusDirection w"

text \<open>
  Modelled from the spec: the syncer run through a schedule of turns.
\<close>

definition syncer :: "direction list \<Rightarrow> world \<Rightarrow> world" where
  "syncer sched w = foldl turn w sched"

text \<open>
  Modelled from the spec: the syncer has received everything its watches delivered.
\<close>

definition quiescent :: "world \<Rightarrow> bool" where
  "quiescent w = (syncerWatcher (source w) = [] \<and> syncerWatcher (sink w) = [])"

text \<open>The object a client asks to create: no resource version and no status yet.\<close>

definition newCowboy :: "string \<Rightarrow> string \<Rightarrow> (string \<times> string) list \<Rightarrow> string \<Rightarrow> Cowboy" where
  "newCowboy ns n ls intent =
     \<lparr>Namespace = ns, Name = n, Labels = ls, ResourceVersion = 0, Spec_Intent = intent,
      Status_Result = []\<rparr>"

text \<open>
  Modelled from the spec: the calls of the test's clients, a create on the source and a
  status patch on the sink, as they change the pair.
\<close>

definition createInSource :: "Cowboy \<Rightarrow> world \<Rightarrow> error + Cowboy \<times> world" where
  "createInSource obj w =
     (case api_Create obj (source w) of
        Inl err \<Rightarrow> Inl err
      | Inr (created, c) \<Rightarrow> Inr (created, w\<lparr>source := c\<rparr>))"

definition patchStatusInSink :: "objectKey \<Rightarrow> string \<Rightarrow> world \<Rightarrow> error + Cowboy \<times> world" where
  "patchStatusInSink k result w =
     (case api_PatchStatus k result (sink w) of
        Inl err \<Rightarrow> Inl err
      | Inr (updated, c) \<Rightarrow> Inr (updated, w\<lparr>sink := c\<rparr>))"


text \<open>
  The helpers of the test (lines 387 to 433 of the test file). A watcher is the queue
  of its channel and whether the channel was closed. \<^verbatim>\<open>nextEvent\<close> takes the next
  event; with none to take it reports the closed channel, or else the timeout: whatever
  the syncer does within the timeout has been done before the test reads. When the
  matcher fails, \<^verbatim>\<open>expectNextEvent\<close> returns the object along with the error; its
  callers read the error only, and so does the result here.
\<close>

record watch_Interface =
  ResultChan :: "watch_Event list"
  Stopped :: bool

definition nextEvent :: "watch_Interface \<Rightarrow> (error + watch_Event) \<times> watch_Interface" where
  "nextEvent w =
     (case ResultChan w of
        event # rest \<Rightarrow> (Inr event, w\<lparr>ResultChan := rest\<rparr>)
      | [] \<Rightarrow>
          if Stopped w then (Inl (errors_New ''watch closed unexpectedly''), w)
          else (Inl (errors_New ''timed out waiting for event''), w))"

definition ignoreNextEvent :: "watch_Interface \<Rightarrow> error option \<times> watch_Interface" where
  "ignoreNextEvent w =
     (case nextEvent w of (Inl err, w') \<Rightarrow> (Some err, w') | (Inr event, w') \<Rightarrow> (None, w'))"

fun eventTypeName :: "watch_EventType \<Rightarrow> string" where
  "eventTypeName watch_Added = ''ADDED''"
| "eventTypeName watch_Modified = ''MODIFIED''"
| "eventTypeName watch_Deleted = ''DELETED''"
| "eventTypeName watch_Bookmark = ''BOOKMARK''"
| "eventTypeName watch_Error = ''ERROR''"

definition expectNextEvent ::
  "watch_Interface \<Rightarrow> watch_EventType \<Rightarrow> (Cowboy \<Rightarrow> error option) \<Rightarrow>
   (error + Cowboy) \<times> watch_Interface" where
  "expectNextEvent w expectType matcher =
     (case nextEvent w of
        (Inl err, w') \<Rightarrow> (Inl err, w')
      | (Inr event, w') \<Rightarrow>
          if expectType \<noteq> Event_Type event
          then (Inl (fmt_Errorf (''got incorrect watch event type: %v != %v'' @ [CHR 0x0A])
                      [eventTypeName expectType, eventTypeName (Event_Type event)] None), w')
          else
            (case Event_Object event of
               ClusterObject other \<Rightarrow>
                 (Inl (fmt_Errorf ''got %T, not a Workspace'' [] None), w')
             | StatusObject other \<Rightarrow>
                 (Inl (fmt_Errorf ''got %T, not a Workspace'' [] None), w')
             | CowboyObject cowboy \<Rightarrow>
                 (case matcher cowboy of
                    Some err \<Rightarrow> (Inl err, w')
                  | None \<Rightarrow> (Inr cowboy, w'))))"

text \<open>
  The matchers: \<^verbatim>\<open>exactMatcher\<close> (line 387), and the two function literals of the test
  cases (lines 84 to 95 and 138 to 149). The text of the difference that the error
  messages carry is not modelled.
\<close>

definition exactMatcher :: "Cowboy \<Rightarrow> Cowboy \<Rightarrow> error option" where
  "exactMatcher expected object =
     (if \<not> (expected = object) then Some (fmt_Errorf ''incorrect object: %v'' [] None)
      else None)"

definition specMatcher :: "Cowboy \<Rightarrow> Cowboy \<Rightarrow> error option" where
  "specMatcher cowboy object =
     (if Namespace cowboy \<noteq> Namespace object
      then Some (fmt_Errorf ''saw incorrect namespace, expected %s, saw %s''
                  [Namespace cowboy, Namespace object] None)
      else if Name cowboy \<noteq> Name object
      then Some (fmt_Errorf ''saw incorrect name, expected %s, saw %s''
                  [Name cowboy, Name object] None)
      else if Spec_Intent cowboy \<noteq> Spec_Intent object
      then Some (fmt_Errorf ''saw incorrect spec on sink cluster: %s'' [] None)
      else None)"

definition statusMatcher :: "Cowboy \<Rightarrow> Cowboy \<Rightarrow> Cowboy \<Rightarrow> error option" where
  "statusMatcher cowboy updated object =
     (if Namespace cowboy \<noteq> Namespace object
      then Some (fmt_Errorf ''saw incorrect namespace, expected %s, saw %s''
                  [Namespace cowboy, Namespace object] None)
      else if Name cowboy \<noteq> Name object
      then Some (fmt_Errorf ''saw incorrect name, expected %s, saw %s''
                  [Name cowboy, Name object] None)
      else if Status_Result updated \<noteq> Status_Result object
      then Some (fmt_Errorf ''saw incorrect status on source cluster: %s'' [] None)
      else None)"

text \<open>The constants and the object of the test cases (lines 56, 57 and 67 to 75).\<close>

definition testNamespace :: string where
  "testNamespace = ''cluster-controller-test''"

definition clusterName :: string where
  "clusterName = ''us-east1''"

definition timothy :: Cowboy where
  "timothy = newCowboy testNamespace ''timothy'' [(''kcp.dev/cluster'', clusterName)] ''yeehaw''"

text \<open>
  The watchers of the test are the test's queues of the two clusters: reading from a
  watcher takes the event off the queue.
\<close>

definition onSourceWatcher ::
  "(watch_Interface \<Rightarrow> 'a \<times> watch_Interface) \<Rightarrow> world \<Rightarrow> 'a \<times> world" where
  "onSourceWatcher f w =
     (case f \<lparr>ResultChan = testWatcher (source w), Stopped = False\<rparr> of
        (r, wi) \<Rightarrow> (r, w\<lparr>source := (source w)\<lparr>testWatcher := ResultChan wi\<rparr>\<rparr>))"

definition onSinkWatcher ::
  "(watch_Interface \<Rightarrow> 'a \<times> watch_Interface) \<Rightarrow> world \<Rightarrow> 'a \<times> world" where
  "onSinkWatcher f w =
     (case f \<lparr>ResultChan = testWatcher (sink w), Stopped = False\<rparr> of
        (r, wi) \<Rightarrow> (r, w\<lparr>sink := (sink w)\<lparr>testWatcher := ResultChan wi\<rparr>\<rparr>))"

text \<open>
  The two test cases (lines 66 to 102 and 106 to 153 of the test file). Each returns
  what it reports with \<^verbatim>\<open>t.Errorf\<close>; none reported is a pass. The schedules are what
  the syncer gets to do while the test waits for events.
\<close>

definition work_specSyncs :: "direction list \<Rightarrow> world \<Rightarrow> error list" where
  "work_specSyncs sched w =
     (case createInSource timothy w of
        Inl err \<Rightarrow> [fmt_Errorf ''failed to create cowboy: %v'' [] (Some err)]
      | Inr (cowboy, w1) \<Rightarrow>
     (case onSourceWatcher (\<lambda>sourceWatcher.
              expectNextEvent sourceWatcher watch_Added (exactMatcher cowboy))
            (syncer sched w1) of
        (Inl err, w2) \<Rightarrow> [fmt_Errorf ''did not see cowboy created: %v'' [] (Some err)]
      | (Inr seen, w2) \<Rightarrow>
     (case onSinkWatcher (\<lambda>sinkWatcher.
              expectNextEvent sinkWatcher watch_Added (specMatcher cowboy)) w2 of
        (Inl err, w3) \<Rightarrow>
          [fmt_Errorf ''did not see cowboy spec updated on sink cluster: %v'' [] (Some err),
           fmt_Errorf ''%#v'' [] None, fmt_Errorf ''%#v'' [] None]
      | (Inr seen', w3) \<Rightarrow> [])))"

definition work_statusSyncs :: "direction list \<Rightarrow> direction list \<Rightarrow> world \<Rightarrow> error list" where
  "work_statusSyncs sched1 sched2 w =
     (case createInSource timothy w of
        Inl err \<Rightarrow> [fmt_Errorf ''failed to create cowboy: %v'' [] (Some err)]
      | Inr (cowboy, w1) \<Rightarrow>
     (case onSourceWatcher ignoreNextEvent (syncer sched1 w1) of
        (Some err, w2) \<Rightarrow>
          [fmt_Errorf ''error ignoring source event when watching cowboys: %v'' [] (Some err)]
      | (None, w2) \<Rightarrow>
     (case onSinkWatcher ignoreNextEvent w2 of
        (Some err, w3) \<Rightarrow>
          [fmt_Errorf ''error ignoring sink event when watching cowboys: %v'' [] (Some err)]
      | (None, w3) \<Rightarrow>
     (case patchStatusInSink (testNamespace, Name cowboy) ''giddyup'' w3 of
        Inl err \<Rightarrow> [fmt_Errorf ''failed to patch cowboy: %v'' [] (Some err)]
      | Inr (updated, w4) \<Rightarrow>
     (case onSinkWatcher (\<lambda>sinkWatcher.
              expectNextEvent sinkWatcher watch_Modified (exactMatcher updated))
            (syncer sched2 w4) of
        (Inl err, w5) \<Rightarrow> [fmt_Errorf ''did not see cowboy patched: %v'' [] (Some err)]
      | (Inr seen, w5) \<Rightarrow>
     (case onSourceWatcher (\<lambda>sourceWatcher.
              expectNextEvent sourceWatcher watch_Modified (statusMatcher cowboy updated)) w5 of
        (Inl err, w6) \<Rightarrow>
          [fmt_Errorf ''did not see cowboy status updated on source cluster: %v'' []
             (Some err)]
      | (Inr seen', w6) \<Rightarrow> []))))))"

text \<open>
  The pair the framework starts for each test case: two empty clusters, the binding
  ready (the test has waited for that in \<^verbatim>\<open>installCluster\<close>), the syncer idle.
\<close>

definition emptyCluster :: apiCluster where
  "emptyCluster =
     \<lparr>objects = (\<lambda>k. None), lastResourceVersion = 0, testWatcher = [], syncerWatcher = []\<rparr>"

definition freshWorld :: world where
  "freshWorld =
     \<lparr>source = emptyCluster, sink = emptyCluster, binding = PhaseReady,
      wroteToSink = (\<lambda>k. None), wroteToSource = (\<lambda>k. None), sinkWrites = (\<lambda>k. 0),
      sourceWrites = (\<lambda>k. 0)\<rparr>"

text \<open>
  Modelled from the spec: what happens in a pair whose binding is ready. Clients create
  objects on the source and patch the status of objects on the sink, as the test's
  clients do; the syncer is the only writer of the objects of the sink and of the status
  on the source (section 5: no component other than its owning syncer writes the objects
  it mirrors); and the two directions of the syncer take turns in any order. A call of a
  client that the API server refuses changes nothing.
\<close>

datatype pairEvent =
    Created string string "(string \<times> string) list" string
  | StatusPatched objectKey string
  | Turn direction

fun occur :: "world \<Rightarrow> pairEvent \<Rightarrow> world" where
  "occur w (Created ns n ls intent) =
     (case createInSource (newCowboy ns n ls intent) w of
        Inl err \<Rightarrow> w
      | Inr (created, w') \<Rightarrow> w')"
| "occur w (StatusPatched k result) =
     (case patchStatusInSink k result w of
        Inl err \<Rightarrow> w
      | Inr (updated, w') \<Rightarrow> w')"
| "occur w (Turn d) = turn w d"

text \<open>
  Modelled from the spec: a bound, ready pair in any state it can be in: started by the
  framework and then gone through any events.
\<close>

definition pairAfter :: "pairEvent list \<Rightarrow> world" where
  "pairAfter events = foldl occur freshWorld events"

text \<open>
  Modelled from the spec: the bounded timeout, counted in turns. The work the syncer has
  before it is its undelivered events, where an event of the sink may cost a write to
  the source and the event that write delivers, and an event of a source object not yet
  on the sink may cost a write to the sink and what follows from that. Within twice that
  many turns and one more, taken by the two directions alternately with any other turns
  in between, the syncer has nothing left to do.
\<close>

definition unmirrored :: "world \<Rightarrow> watch_Event \<Rightarrow> bool" where
  "unmirrored w event =
     (case changed event of
        None \<Rightarrow> False
      | Some obj \<Rightarrow> objects (sink w) (cowboyKey obj) = None)"

definition pendingWork :: "world \<Rightarrow> nat" where
  "pendingWork w =
     length (syncerWatcher (source w)) + 2 * length (syncerWatcher (sink w)) +
     3 * length (filter (unmirrored w) (syncerWatcher (source w)))"

definition boundedTimeout :: "world \<Rightarrow> nat" where
  "boundedTimeout w = 2 * pendingWork w + 1"

fun otherDirection :: "direction \<Rightarrow> direction" where
  "otherDirection SpecDirection = StatusDirection"
| "otherDirection StatusDirection = SpecDirection"

fun inTurn :: "direction \<Rightarrow> nat \<Rightarrow> direction list" where
  "inTurn d 0 = []"
| "inTurn d (Suc n) = d # inTurn (otherDirection d) n"

text \<open>
  The status that the status direction leaves on the source object \<open>k\<close> when it has
  gone through the events \<open>events\<close> of the sink, starting from the status \<open>st\<close>: an event
  of another object, and the echo of the syncer's own write (the marker \<open>m\<close>), leave it
  as it is.
\<close>

fun replayStatus :: "nat option \<Rightarrow> objectKey \<Rightarrow> string \<Rightarrow> watch_Event list \<Rightarrow> string" where
  "replayStatus m k st [] = st"
| "replayStatus m k st (event # events) =
     replayStatus m k
       (case changed event of
          None \<Rightarrow> st
        | Some obj \<Rightarrow>
            if cowboyKey obj = k \<and> m \<noteq> Some (ResourceVersion obj) then Status_Result obj
            else st)
       events"

text \<open>
  What holds of a pair in every state it can be in. Objects are stored under their own
  key. An object of the sink mirrors an object of the source: it has its spec, it was
  written by the syncer once, and its status is what the status direction will have
  left on the source object when it has gone through the events of the sink. A source
  object that has no mirror yet has no status, and an event of it is waiting for the
  spec direction. The events waiting are events of objects that exist, with the spec the
  object has; and the markers are resource versions already given out.
\<close>

definition keyed :: "apiCluster \<Rightarrow> bool" where
  "keyed c = (\<forall>k obj. objects c k = Some obj \<longrightarrow> cowboyKey obj = k)"

definition mirrored :: "world \<Rightarrow> bool" where
  "mirrored w =
     (\<forall>k so. objects (sink w) k = Some so \<longrightarrow>
        sinkWrites w k = 1 \<and>
        (\<exists>sr. objects (source w) k = Some sr \<and> Spec_Intent so = Spec_Intent sr \<and>
              replayStatus (wroteToSink w k) k (Status_Result sr) (syncerWatcher (sink w)) =
                Status_Result so))"

definition awaited :: "world \<Rightarrow> bool" where
  "awaited w =
     (\<forall>k. objects (sink w) k = None \<longrightarrow>
        wroteToSource w k = None \<and> sinkWrites w k = 0 \<and>
        (\<forall>sr. objects (source w) k = Some sr \<longrightarrow>
           Status_Result sr = [] \<and>
           (\<exists>event \<in> set (syncerWatcher (source w)).
              \<exists>obj. changed event = Some obj \<and> cowboyKey obj = k)))"

definition sinkEventsKnown :: "world \<Rightarrow> bool" where
  "sinkEventsKnown w =
     (\<forall>event \<in> set (syncerWatcher (sink w)).
        \<forall>obj. changed event = Some obj \<longrightarrow> objects (sink w) (cowboyKey obj) \<noteq> None)"

definition sourceEventsKnown :: "world \<Rightarrow> bool" where
  "sourceEventsKnown w =
     (\<forall>event \<in> set (syncerWatcher (source w)).
        \<forall>obj. changed event = Some obj \<longrightarrow>
          (\<exists>sr. objects (source w) (cowboyKey obj) = Some sr \<and>
                Spec_Intent obj = Spec_Intent sr))"

definition markersBehind :: "world \<Rightarrow> bool" where
  "markersBehind w =
     (\<forall>k r. wroteToSink w k = Some r \<longrightarrow> r \<le> lastResourceVersion (sink w))"

definition coherent :: "world \<Rightarrow> bool" where
  "coherent w =
     (binding w = PhaseReady \<and> keyed (source w) \<and> keyed (sink w) \<and> mirrored w \<and>
      awaited w \<and> sinkEventsKnown w \<and> sourceEventsKnown w \<and> markersBehind w)"


section \<open>Properties of the hooks\<close>

lemma postStartHooks_applyCall:
  "postStartHooks (applyCall s c) = postStartHooks s @ postStartRequested [c]"
  by (cases c) (simp_all add: AddPostStartHook_def AddPreShutdownHook_def)

lemma preShutdownHooks_applyCall:
  "preShutdownHooks (applyCall s c) = preShutdownHooks s @ preShutdownRequested [c]"
  by (cases c) (simp_all add: AddPostStartHook_def AddPreShutdownHook_def)

lemma postStartRequested_append:
  "postStartRequested (cs @ ds) = postStartRequested cs @ postStartRequested ds"
  by (induction cs rule: postStartRequested.induct) simp_all

lemma preShutdownRequested_append:
  "preShutdownRequested (cs @ ds) = preShutdownRequested cs @ preShutdownRequested ds"
  by (induction cs rule: preShutdownRequested.induct) simp_all

lemma postStartHooks_foldl:
  "postStartHooks (foldl applyCall s cs) = postStartHooks s @ postStartRequested cs"
proof (induction cs arbitrary: s)
  case Nil
  then show ?case by simp
next
  case (Cons c cs)
  have "postStartRequested (c # cs) = postStartRequested [c] @ postStartRequested cs"
    using postStartRequested_append [of "[c]" cs] by simp
  with Cons show ?case
    by (simp add: postStartHooks_applyCall del: postStartRequested.simps)
qed

lemma preShutdownHooks_foldl:
  "preShutdownHooks (foldl applyCall s cs) = preShutdownHooks s @ preShutdownRequested cs"
proof (induction cs arbitrary: s)
  case Nil
  then show ?case by simp
next
  case (Cons c cs)
  have "preShutdownRequested (c # cs) = preShutdownRequested [c] @ preShutdownRequested cs"
    using preShutdownRequested_append [of "[c]" cs] by simp
  with Cons show ?case
    by (simp add: preShutdownHooks_applyCall del: preShutdownRequested.simps)
qed

lemma cfg_foldl_applyCall: "cfg (foldl applyCall s cs) = cfg s"
proof (induction cs arbitrary: s)
  case Nil
  then show ?case by simp
next
  case (Cons c cs)
  then show ?case
    by (cases c) (simp_all add: AddPostStartHook_def AddPreShutdownHook_def)
qed

text \<open>
  C9. A server made by \<open>NewServer\<close> has the entry \<open>start-namespace-controller\<close> as its
  first post-start hook. Whatever calls of \<open>AddPostStartHook\<close> and
  \<open>AddPreShutdownHook\<close> follow, in whatever order and with whatever names (empty or
  repeated ones too), every call adds its entry at the end of its list: the post-start
  hooks are the namespace controller's entry and then the requested entries in call
  order, the pre-shutdown hooks are the requested entries in call order, and the
  configuration is untouched. No call is refused: the methods have no error result.
\<close>

theorem C9_hooks_appended_in_order:
  "postStartHooks (foldl applyCall (NewServer c) calls) =
     \<lparr>name = ''start-namespace-controller'', hook = startNamespaceController\<rparr> #
       postStartRequested calls
   \<and> preShutdownHooks (foldl applyCall (NewServer c) calls) = preShutdownRequested calls
   \<and> length (postStartHooks (foldl applyCall (NewServer c) calls)) +
       length (preShutdownHooks (foldl applyCall (NewServer c) calls)) = Suc (length calls)
   \<and> cfg (foldl applyCall (NewServer c) calls) = c"
proof -
  have new: "postStartHooks (NewServer c) =
      [\<lparr>name = ''start-namespace-controller'', hook = startNamespaceController\<rparr>]"
    "preShutdownHooks (NewServer c) = []" "cfg (NewServer c) = c"
    by (simp_all add: NewServer_def Let_def)
  have len: "length (postStartRequested calls) + length (preShutdownRequested calls) =
      length calls"
    by (induction calls rule: postStartRequested.induct) simp_all
  show ?thesis
    using len by (simp add: postStartHooks_foldl preShutdownHooks_foldl cfg_foldl_applyCall new)
qed

section \<open>Properties of the handler chain\<close>

lemma layers_foldr_WithFilter:
  "layers (foldr WithFilter fs h) = map hit_filter fs @ layers h"
  by (induction fs) simp_all

lemma layers_DefaultBuildHandlerChain:
  "layers (DefaultBuildHandlerChain h c) = map hit_filter (DefaultFilters c) @ layers h"
  by (simp add: DefaultBuildHandlerChain_def layers_foldr_WithFilter)

lemma layers_BuildHandlerChainFunc:
  "layers (BuildHandlerChainFunc scfg l api c) =
     hit_lcluster # map hit_filter (DefaultFilters c) @
       (if EnableSharding scfg then [hit_shard_proxy] else []) @ layers api"
  by (simp add: BuildHandlerChainFunc_def Let_def layers_DefaultBuildHandlerChain)

lemma serve_prefix_layers: "prefix (serve b h r) (layers h)"
  by (induction h arbitrary: r) (auto split: option.splits)

lemma serve_delegating:
  "(\<And>k r. b k r \<noteq> None) \<Longrightarrow> serve b h r = layers h"
proof (induction h arbitrary: r)
  case (Terminal n)
  show ?case by simp
next
  case (sharding_ServeHTTP h l)
  obtain r' where "b hit_shard_proxy r = Some r'"
    using sharding_ServeHTTP.prems [of hit_shard_proxy r] by auto
  with sharding_ServeHTTP show ?case by simp
next
  case (ServeHTTP h c)
  obtain r' where "b hit_lcluster r = Some r'"
    using ServeHTTP.prems [of hit_lcluster r] by auto
  with ServeHTTP show ?case by simp
next
  case (WithFilter f h)
  obtain r' where "b (hit_filter f) r = Some r'"
    using WithFilter.prems [of "hit_filter f" r] by auto
  with WithFilter show ?case by simp
qed

lemma serve_nonempty: "serve b h r \<noteq> []"
  by (cases h) simp_all

lemma andThen_Inl: "snd m = Inl e \<Longrightarrow> andThen m f = (fst m, Inl e)"
  by (cases m) (simp add: andThen_def)

lemma andThen_Inr:
  "snd m = Inr x \<Longrightarrow> andThen m f = (fst m @ fst (f x), snd (f x))"
  by (cases m) (simp add: andThen_def split: prod.splits)

lemma announcements_append:
  "announcements (tr @ tr') = announcements tr @ announcements tr'"
  by (induction tr rule: announcements.induct) simp_all

lemma fst_andThen_cases:
  "fst (andThen m f) = (case snd m of Inl e \<Rightarrow> fst m | Inr x \<Rightarrow> fst m @ fst (f x))"
  by (cases m) (simp add: andThen_def split: sum.splits prod.splits)

lemma snd_andThen_cases:
  "snd (andThen m f) = (case snd m of Inl e \<Rightarrow> Inl e | Inr x \<Rightarrow> snd (f x))"
  by (cases m) (simp add: andThen_def split: sum.splits prod.splits)

section \<open>Properties of Run\<close>

lemma ann_andThen:
  "announcements (fst (andThen m f)) =
     announcements (fst m) @
       (case snd m of Inl e \<Rightarrow> [] | Inr x \<Rightarrow> announcements (fst (f x)))"
  by (cases m) (simp add: andThen_def announcements_append split: sum.splits prod.splits)

lemma ann_rootDirectory: "announcements (fst (Run_rootDirectory w c)) = []"
  by (simp add: Run_rootDirectory_def Let_def split: sum.splits option.splits)

lemma ann_etcd: "announcements (fst (Run_etcd w c d)) = []"
  by (simp add: Run_etcd_def Let_def ann_andThen split: sum.splits option.splits)

lemma ann_openEtcd: "announcements (fst (Run_openEtcd w c dir)) = []"
  by (simp add: Run_openEtcd_def Let_def ann_andThen ann_etcd
      split: sum.splits option.splits)

lemma ann_connected:
  "announcements (map (\<lambda>(i, n). Fprintf_Stderr_Connected i n) ms) = []"
  by (induction ms) (simp_all split: prod.splits)

lemma ann_memberList: "announcements (fst (Run_memberList w)) = []"
  by (simp add: Run_memberList_def ann_connected split: sum.splits)

lemma ann_listen: "announcements (fst (Run_listen w c so)) = []"
  by (simp add: Run_listen_def Let_def split: sum.splits prod.splits)

lemma ann_shardingNew: "announcements (fst (Run_shardingNew w c)) = []"
  by (simp add: Run_shardingNew_def split: sum.splits)

lemma ann_serverChain: "announcements (fst (Run_serverChain w c i d so l)) = []"
  by (simp add: Run_serverChain_def Let_def split: sum.splits)

lemma ann_startServer: "announcements (fst (Run_startServer w c d i)) = []"
  by (simp add: Run_startServer_def Let_def ann_andThen ann_memberList ann_listen
      ann_shardingNew ann_serverChain split: sum.splits)

lemma ann_addPostStartHooks: "announcements (fst (Run_addPostStartHooks w reg es)) = []"
  by (induction es arbitrary: reg) (simp_all add: ann_andThen split: option.splits)

lemma ann_addPreShutdownHooks: "announcements (fst (Run_addPreShutdownHooks w reg es)) = []"
  by (induction es arbitrary: reg) (simp_all add: ann_andThen split: option.splits)

lemma ann_clusterController: "announcements (fst (Run_clusterController w c sv reg)) = []"
  by (simp add: Run_clusterController_def Let_def split: sum.splits option.splits)

lemma ann_workspaceController: "announcements (fst (Run_workspaceController w c sv reg)) = []"
  by (simp add: Run_workspaceController_def Let_def split: sum.splits option.splits)

lemma ann_fromHooks: "announcements (fst (Run_fromHooks w s sv)) = []"
  by (simp add: Run_fromHooks_def ann_andThen ann_addPostStartHooks ann_addPreShutdownHooks
      ann_clusterController ann_workspaceController split: sum.splits)

lemma ann_writeKubeconfig: "announcements (fst (Run_writeKubeconfig w c sv)) = []"
  by (simp add: Run_writeKubeconfig_def Let_def split: option.splits)

lemma ann_announce:
  "announcements (fst (Run_announce w c sv)) =
     (if EnableSharding c then
        (case clientcmd_ClientConfig w (clientConfig w sv) ''admin'' of
           Inl err \<Rightarrow> []
         | Inr adminConfig \<Rightarrow> [\<lparr>Identifier = ExternalAddress sv, Config = adminConfig\<rparr>])
      else [])"
  by (simp add: Run_announce_def Let_def split: sum.splits option.splits)

lemma ann_fromKubeconfig:
  "announcements (fst (Run_fromKubeconfig w s sv)) = announcements (fst (Run_announce w (cfg s) sv))"
  by (simp add: Run_fromKubeconfig_def ann_andThen ann_writeKubeconfig ann_fromHooks
      split: sum.splits)

lemma fst_deferClose: "fst (Run_deferClose m) = fst m @ [call_Client_Close]"
  by (cases m) (simp add: Run_deferClose_def)

lemma snd_deferClose: "snd (Run_deferClose m) = snd m"
  by (cases m) (simp add: Run_deferClose_def)

lemma ann_Run:
  "announcements (fst (Run w s)) =
     (case Run_server w (cfg s) of
        None \<Rightarrow> []
      | Some sv \<Rightarrow> announcements (fst (Run_announce w (cfg s) sv)))"
  by (simp add: Run_def Run_fromEtcd_def Run_profiler_def Run_server_def ann_andThen
      ann_rootDirectory ann_openEtcd ann_startServer
      ann_fromKubeconfig fst_deferClose announcements_append
      split: sum.splits prod.splits)

lemma lex_andThen:
  "list_ex P (fst (andThen m f)) =
     (list_ex P (fst m) \<or> (case snd m of Inl e \<Rightarrow> False | Inr x \<Rightarrow> list_ex P (fst (f x))))"
  by (cases m) (simp add: andThen_def split: sum.splits prod.splits)

lemma snd_Run:
  "snd (Run w s) =
     (case snd (Run_rootDirectory w (cfg s)) of
        Inl e \<Rightarrow> Inl e
      | Inr dir \<Rightarrow> snd (Run_fromEtcd w s dir))"
  by (simp add: Run_def snd_andThen_cases)

lemma snd_fromEtcd:
  "snd (Run_fromEtcd w s dir) =
     (case snd (Run_openEtcd w (cfg s) dir) of
        Inl e \<Rightarrow> Inl e
      | Inr (d, i) \<Rightarrow>
          (case snd (Run_startServer w (cfg s) d i) of
             Inl e \<Rightarrow> Inl e
           | Inr sv \<Rightarrow> snd (Run_fromKubeconfig w s sv)))"
  by (simp add: Run_fromEtcd_def snd_andThen_cases snd_deferClose split: sum.splits prod.splits)

lemma nostart_rootDirectory: "\<not> list_ex startsAPIServer (fst (Run_rootDirectory w c))"
  by (simp add: Run_rootDirectory_def Let_def split: sum.splits option.splits)

lemma nostart_etcd: "\<not> list_ex startsAPIServer (fst (Run_etcd w c d))"
  by (simp add: Run_etcd_def Let_def lex_andThen split: sum.splits option.splits)

lemma nostart_openEtcd: "\<not> list_ex startsAPIServer (fst (Run_openEtcd w c dir))"
  by (simp add: Run_openEtcd_def Let_def lex_andThen nostart_etcd
      split: sum.splits option.splits)

lemma nostart_connected:
  "\<not> list_ex startsAPIServer (map (\<lambda>(i, n). Fprintf_Stderr_Connected i n) ms)"
  by (induction ms) (simp_all split: prod.splits)

lemma nostart_memberList: "\<not> list_ex startsAPIServer (fst (Run_memberList w))"
  by (simp add: Run_memberList_def nostart_connected split: sum.splits)

text \<open>The error with which the parse of the listen address fails.\<close>

lemma Run_listen_split_fails:
  "net_SplitHostPort w (Listen c) = Inl e \<Longrightarrow>
   Run_listen w c so =
     ([], Inl (fmt_Errorf ''--listen must be of format host:port: %w'' [] (Some e)))"
  by (simp add: Run_listen_def)

lemma Run_listen_port_fails:
  "net_SplitHostPort w (Listen c) = Inr (h, p) \<Longrightarrow> p \<noteq> [] \<Longrightarrow> strconv_Atoi w p = Inl e \<Longrightarrow>
   Run_listen w c so = ([], Inl e)"
  by (simp add: Run_listen_def Let_def)

lemma startServer_listen_fails:
  assumes "\<And>so. Run_listen w c so = ([], Inl e)"
  shows "\<not> list_ex startsAPIServer (fst (Run_startServer w c d i))"
    and "snd (Run_startServer w c d i) =
          (case Cluster_MemberList w of Inl e' \<Rightarrow> Inl e' | Inr ms \<Rightarrow> Inl e)"
  by (simp_all add: Run_startServer_def Let_def lex_andThen snd_andThen_cases assms
      nostart_memberList nostart_connected Run_memberList_def split: sum.splits)

lemma Run_listen_fails:
  assumes "\<And>so. Run_listen w (cfg s) so = ([], Inl e)"
  shows "\<not> list_ex startsAPIServer (fst (Run w s))"
    and "\<exists>err. snd (Run w s) = Inl err"
    and "snd (Run_rootDirectory w (cfg s)) = Inr dir \<Longrightarrow>
         snd (Run_openEtcd w (cfg s) dir) = Inr (d, i) \<Longrightarrow>
         Cluster_MemberList w = Inr ms \<Longrightarrow> snd (Run w s) = Inl e"
proof -
  note ss = startServer_listen_fails [of w "cfg s" e, OF assms]
  show "\<not> list_ex startsAPIServer (fst (Run w s))"
    by (simp add: Run_def Run_fromEtcd_def Run_profiler_def lex_andThen nostart_rootDirectory
        nostart_openEtcd fst_deferClose ss split: sum.splits prod.splits)
  show "\<exists>err. snd (Run w s) = Inl err"
    by (simp add: snd_Run snd_fromEtcd ss split: sum.splits prod.splits)
  show "snd (Run_rootDirectory w (cfg s)) = Inr dir \<Longrightarrow>
         snd (Run_openEtcd w (cfg s) dir) = Inr (d, i) \<Longrightarrow>
         Cluster_MemberList w = Inr ms \<Longrightarrow> snd (Run w s) = Inl e"
    by (simp add: snd_Run snd_fromEtcd ss)
qed

lemma Run_listen_empty_port:
  "net_SplitHostPort w (Listen c) = Inr (h, []) \<Longrightarrow>
   Run_listen w c so =
     ([], Inr (if h \<noteq> [] then so\<lparr>SecureServing_BindAddress := net_ParseIP w h\<rparr> else so))"
  by (simp add: Run_listen_def Let_def)

lemma atoi_rewriteClusters:
  "Run_rewriteClusters (w\<lparr>strconv_Atoi := atoi\<rparr>) sv cs = Run_rewriteClusters w sv cs"
  by (induction cs) (auto split: sum.splits)

lemma atoi_addPostStartHooks:
  "Run_addPostStartHooks (w\<lparr>strconv_Atoi := atoi\<rparr>) reg es = Run_addPostStartHooks w reg es"
  by (induction es arbitrary: reg) (simp_all split: option.splits)

lemma atoi_addPreShutdownHooks:
  "Run_addPreShutdownHooks (w\<lparr>strconv_Atoi := atoi\<rparr>) reg es = Run_addPreShutdownHooks w reg es"
  by (induction es arbitrary: reg) (simp_all split: option.splits)

lemma atoi_clientConfig: "clientConfig (w\<lparr>strconv_Atoi := atoi\<rparr>) sv = clientConfig w sv"
  by (simp add: clientConfig_def)

lemma atoi_shardConfig: "shardConfig (w\<lparr>strconv_Atoi := atoi\<rparr>) sv = shardConfig w sv"
  by (simp add: shardConfig_def)

lemma atoi_parts:
  "Run_rootDirectory (w\<lparr>strconv_Atoi := atoi\<rparr>) c = Run_rootDirectory w c"
  "Run_openEtcd (w\<lparr>strconv_Atoi := atoi\<rparr>) c dir = Run_openEtcd w c dir"
  "Run_memberList (w\<lparr>strconv_Atoi := atoi\<rparr>) = Run_memberList w"
  "Run_shardingNew (w\<lparr>strconv_Atoi := atoi\<rparr>) c = Run_shardingNew w c"
  "Run_serverChain (w\<lparr>strconv_Atoi := atoi\<rparr>) c i d so l = Run_serverChain w c i d so l"
  "Run_announce (w\<lparr>strconv_Atoi := atoi\<rparr>) c sv = Run_announce w c sv"
  "Run_writeKubeconfig (w\<lparr>strconv_Atoi := atoi\<rparr>) c sv = Run_writeKubeconfig w c sv"
  "Run_clusterController (w\<lparr>strconv_Atoi := atoi\<rparr>) c sv reg = Run_clusterController w c sv reg"
  "Run_workspaceController (w\<lparr>strconv_Atoi := atoi\<rparr>) c sv reg =
     Run_workspaceController w c sv reg"
  by (simp_all add: Run_rootDirectory_def Run_dir_def Run_openEtcd_def Run_etcd_def
      Run_memberList_def Run_shardingNew_def Run_serverChain_def Run_announce_def
      Run_writeKubeconfig_def Run_clusterController_def Run_workspaceController_def
      atoi_clientConfig atoi_shardConfig atoi_rewriteClusters Let_def andThen_def
      cong: sum.case_cong option.case_cong if_cong prod.case_cong)

lemma atoi_fromKubeconfig:
  "Run_fromKubeconfig (w\<lparr>strconv_Atoi := atoi\<rparr>) s sv = Run_fromKubeconfig w s sv"
  by (simp add: Run_fromKubeconfig_def Run_fromHooks_def atoi_parts atoi_addPostStartHooks
      atoi_addPreShutdownHooks)

lemma startServer_empty_port:
  assumes "net_SplitHostPort w (Listen c) = Inr (h, [])"
  shows "Run_startServer w c d i =
     andThen (Run_memberList w) (\<lambda>_.
       andThen (Run_shardingNew w c) (\<lambda>loader.
         Run_serverChain w c i d
           (if h \<noteq> []
            then (options_NewServerRunOptions w)
                   \<lparr>Options_Authentication := Authentication c,
                    SecureServing_BindAddress := net_ParseIP w h\<rparr>
            else (options_NewServerRunOptions w)\<lparr>Options_Authentication := Authentication c\<rparr>)
           loader))"
  by (simp add: Run_startServer_def Let_def Run_listen_empty_port [OF assms] andThen_def)

lemma atoi_startServer:
  assumes "net_SplitHostPort w (Listen c) = Inr (h, [])"
  shows "Run_startServer (w\<lparr>strconv_Atoi := atoi\<rparr>) c d i = Run_startServer w c d i"
proof -
  have "net_SplitHostPort (w\<lparr>strconv_Atoi := atoi\<rparr>) (Listen c) = Inr (h, [])"
    using assms by simp
  from startServer_empty_port [OF this] startServer_empty_port [OF assms]
  show ?thesis by (simp add: atoi_parts)
qed

lemma atoi_Run:
  assumes "net_SplitHostPort w (Listen (cfg s)) = Inr (h, [])"
  shows "Run (w\<lparr>strconv_Atoi := atoi\<rparr>) s = Run w s"
  by (simp add: Run_def Run_fromEtcd_def atoi_parts atoi_startServer [OF assms]
      atoi_fromKubeconfig)

lemma snd_Run_listen_fails:
  assumes "\<And>so. Run_listen w (cfg s) so = ([], Inl e)"
  shows "snd (Run w s) =
     (case snd (Run_rootDirectory w (cfg s)) of
        Inl e1 \<Rightarrow> Inl e1
      | Inr dir \<Rightarrow>
          (case snd (Run_openEtcd w (cfg s) dir) of
             Inl e2 \<Rightarrow> Inl e2
           | Inr di \<Rightarrow>
               (case Cluster_MemberList w of
                  Inl e3 \<Rightarrow> Inl e3
                | Inr ms \<Rightarrow> Inl e)))"
  by (simp add: snd_Run snd_fromEtcd startServer_listen_fails(2) [of w "cfg s" e, OF assms]
      split: sum.splits prod.splits)

lemmas Run_defs = Run_def Run_profiler_def Run_fromEtcd_def Run_openEtcd_def Run_startServer_def
  Run_fromKubeconfig_def Run_fromHooks_def
  Run_rootDirectory_def Run_dir_def Run_etcd_def Run_memberList_def Run_deferClose_def Run_listen_def
  Run_shardingNew_def Run_serverChain_def Run_announce_def Run_writeKubeconfig_def
  Run_clusterController_def Run_workspaceController_def andThen_def

lemmas sample_defs = sampleEnv_def sampleConfig_def sampleAPIServer_def
  sample_SplitHostPort_def sample_Atoi_def sample_ClientConfig_def sample_AddHook_def
  unix_IsAbs_def ENOENT_def NewServer_def clientConfig_def shardConfig_def mode_0755_def

text \<open>
  C8, as the code has it. When the listen address cannot be split into host and port, or
  its port is not empty and is not an integer, \<open>Run\<close> returns an error and the server
  chain is never created, prepared or run, whatever the rest of the world answers. The
  error is the one of the first step that fails: that of the root directory, of etcd and
  its client, or of the member list, if one of these fails; and otherwise the error of
  the parse, which for a failed split is \<^verbatim>\<open>--listen must be of format host:port\<close>
  wrapping the error of the split, and for a bad port the error of \<^verbatim>\<open>strconv.Atoi\<close>.
  An empty port is accepted (line 194): the parse of the address gives no error and
  leaves the bind port of the options as it was, so that \<open>Run\<close> goes on to the shard
  loader and the server chain with the default port, and \<^verbatim>\<open>strconv.Atoi\<close> is not
  consulted: \<open>Run\<close> does the same whatever that function answers.
\<close>

theorem C8_listen_rejected:
  "(net_SplitHostPort w (Listen (cfg s)) = Inl e \<or>
    (net_SplitHostPort w (Listen (cfg s)) = Inr (h, p) \<and> p \<noteq> [] \<and>
     strconv_Atoi w p = Inl e) \<longrightarrow>
      (\<exists>err. snd (Run w s) = Inl err)
      \<and> \<not> list_ex startsAPIServer (fst (Run w s))
      \<and> snd (Run w s) =
          (case snd (Run_rootDirectory w (cfg s)) of
             Inl e1 \<Rightarrow> Inl e1
           | Inr dir \<Rightarrow>
               (case snd (Run_openEtcd w (cfg s) dir) of
                  Inl e2 \<Rightarrow> Inl e2
                | Inr opened \<Rightarrow>
                    (case Cluster_MemberList w of
                       Inl e3 \<Rightarrow> Inl e3
                     | Inr members \<Rightarrow>
                         Inl (case net_SplitHostPort w (Listen (cfg s)) of
                                Inl e' \<Rightarrow>
                                  fmt_Errorf ''--listen must be of format host:port: %w'' []
                                    (Some e')
                              | Inr hp \<Rightarrow> e)))))
   \<and> (net_SplitHostPort w (Listen (cfg s)) = Inr (h, []) \<longrightarrow>
        Run_listen w (cfg s) so =
          ([], Inr (if h \<noteq> [] then so\<lparr>SecureServing_BindAddress := net_ParseIP w h\<rparr>
                    else so))
      \<and> SecureServing_BindPort
          (if h \<noteq> [] then so\<lparr>SecureServing_BindAddress := net_ParseIP w h\<rparr> else so) =
          SecureServing_BindPort so
      \<and> Run_startServer w (cfg s) d i =
          andThen (Run_memberList w) (\<lambda>_.
            andThen (Run_shardingNew w (cfg s)) (\<lambda>loader.
              Run_serverChain w (cfg s) i d
                (if h \<noteq> []
                 then (options_NewServerRunOptions w)
                        \<lparr>Options_Authentication := Authentication (cfg s),
                         SecureServing_BindAddress := net_ParseIP w h\<rparr>
                 else (options_NewServerRunOptions w)
                        \<lparr>Options_Authentication := Authentication (cfg s)\<rparr>)
                loader))
      \<and> Run (w\<lparr>strconv_Atoi := atoi\<rparr>) s = Run w s)"
proof (intro conjI impI)
  assume bad: "net_SplitHostPort w (Listen (cfg s)) = Inl e \<or>
    (net_SplitHostPort w (Listen (cfg s)) = Inr (h, p) \<and> p \<noteq> [] \<and> strconv_Atoi w p = Inl e)"
  define e' where
    "e' = (case net_SplitHostPort w (Listen (cfg s)) of
             Inl e' \<Rightarrow> fmt_Errorf ''--listen must be of format host:port: %w'' [] (Some e')
           | Inr hp \<Rightarrow> e)"
  have fails: "Run_listen w (cfg s) so = ([], Inl e')" for so
    using bad
  proof
    assume split: "net_SplitHostPort w (Listen (cfg s)) = Inl e"
    show ?thesis
      using Run_listen_split_fails [OF split] by (simp add: e'_def split)
  next
    assume "net_SplitHostPort w (Listen (cfg s)) = Inr (h, p) \<and> p \<noteq> [] \<and>
      strconv_Atoi w p = Inl e"
    then have port: "net_SplitHostPort w (Listen (cfg s)) = Inr (h, p)" "p \<noteq> []"
      "strconv_Atoi w p = Inl e" by simp_all
    show ?thesis
      using Run_listen_port_fails [OF port] by (simp add: e'_def port(1))
  qed
  show "\<exists>err. snd (Run w s) = Inl err"
    by (rule Run_listen_fails(2) [OF fails])
  show "\<not> list_ex startsAPIServer (fst (Run w s))"
    by (rule Run_listen_fails(1) [OF fails])
  show "snd (Run w s) =
          (case snd (Run_rootDirectory w (cfg s)) of
             Inl e1 \<Rightarrow> Inl e1
           | Inr dir \<Rightarrow>
               (case snd (Run_openEtcd w (cfg s) dir) of
                  Inl e2 \<Rightarrow> Inl e2
                | Inr opened \<Rightarrow>
                    (case Cluster_MemberList w of
                       Inl e3 \<Rightarrow> Inl e3
                     | Inr members \<Rightarrow>
                         Inl (case net_SplitHostPort w (Listen (cfg s)) of
                                Inl e' \<Rightarrow>
                                  fmt_Errorf ''--listen must be of format host:port: %w'' []
                                    (Some e')
                              | Inr hp \<Rightarrow> e))))"
    using snd_Run_listen_fails [OF fails] unfolding e'_def .
next
  assume empty: "net_SplitHostPort w (Listen (cfg s)) = Inr (h, [])"
  show "Run_listen w (cfg s) so =
          ([], Inr (if h \<noteq> [] then so\<lparr>SecureServing_BindAddress := net_ParseIP w h\<rparr>
                    else so))"
    by (rule Run_listen_empty_port [OF empty])
  show "SecureServing_BindPort
          (if h \<noteq> [] then so\<lparr>SecureServing_BindAddress := net_ParseIP w h\<rparr> else so) =
          SecureServing_BindPort so"
    by simp
  show "Run_startServer w (cfg s) d i =
          andThen (Run_memberList w) (\<lambda>_.
            andThen (Run_shardingNew w (cfg s)) (\<lambda>loader.
              Run_serverChain w (cfg s) i d
                (if h \<noteq> []
                 then (options_NewServerRunOptions w)
                        \<lparr>Options_Authentication := Authentication (cfg s),
                         SecureServing_BindAddress := net_ParseIP w h\<rparr>
                 else (options_NewServerRunOptions w)
                        \<lparr>Options_Authentication := Authentication (cfg s)\<rparr>)
                loader))"
    by (rule startServer_empty_port [OF empty])
  show "Run (w\<lparr>strconv_Atoi := atoi\<rparr>) s = Run w s"
    by (rule atoi_Run [OF empty])
qed

text \<open>
  The sample world with three listen addresses: \<^verbatim>\<open>localhost\<close>, which has no port;
  \<^verbatim>\<open>localhost:https\<close>, whose port is not an integer; and \<^verbatim>\<open>0.0.0.0:\<close>, whose
  port is empty.
\<close>

theorem C8_listen_rejected_witness:
  "net_SplitHostPort sampleEnv (Listen (cfg (NewServer noPortConfig))) =
     Inl (errors_New ''address localhost: missing port in address'')
   \<and> snd (Run sampleEnv (NewServer noPortConfig)) =
       Inl (fmt_Errorf ''--listen must be of format host:port: %w'' []
             (Some (errors_New ''address localhost: missing port in address'')))
   \<and> \<not> list_ex startsAPIServer (fst (Run sampleEnv (NewServer noPortConfig)))
   \<and> net_SplitHostPort sampleEnv (Listen (cfg (NewServer namedPortConfig))) =
       Inr (''localhost'', ''https'')
   \<and> strconv_Atoi sampleEnv ''https'' =
       Inl (errors_New (''strconv.Atoi: parsing '' @ [CHR 0x22] @ ''https'' @ [CHR 0x22] @
              '': invalid syntax''))
   \<and> snd (Run sampleEnv (NewServer namedPortConfig)) =
       Inl (errors_New (''strconv.Atoi: parsing '' @ [CHR 0x22] @ ''https'' @ [CHR 0x22] @
              '': invalid syntax''))
   \<and> \<not> list_ex startsAPIServer (fst (Run sampleEnv (NewServer namedPortConfig)))
   \<and> net_SplitHostPort sampleEnv (Listen (cfg (NewServer emptyPortConfig))) =
       Inr (''0.0.0.0'', [])
   \<and> Run_listen sampleEnv (cfg (NewServer emptyPortConfig))
         (options_NewServerRunOptions sampleEnv) =
       ([], Inr ((options_NewServerRunOptions sampleEnv)
                   \<lparr>SecureServing_BindAddress := ''0.0.0.0''\<rparr>))
   \<and> Run (sampleEnv\<lparr>strconv_Atoi := (\<lambda>p. Inr 0)\<rparr>) (NewServer emptyPortConfig) =
       Run sampleEnv (NewServer emptyPortConfig)"
proof -
  have reach: "snd (Run_rootDirectory sampleEnv (cfg (NewServer c))) = Inr ''/var/kcp''"
    "snd (Run_openEtcd sampleEnv (cfg (NewServer c)) ''/var/kcp'') =
       Inr (''/var/kcp/etcd'', \<lparr>Endpoints = [''localhost:2379''], CertFile = [], KeyFile = [],
             TrustedCAFile = [], TLS = None\<rparr>)"
    "Cluster_MemberList sampleEnv = Inr [(1, ''default'')]"
    if "c = noPortConfig \<or> c = namedPortConfig" for c
    using that
    by (auto simp: Run_defs sample_defs noPortConfig_def namedPortConfig_def Let_def)
  have split1: "net_SplitHostPort sampleEnv (Listen (cfg (NewServer noPortConfig))) =
     Inl (errors_New ''address localhost: missing port in address'')"
    by (simp add: sample_defs noPortConfig_def)
  have split2: "net_SplitHostPort sampleEnv (Listen (cfg (NewServer namedPortConfig))) =
       Inr (''localhost'', ''https'')"
    by (simp add: sample_defs namedPortConfig_def)
  have atoi2: "strconv_Atoi sampleEnv ''https'' =
       Inl (errors_New (''strconv.Atoi: parsing '' @ [CHR 0x22] @ ''https'' @ [CHR 0x22] @
              '': invalid syntax''))"
    by (simp add: sample_defs)
  have split3: "net_SplitHostPort sampleEnv (Listen (cfg (NewServer emptyPortConfig))) =
       Inr (''0.0.0.0'', [])"
    by (simp add: sample_defs emptyPortConfig_def)
  have ip: "net_ParseIP sampleEnv ''0.0.0.0'' = ''0.0.0.0''"
    by (simp add: sample_defs)
  have r1: "snd (Run sampleEnv (NewServer noPortConfig)) =
       Inl (fmt_Errorf ''--listen must be of format host:port: %w'' []
             (Some (errors_New ''address localhost: missing port in address'')))"
    "\<not> list_ex startsAPIServer (fst (Run sampleEnv (NewServer noPortConfig)))"
    using C8_listen_rejected [of sampleEnv "NewServer noPortConfig"
      "errors_New ''address localhost: missing port in address''" "[]" "[]"] split1
      reach [of noPortConfig]
    by simp_all
  have r2: "snd (Run sampleEnv (NewServer namedPortConfig)) =
       Inl (errors_New (''strconv.Atoi: parsing '' @ [CHR 0x22] @ ''https'' @ [CHR 0x22] @
              '': invalid syntax''))"
    "\<not> list_ex startsAPIServer (fst (Run sampleEnv (NewServer namedPortConfig)))"
    using C8_listen_rejected [of sampleEnv "NewServer namedPortConfig"
      "errors_New (''strconv.Atoi: parsing '' @ [CHR 0x22] @ ''https'' @ [CHR 0x22] @
              '': invalid syntax'')" "''localhost''" "''https''"] split2 atoi2
      reach [of namedPortConfig]
    by simp_all
  have r3: "Run_listen sampleEnv (cfg (NewServer emptyPortConfig))
         (options_NewServerRunOptions sampleEnv) =
       ([], Inr ((options_NewServerRunOptions sampleEnv)
                   \<lparr>SecureServing_BindAddress := ''0.0.0.0''\<rparr>))"
    "Run (sampleEnv\<lparr>strconv_Atoi := (\<lambda>p. Inr 0)\<rparr>) (NewServer emptyPortConfig) =
       Run sampleEnv (NewServer emptyPortConfig)"
    using C8_listen_rejected [of sampleEnv "NewServer emptyPortConfig" _ "''0.0.0.0''" _
      "options_NewServerRunOptions sampleEnv" _ _ "\<lambda>p. Inr 0"] split3 ip
    by simp_all
  from split1 r1 split2 atoi2 r2 split3 r3 show ?thesis by blast
qed

text \<open>
  C8 as stated fails on an empty port: \<^verbatim>\<open>0.0.0.0:\<close> splits into the host and the
  empty port, which is not an integer (\<^verbatim>\<open>strconv.Atoi\<close> rejects it), but line 194
  skips the conversion, and \<open>Run\<close> goes on to start the API server and returns
  \<^verbatim>\<open>nil\<close>. And the error of an address that cannot be split is not always the one
  that wraps the message of line 188: when etcd does not give its members (line 174),
  \<open>Run\<close> returns that error and never looks at the address.
\<close>

theorem C8_listen_counterexample:
  "net_SplitHostPort sampleEnv (Listen (cfg (NewServer emptyPortConfig))) = Inr (''0.0.0.0'', [])
   \<and> strconv_Atoi sampleEnv [] =
       Inl (errors_New (''strconv.Atoi: parsing '' @ [CHR 0x22] @ [CHR 0x22] @
              '': invalid syntax''))
   \<and> snd (Run sampleEnv (NewServer emptyPortConfig)) = Inr ()
   \<and> list_ex startsAPIServer (fst (Run sampleEnv (NewServer emptyPortConfig)))
   \<and> net_SplitHostPort env_membersUnavailable (Listen (cfg (NewServer noPortConfig))) =
       Inl (errors_New ''address localhost: missing port in address'')
   \<and> snd (Run env_membersUnavailable (NewServer noPortConfig)) =
       Inl (errors_New ''context deadline exceeded'')"
  by (simp add: Run_defs sample_defs emptyPortConfig_def noPortConfig_def
      env_membersUnavailable_def Let_def)

lemma snd_fromKubeconfig_Inr:
  "snd (Run_fromKubeconfig w s sv) = Inr () \<Longrightarrow> \<exists>u. snd (Run_announce w (cfg s) sv) = Inr u"
  by (simp add: Run_fromKubeconfig_def snd_andThen_cases split: sum.splits)

lemma Run_nil_server:
  assumes "snd (Run w s) = Inr ()"
  shows "\<exists>sv. Run_server w (cfg s) = Some sv \<and> snd (Run_announce w (cfg s) sv) = Inr ()"
proof -
  from assms obtain dir where dir: "snd (Run_rootDirectory w (cfg s)) = Inr dir"
    and r1: "snd (Run_fromEtcd w s dir) = Inr ()"
    by (auto simp: snd_Run split: sum.splits)
  from r1 obtain d i where di: "snd (Run_openEtcd w (cfg s) dir) = Inr (d, i)"
    and r2: "(case snd (Run_startServer w (cfg s) d i) of
             Inl e \<Rightarrow> Inl e
           | Inr sv \<Rightarrow> snd (Run_fromKubeconfig w s sv)) = Inr ()"
    by (auto simp: snd_fromEtcd split: sum.splits prod.splits)
  from r2 obtain sv where sv: "snd (Run_startServer w (cfg s) d i) = Inr sv"
    and r3: "snd (Run_fromKubeconfig w s sv) = Inr ()"
    by (auto split: sum.splits)
  have "Run_server w (cfg s) = Some sv"
    by (simp add: Run_server_def dir di sv)
  moreover from snd_fromKubeconfig_Inr [OF r3] have "snd (Run_announce w (cfg s) sv) = Inr ()"
    by auto
  ultimately show ?thesis by blast
qed

lemma announce_Inr_admin:
  "snd (Run_announce w c sv) = Inr u \<Longrightarrow> EnableSharding c \<Longrightarrow>
   \<exists>ac. clientcmd_ClientConfig w (clientConfig w sv) ''admin'' = Inr ac"
  by (simp add: Run_announce_def Let_def split: sum.splits option.splits)

text \<open>
  C5, as the code has it. \<open>Run\<close> sends on the injector channel at most once. It sends
  exactly when sharding is enabled, the start of \<open>Run\<close> got as far as creating the
  server chain, and the admin context of the kubeconfig resolved to a client
  configuration; the announcement then carries the external address of the server and
  that client configuration. In particular a run with sharding enabled that returns
  \<^verbatim>\<open>nil\<close> has sent exactly one announcement, and a run with sharding disabled has
  sent none. The admin context is the cluster at the loopback host with the loopback
  certificate authority and server name, and the user with the loopback bearer token.
\<close>
theorem C5_announcements:
  "announcements (fst (Run w s)) =
     (if EnableSharding (cfg s) then
        (case Run_server w (cfg s) of
           None \<Rightarrow> []
         | Some server \<Rightarrow>
             (case clientcmd_ClientConfig w (clientConfig w server) ''admin'' of
                Inl err \<Rightarrow> []
              | Inr adminConfig \<Rightarrow>
                  [\<lparr>Identifier = ExternalAddress server, Config = adminConfig\<rparr>]))
      else [])
   \<and> length (announcements (fst (Run w s))) \<le> 1
   \<and> (EnableSharding (cfg s) \<and> snd (Run w s) = Inr () \<longrightarrow>
        length (announcements (fst (Run w s))) = 1)
   \<and> map_of (Contexts (clientConfig w server)) ''admin'' =
        Some \<lparr>Cluster = ''admin'', AuthInfo = ''loopback''\<rparr>
   \<and> map_of (Clusters (clientConfig w server)) ''admin'' =
        Some \<lparr>Server = Host (LoopbackClientConfig server),
              CertificateAuthorityData = CAData (LoopbackClientConfig server),
              TLSServerName = TLSClientConfig_ServerName (LoopbackClientConfig server)\<rparr>
   \<and> map_of (AuthInfos (clientConfig w server)) ''loopback'' =
        Some \<lparr>Token = BearerToken (LoopbackClientConfig server)\<rparr>"
proof -
  have eq: "announcements (fst (Run w s)) =
     (if EnableSharding (cfg s) then
        (case Run_server w (cfg s) of
           None \<Rightarrow> []
         | Some server \<Rightarrow>
             (case clientcmd_ClientConfig w (clientConfig w server) ''admin'' of
                Inl err \<Rightarrow> []
              | Inr adminConfig \<Rightarrow>
                  [\<lparr>Identifier = ExternalAddress server, Config = adminConfig\<rparr>]))
      else [])"
    by (simp add: ann_Run ann_announce split: option.splits)
  have le: "length (announcements (fst (Run w s))) \<le> 1"
    by (simp add: eq split: option.splits sum.splits)
  have one: "length (announcements (fst (Run w s))) = 1"
    if "EnableSharding (cfg s)" "snd (Run w s) = Inr ()"
  proof -
    from Run_nil_server [OF that(2)] obtain sv where
      sv: "Run_server w (cfg s) = Some sv" "snd (Run_announce w (cfg s) sv) = Inr ()"
      by blast
    from announce_Inr_admin [OF sv(2) that(1)] obtain ac where
      "clientcmd_ClientConfig w (clientConfig w sv) ''admin'' = Inr ac" by blast
    with sv(1) that(1) show ?thesis by (simp add: eq)
  qed
  have admin: "map_of (Contexts (clientConfig w server)) ''admin'' =
        Some \<lparr>Cluster = ''admin'', AuthInfo = ''loopback''\<rparr>"
    "map_of (Clusters (clientConfig w server)) ''admin'' =
        Some \<lparr>Server = Host (LoopbackClientConfig server),
              CertificateAuthorityData = CAData (LoopbackClientConfig server),
              TLSServerName = TLSClientConfig_ServerName (LoopbackClientConfig server)\<rparr>"
    "map_of (AuthInfos (clientConfig w server)) ''loopback'' =
        Some \<lparr>Token = BearerToken (LoopbackClientConfig server)\<rparr>"
    by (simp_all add: clientConfig_def)
  from eq le one admin show ?thesis by blast
qed

text \<open>A run of the sample world with sharding enabled.\<close>
theorem C5_announcements_witness:
  "EnableSharding (cfg (NewServer shardedConfig))
   \<and> snd (Run sampleEnv (NewServer shardedConfig)) = Inr ()
   \<and> length (announcements (fst (Run sampleEnv (NewServer shardedConfig)))) = 1
   \<and> announcements (fst (Run sampleEnv (NewServer shardedConfig))) =
       [\<lparr>Identifier = ''192.168.0.2:6443'',
         Config = \<lparr>Host = ''https://localhost:6443'', BearerToken = ''loopback-token'',
                   CAData = ''ca-data'',
                   TLSClientConfig_ServerName = ''apiserver-loopback-client''\<rparr>\<rparr>]"
proof -
  have a: "EnableSharding (cfg (NewServer shardedConfig))"
    by (simp add: sample_defs shardedConfig_def)
  have b: "snd (Run sampleEnv (NewServer shardedConfig)) = Inr ()"
    by (simp add: Run_defs sample_defs shardedConfig_def Let_def)
  have c: "announcements (fst (Run sampleEnv (NewServer shardedConfig))) =
       [\<lparr>Identifier = ''192.168.0.2:6443'',
         Config = \<lparr>Host = ''https://localhost:6443'', BearerToken = ''loopback-token'',
                   CAData = ''ca-data'',
                   TLSClientConfig_ServerName = ''apiserver-loopback-client''\<rparr>\<rparr>]"
    by (simp add: Run_defs sample_defs shardedConfig_def Let_def)
  have "EnableSharding (cfg (NewServer shardedConfig)) \<and>
        snd (Run sampleEnv (NewServer shardedConfig)) = Inr () \<longrightarrow>
        length (announcements (fst (Run sampleEnv (NewServer shardedConfig)))) = 1"
    using C5_announcements [of sampleEnv "NewServer shardedConfig" sampleAPIServer] by blast
  with a b have "length (announcements (fst (Run sampleEnv (NewServer shardedConfig)))) = 1"
    by blast
  with a b c show ?thesis by blast
qed

text \<open>
  C5 as stated fails when \<open>Run\<close> returns before line 275: with sharding enabled and
  the listen address \<^verbatim>\<open>localhost\<close>, \<open>Run\<close> returns the error of the parse and
  nothing was sent on the injector channel.
\<close>
theorem C5_early_return_counterexample:
  "EnableSharding (cfg (NewServer badListenShardedConfig))
   \<and> announcements (fst (Run sampleEnv (NewServer badListenShardedConfig))) = []
   \<and> snd (Run sampleEnv (NewServer badListenShardedConfig)) =
       Inl (fmt_Errorf ''--listen must be of format host:port: %w'' []
             (Some (errors_New ''address localhost: missing port in address'')))"
  by (simp add: Run_defs sample_defs badListenShardedConfig_def shardedConfig_def Let_def)

lemma set_andThen:
  "set (fst (andThen m f)) =
     set (fst m) \<union> (case snd m of Inl e \<Rightarrow> {} | Inr x \<Rightarrow> set (fst (f x)))"
  by (cases m) (simp add: andThen_def split: sum.splits prod.splits)

lemma notouch_profiler: "\<not> list_ex touchesEtcd (Run_profiler c)"
  by (simp add: Run_profiler_def)

lemma Run_root_is_file:
  assumes "Run_dir w (cfg s) \<noteq> []" "os_Stat w (Run_dir w (cfg s)) = Inr fi" "\<not> IsDir fi"
  shows "Run w s =
     (Run_profiler (cfg s),
      Inl (fmt_Errorf ''%q is a file, please delete or select another location''
             [Run_dir w (cfg s)] None))"
  using assms by (simp add: Run_def Run_rootDirectory_def andThen_def Let_def)

lemma Run_root_missing:
  assumes "Run_dir w (cfg s) \<noteq> []" "os_Stat w (Run_dir w (cfg s)) = Inl e" "os_IsNotExist w e"
  shows "fst (Run w s) =
           Run_profiler (cfg s) @ call_os_MkdirAll (Run_dir w (cfg s)) mode_0755 #
             (case os_MkdirAll w (Run_dir w (cfg s)) mode_0755 of
                Some err \<Rightarrow> []
              | None \<Rightarrow> fst (Run_fromEtcd w s (Run_dir w (cfg s))))"
    and "snd (Run w s) =
           (case os_MkdirAll w (Run_dir w (cfg s)) mode_0755 of
              Some err \<Rightarrow> Inl err
            | None \<Rightarrow> snd (Run_fromEtcd w s (Run_dir w (cfg s))))"
  using assms
  by (simp_all add: Run_def Run_rootDirectory_def andThen_def Let_def
      split: option.splits prod.splits)

text \<open>
  C10, as the code has it. The directory \<open>Run_dir\<close> is the root directory if that is
  absolute, and its join with \<^verbatim>\<open>.\<close> otherwise; the source looks at it when its
  name is not empty (line 113), as the name of an absolute path and of a join with
  \<^verbatim>\<open>.\<close> is. When it exists and is not a
  directory, \<open>Run\<close> returns the error that names it as a file, having done nothing but
  start the profiler if one is configured: no etcd server, client or member list. When
  it does not exist, the first thing \<open>Run\<close> does after the profiler is
  \<^verbatim>\<open>os.MkdirAll\<close> of it with mode 0755; if that succeeds \<open>Run\<close> goes on with etcd
  (line 128) in that directory, and if it fails \<open>Run\<close> returns its error.
\<close>
theorem C10_root_directory:
  assumes "Run_dir w (cfg s) \<noteq> []"
  shows "(\<forall>fi. os_Stat w (Run_dir w (cfg s)) = Inr fi \<and> \<not> IsDir fi \<longrightarrow>
            Run w s =
              (Run_profiler (cfg s),
               Inl (fmt_Errorf ''%q is a file, please delete or select another location''
                      [Run_dir w (cfg s)] None))
            \<and> \<not> list_ex touchesEtcd (fst (Run w s)))
       \<and> (\<forall>e. os_Stat w (Run_dir w (cfg s)) = Inl e \<and> os_IsNotExist w e \<longrightarrow>
            fst (Run w s) =
              Run_profiler (cfg s) @ call_os_MkdirAll (Run_dir w (cfg s)) mode_0755 #
                (case os_MkdirAll w (Run_dir w (cfg s)) mode_0755 of
                   Some err \<Rightarrow> []
                 | None \<Rightarrow> fst (Run_fromEtcd w s (Run_dir w (cfg s))))
            \<and> snd (Run w s) =
              (case os_MkdirAll w (Run_dir w (cfg s)) mode_0755 of
                 Some err \<Rightarrow> Inl err
               | None \<Rightarrow> snd (Run_fromEtcd w s (Run_dir w (cfg s)))))
       \<and> mode_0755 = 493"
proof (intro conjI allI impI)
  fix fi
  assume h: "os_Stat w (Run_dir w (cfg s)) = Inr fi \<and> \<not> IsDir fi"
  then show isfile: "Run w s =
              (Run_profiler (cfg s),
               Inl (fmt_Errorf ''%q is a file, please delete or select another location''
                      [Run_dir w (cfg s)] None))"
    using Run_root_is_file [OF assms] by blast
  show "\<not> list_ex touchesEtcd (fst (Run w s))"
    by (simp add: isfile notouch_profiler)
next
  fix e
  assume h: "os_Stat w (Run_dir w (cfg s)) = Inl e \<and> os_IsNotExist w e"
  then show "fst (Run w s) =
              Run_profiler (cfg s) @ call_os_MkdirAll (Run_dir w (cfg s)) mode_0755 #
                (case os_MkdirAll w (Run_dir w (cfg s)) mode_0755 of
                   Some err \<Rightarrow> []
                 | None \<Rightarrow> fst (Run_fromEtcd w s (Run_dir w (cfg s))))"
    using Run_root_missing(1) [OF assms] by blast
  from h show "snd (Run w s) =
              (case os_MkdirAll w (Run_dir w (cfg s)) mode_0755 of
                 Some err \<Rightarrow> Inl err
               | None \<Rightarrow> snd (Run_fromEtcd w s (Run_dir w (cfg s))))"
    using Run_root_missing(2) [OF assms] by blast
next
  show "mode_0755 = 493" by (simp add: mode_0755_def)
qed

text \<open>The sample world with the root directory a file, and with no root directory.\<close>
theorem C10_root_directory_witness:
  "Run_dir env_rootIsFile (cfg (NewServer sampleConfig)) = ''/var/kcp''
   \<and> os_Stat env_rootIsFile ''/var/kcp'' = Inr \<lparr>IsDir = False\<rparr>
   \<and> Run env_rootIsFile (NewServer sampleConfig) =
       ([], Inl (fmt_Errorf ''%q is a file, please delete or select another location''
                  [''/var/kcp''] None))
   \<and> Run_dir env_rootMissing (cfg (NewServer sampleConfig)) = ''/var/kcp''
   \<and> os_Stat env_rootMissing ''/var/kcp'' = Inl ENOENT
   \<and> os_IsNotExist env_rootMissing ENOENT
   \<and> os_MkdirAll env_rootMissing ''/var/kcp'' mode_0755 = None
   \<and> fst (Run env_rootMissing (NewServer sampleConfig)) =
       call_os_MkdirAll ''/var/kcp'' 493 #
         fst (Run_fromEtcd env_rootMissing (NewServer sampleConfig) ''/var/kcp'')
   \<and> snd (Run env_rootMissing (NewServer sampleConfig)) = Inr ()"
proof -
  have d1: "Run_dir env_rootIsFile (cfg (NewServer sampleConfig)) = ''/var/kcp''"
    and s1: "os_Stat env_rootIsFile ''/var/kcp'' = Inr \<lparr>IsDir = False\<rparr>"
    and p1: "Run_profiler (cfg (NewServer sampleConfig)) = []"
    by (simp_all add: Run_dir_def Run_profiler_def sample_defs env_rootIsFile_def env_rootMissing_def)
  have d2: "Run_dir env_rootMissing (cfg (NewServer sampleConfig)) = ''/var/kcp''"
    and s2: "os_Stat env_rootMissing ''/var/kcp'' = Inl ENOENT"
    and n2: "os_IsNotExist env_rootMissing ENOENT"
    and m2: "os_MkdirAll env_rootMissing ''/var/kcp'' mode_0755 = None"
    by (simp_all add: Run_dir_def sample_defs env_rootIsFile_def env_rootMissing_def)
  have r2: "snd (Run env_rootMissing (NewServer sampleConfig)) = Inr ()"
    by (simp add: Run_defs sample_defs env_rootIsFile_def env_rootMissing_def Let_def)
  have f: "Run env_rootIsFile (NewServer sampleConfig) =
       ([], Inl (fmt_Errorf ''%q is a file, please delete or select another location''
                  [''/var/kcp''] None))"
    using C10_root_directory [of env_rootIsFile "NewServer sampleConfig"] d1 s1 p1
    by simp
  have g: "fst (Run env_rootMissing (NewServer sampleConfig)) =
       call_os_MkdirAll ''/var/kcp'' 493 #
         fst (Run_fromEtcd env_rootMissing (NewServer sampleConfig) ''/var/kcp'')"
    using C10_root_directory [of env_rootMissing "NewServer sampleConfig"] d2 s2 n2 m2 p1
    by simp
  from d1 s1 f d2 s2 n2 m2 g r2 show ?thesis by blast
qed

text \<open>
  C10 as stated fails when the directory cannot be created: the path does not exist,
  \<^verbatim>\<open>os.MkdirAll\<close> is refused, and \<open>Run\<close> returns that error and does not go on.
\<close>
theorem C10_mkdir_fails_counterexample:
  "os_Stat env_rootNotCreatable (Run_dir env_rootNotCreatable (cfg (NewServer sampleConfig))) =
     Inl ENOENT
   \<and> os_IsNotExist env_rootNotCreatable ENOENT
   \<and> Run env_rootNotCreatable (NewServer sampleConfig) =
       ([call_os_MkdirAll ''/var/kcp'' 493], Inl (errors_New ''permission denied''))
   \<and> \<not> list_ex touchesEtcd (fst (Run env_rootNotCreatable (NewServer sampleConfig)))"
  by (simp add: Run_defs sample_defs env_rootNotCreatable_def env_rootMissing_def Let_def)

lemma fst_Run_server:
  assumes "Run_server w (cfg s) = Some sv"
  shows "set (fst (Run_fromKubeconfig w s sv)) \<subseteq> set (fst (Run w s))"
proof -
  from assms obtain dir d i where
    dir: "snd (Run_rootDirectory w (cfg s)) = Inr dir"
    and di: "snd (Run_openEtcd w (cfg s) dir) = Inr (d, i)"
    and sv: "snd (Run_startServer w (cfg s) d i) = Inr sv"
    by (auto simp: Run_server_def split: sum.splits prod.splits)
  show ?thesis
    by (auto simp: Run_def Run_fromEtcd_def set_andThen fst_deferClose dir di sv)
qed

lemma write_in_fromKubeconfig:
  assumes "snd (Run_announce w (cfg s) sv) = Inr ()"
  shows "call_WriteToFile (clientConfig w sv)
           (filepath_Join w [RootDirectory (cfg s), KubeConfigPath (cfg s)])
         \<in> set (fst (Run_fromKubeconfig w s sv))"
  by (auto simp: Run_fromKubeconfig_def set_andThen assms Run_writeKubeconfig_def Let_def
      split: option.splits)

text \<open>
  C7. The kubeconfig that \<open>Run\<close> builds names three clusters. The cross-cluster view
  is the loopback host followed by \<^verbatim>\<open>/clusters/*\<close>, the star being the constant
  \<open>clusterAll\<close>; the admin cluster is the loopback host itself, with no cluster segment;
  the user cluster is the host followed by \<^verbatim>\<open>/clusters/\<close> and its name, which is
  the form in which the namespace controller addresses any logical cluster (line 449).
  An address with a cluster segment is never the base address, two names give the same
  address only when they are equal, and a name gives the address of the cross-cluster
  view only when it is the star. \<open>Run\<close> writes this kubeconfig to the file at
  \<open>KubeConfigPath\<close> under the root directory once the server exists and the
  announcement step gave no error.
\<close>
theorem C7_cluster_addresses:
  "map fst (Clusters (clientConfig w server)) = [''cross-cluster'', ''admin'', ''user'']
   \<and> map (Server \<circ> snd) (Clusters (clientConfig w server)) =
       [logicalClusterConfig_Host (LoopbackClientConfig server) clusterAll,
        Host (LoopbackClientConfig server),
        logicalClusterConfig_Host (LoopbackClientConfig server)
          (genericcontrolplane_SanitizedClusterName w (ExternalAddress server) ''user'')]
   \<and> clusterAll = ''*''
   \<and> logicalClusterConfig_Host lb clusterAll = Host lb @ ''/clusters/*''
   \<and> logicalClusterConfig_Host lb n = Host lb @ ''/clusters/'' @ n
   \<and> logicalClusterConfig_Host lb n \<noteq> Host lb
   \<and> (logicalClusterConfig_Host lb n = logicalClusterConfig_Host lb n') = (n = n')
   \<and> (logicalClusterConfig_Host lb n = logicalClusterConfig_Host lb clusterAll) = (n = ''*'')
   \<and> (Run_server w (cfg s) = Some server \<and> snd (Run_announce w (cfg s) server) = Inr () \<longrightarrow>
        call_WriteToFile (clientConfig w server)
          (filepath_Join w [RootDirectory (cfg s), KubeConfigPath (cfg s)])
        \<in> set (fst (Run w s)))"
proof -
  have names: "map fst (Clusters (clientConfig w server)) = [''cross-cluster'', ''admin'', ''user'']"
    by (simp add: clientConfig_def)
  have servers: "map (Server \<circ> snd) (Clusters (clientConfig w server)) =
       [logicalClusterConfig_Host (LoopbackClientConfig server) clusterAll,
        Host (LoopbackClientConfig server),
        logicalClusterConfig_Host (LoopbackClientConfig server)
          (genericcontrolplane_SanitizedClusterName w (ExternalAddress server) ''user'')]"
    by (simp add: clientConfig_def logicalClusterConfig_Host_def clusterAll_def)
  have paths: "clusterAll = ''*''"
    "logicalClusterConfig_Host lb clusterAll = Host lb @ ''/clusters/*''"
    "logicalClusterConfig_Host lb n = Host lb @ ''/clusters/'' @ n"
    "logicalClusterConfig_Host lb n \<noteq> Host lb"
    "(logicalClusterConfig_Host lb n = logicalClusterConfig_Host lb n') = (n = n')"
    "(logicalClusterConfig_Host lb n = logicalClusterConfig_Host lb clusterAll) = (n = ''*'')"
    by (simp_all add: logicalClusterConfig_Host_def clusterAll_def)
  have written: "call_WriteToFile (clientConfig w server)
          (filepath_Join w [RootDirectory (cfg s), KubeConfigPath (cfg s)])
        \<in> set (fst (Run w s))"
    if "Run_server w (cfg s) = Some server" "snd (Run_announce w (cfg s) server) = Inr ()"
    using fst_Run_server [OF that(1)] write_in_fromKubeconfig [OF that(2)] by blast
  from names servers paths written show ?thesis by blast
qed

text \<open>The kubeconfig of the sample world.\<close>
theorem C7_cluster_addresses_witness:
  "Run_server sampleEnv (cfg (NewServer sampleConfig)) = Some sampleAPIServer
   \<and> snd (Run_announce sampleEnv (cfg (NewServer sampleConfig)) sampleAPIServer) = Inr ()
   \<and> call_WriteToFile (clientConfig sampleEnv sampleAPIServer) ''/var/kcp/admin.kubeconfig''
       \<in> set (fst (Run sampleEnv (NewServer sampleConfig)))
   \<and> map (Server \<circ> snd) (Clusters (clientConfig sampleEnv sampleAPIServer)) =
       [''https://localhost:6443/clusters/*'', ''https://localhost:6443'',
        ''https://localhost:6443/clusters/user'']"
proof -
  have a: "Run_server sampleEnv (cfg (NewServer sampleConfig)) = Some sampleAPIServer"
    by (simp add: Run_server_def Run_defs sample_defs Let_def)
  have b: "snd (Run_announce sampleEnv (cfg (NewServer sampleConfig)) sampleAPIServer) = Inr ()"
    by (simp add: Run_defs sample_defs)
  have j: "filepath_Join sampleEnv [RootDirectory (cfg (NewServer sampleConfig)),
             KubeConfigPath (cfg (NewServer sampleConfig))] = ''/var/kcp/admin.kubeconfig''"
    by (simp add: sample_defs)
  have c: "map (Server \<circ> snd) (Clusters (clientConfig sampleEnv sampleAPIServer)) =
       [''https://localhost:6443/clusters/*'', ''https://localhost:6443'',
        ''https://localhost:6443/clusters/user'']"
    by (simp add: sample_defs)
  have "call_WriteToFile (clientConfig sampleEnv sampleAPIServer)
          (filepath_Join sampleEnv [RootDirectory (cfg (NewServer sampleConfig)),
             KubeConfigPath (cfg (NewServer sampleConfig))])
        \<in> set (fst (Run sampleEnv (NewServer sampleConfig)))"
    using C7_cluster_addresses [of sampleEnv sampleAPIServer _ _ _ "NewServer sampleConfig"] a b
    by blast
  with a b c j show ?thesis by simp
qed

lemma count_filters: "count_list (map hit_filter fs) hit_shard_proxy = 0"
  by (induction fs) simp_all

text \<open>
  C2, as the code has it. With sharding enabled the chain is, from the outside: the
  logical-cluster handler, the filters of the default chain of the API server, the shard
  proxy, and the handler that was passed in. Whatever each wrapper decides for a
  request, the handlers that run are an initial part of this sequence, and the first to
  run is the logical-cluster handler. Nothing stands between the shard proxy and the
  handler passed in; between the logical-cluster handler and the shard proxy stand the
  filters of the default chain, and nothing when that chain installs none.
\<close>
theorem C2_chain_order_with_sharding:
  assumes "EnableSharding scfg"
  shows "layers (BuildHandlerChainFunc scfg l api c) =
           hit_lcluster # map hit_filter (DefaultFilters c) @ hit_shard_proxy # layers api
       \<and> prefix (serve b (BuildHandlerChainFunc scfg l api c) r)
           (hit_lcluster # map hit_filter (DefaultFilters c) @ hit_shard_proxy # layers api)
       \<and> hd (serve b (BuildHandlerChainFunc scfg l api c) r) = hit_lcluster
       \<and> (DefaultFilters c = [] \<longrightarrow>
            layers (BuildHandlerChainFunc scfg l api c) =
              hit_lcluster # hit_shard_proxy # layers api)"
proof -
  have order: "layers (BuildHandlerChainFunc scfg l api c) =
           hit_lcluster # map hit_filter (DefaultFilters c) @ hit_shard_proxy # layers api"
    using assms by (simp add: layers_BuildHandlerChainFunc)
  have runs: "prefix (serve b (BuildHandlerChainFunc scfg l api c) r)
           (hit_lcluster # map hit_filter (DefaultFilters c) @ hit_shard_proxy # layers api)"
    using serve_prefix_layers [of b "BuildHandlerChainFunc scfg l api c" r] order by simp
  have first: "hd (serve b (BuildHandlerChainFunc scfg l api c) r) = hit_lcluster"
    by (simp add: BuildHandlerChainFunc_def Let_def)
  from order runs first show ?thesis by simp
qed

text \<open>The chain of the sample configuration with sharding.\<close>
theorem C2_chain_order_with_sharding_witness:
  "EnableSharding shardedConfig
   \<and> layers (BuildHandlerChainFunc shardedConfig (ClientLoader []) (Terminal ''director'')
               sampleGenericConfig) =
       [hit_lcluster, hit_filter ''WithPanicRecovery'', hit_filter ''WithRequestInfo'',
        hit_filter ''WithAuthentication'', hit_filter ''WithAuthorization'', hit_shard_proxy,
        hit_terminal ''director'']"
proof -
  have a: "EnableSharding shardedConfig"
    by (simp add: shardedConfig_def)
  have "layers (BuildHandlerChainFunc shardedConfig (ClientLoader []) (Terminal ''director'')
               sampleGenericConfig) =
       hit_lcluster # map hit_filter (DefaultFilters sampleGenericConfig) @
         hit_shard_proxy # layers (Terminal ''director'')"
    using C2_chain_order_with_sharding [OF a, of "ClientLoader []" "Terminal ''director''"
      sampleGenericConfig delegating "[]"] by blast
  with a show ?thesis by (simp add: sampleGenericConfig_def)
qed

text \<open>
  C2 as stated fails where the default chain installs a filter: the filters run after
  the logical-cluster handler and before the shard proxy, since line 216 wraps the
  default chain around the shard proxy of line 214.
\<close>
theorem C2_filters_between_counterexample:
  "EnableSharding shardedConfig
   \<and> serve delegating
       (BuildHandlerChainFunc shardedConfig (ClientLoader []) (Terminal ''director'')
          sampleGenericConfig) ''/clusters/admin/api/v1/namespaces'' =
       [hit_lcluster, hit_filter ''WithPanicRecovery'', hit_filter ''WithRequestInfo'',
        hit_filter ''WithAuthentication'', hit_filter ''WithAuthorization'', hit_shard_proxy,
        hit_terminal ''director'']
   \<and> serve delegating
       (BuildHandlerChainFunc shardedConfig (ClientLoader []) (Terminal ''director'')
          sampleGenericConfig) ''/clusters/admin/api/v1/namespaces'' \<noteq>
       [hit_lcluster, hit_shard_proxy, hit_terminal ''director'']"
  by (simp add: shardedConfig_def sampleConfig_def sampleGenericConfig_def
      BuildHandlerChainFunc_def DefaultBuildHandlerChain_def delegating_def)

text \<open>
  C3. With sharding disabled the chain is the logical-cluster handler around the default
  chain around the handler that was passed in: the same chain for every client loader,
  with no more shard proxies in it than the handler passed in already had, so that every
  request is served as by that chain. \<open>Run\<close> sends nothing on the injector channel.
\<close>
theorem C3_no_shard_proxy_without_sharding:
  assumes "\<not> EnableSharding (cfg s)"
  shows "BuildHandlerChainFunc (cfg s) l api c = ServeHTTP (DefaultBuildHandlerChain api c) c
       \<and> BuildHandlerChainFunc (cfg s) l' api c = BuildHandlerChainFunc (cfg s) l api c
       \<and> layers (BuildHandlerChainFunc (cfg s) l api c) =
           hit_lcluster # map hit_filter (DefaultFilters c) @ layers api
       \<and> count_list (layers (BuildHandlerChainFunc (cfg s) l api c)) hit_shard_proxy =
           count_list (layers api) hit_shard_proxy
       \<and> serve b (BuildHandlerChainFunc (cfg s) l api c) r =
           serve b (ServeHTTP (DefaultBuildHandlerChain api c) c) r
       \<and> announcements (fst (Run w s)) = []"
proof -
  have same: "BuildHandlerChainFunc (cfg s) l api c = ServeHTTP (DefaultBuildHandlerChain api c) c"
    for l
    using assms by (simp add: BuildHandlerChainFunc_def)
  have order: "layers (BuildHandlerChainFunc (cfg s) l api c) =
           hit_lcluster # map hit_filter (DefaultFilters c) @ layers api"
    using assms by (simp add: layers_BuildHandlerChainFunc)
  have count: "count_list (layers (BuildHandlerChainFunc (cfg s) l api c)) hit_shard_proxy =
           count_list (layers api) hit_shard_proxy"
    by (simp add: order count_filters)
  have none: "announcements (fst (Run w s)) = []"
    using assms by (simp add: ann_Run ann_announce split: option.splits)
  from same order count none show ?thesis by simp
qed

text \<open>The chain and the run of the sample configuration, which has no sharding.\<close>
theorem C3_no_shard_proxy_without_sharding_witness:
  "\<not> EnableSharding (cfg (NewServer sampleConfig))
   \<and> serve delegating
       (BuildHandlerChainFunc (cfg (NewServer sampleConfig)) (ClientLoader [])
          (Terminal ''director'') sampleGenericConfig) ''/api/v1/namespaces'' =
       [hit_lcluster, hit_filter ''WithPanicRecovery'', hit_filter ''WithRequestInfo'',
        hit_filter ''WithAuthentication'', hit_filter ''WithAuthorization'',
        hit_terminal ''director'']
   \<and> announcements (fst (Run sampleEnv (NewServer sampleConfig))) = []"
proof -
  have a: "\<not> EnableSharding (cfg (NewServer sampleConfig))"
    by (simp add: sample_defs)
  have b: "serve delegating (ServeHTTP (DefaultBuildHandlerChain (Terminal ''director'')
             sampleGenericConfig) sampleGenericConfig) ''/api/v1/namespaces'' =
       [hit_lcluster, hit_filter ''WithPanicRecovery'', hit_filter ''WithRequestInfo'',
        hit_filter ''WithAuthentication'', hit_filter ''WithAuthorization'',
        hit_terminal ''director'']"
    by (simp add: sampleGenericConfig_def DefaultBuildHandlerChain_def delegating_def)
  from C3_no_shard_proxy_without_sharding [OF a, of "ClientLoader []" "Terminal ''director''"
      sampleGenericConfig _ delegating "''/api/v1/namespaces''" sampleEnv] a b
  show ?thesis by simp
qed

section \<open>Properties of the router\<close>

lemma splitClusterPath_prefix:
  "splitClusterPath (clusterPrefix @ token @ rest) =
     Some (takeWhile (\<lambda>ch. ch \<noteq> CHR ''/'') (token @ rest),
           dropWhile (\<lambda>ch. ch \<noteq> CHR ''/'') (token @ rest))"
  by (simp add: splitClusterPath_def Let_def)

lemma token_split:
  assumes "CHR ''/'' \<notin> set token" "rest = [] \<or> hd rest = CHR ''/''"
  shows "takeWhile (\<lambda>ch. ch \<noteq> CHR ''/'') (token @ rest) = token"
    and "dropWhile (\<lambda>ch. ch \<noteq> CHR ''/'') (token @ rest) = rest"
proof -
  have tok: "ch \<in> set token \<Longrightarrow> ch \<noteq> CHR ''/''" for ch
    using assms(1) by auto
  have "takeWhile (\<lambda>ch. ch \<noteq> CHR ''/'') rest = []"
    using assms(2) by (cases rest) simp_all
  then show "takeWhile (\<lambda>ch. ch \<noteq> CHR ''/'') (token @ rest) = token"
    using tok by (simp add: takeWhile_append2)
  have "dropWhile (\<lambda>ch. ch \<noteq> CHR ''/'') rest = rest"
    using assms(2) by (cases rest) simp_all
  then show "dropWhile (\<lambda>ch. ch \<noteq> CHR ''/'') (token @ rest) = rest"
    using tok by (simp add: dropWhile_append2)
qed

lemma routeRequest_never_named_wildcard:
  "fst (routeRequest p) \<noteq> NamedCluster clusterAll"
  by (simp add: routeRequest_def split: option.splits prod.splits)

text \<open>
  C4. A request whose path carries the wildcard token, that is \<^verbatim>\<open>/clusters/*\<close>
  alone or followed by a slash and more, is routed to all logical clusters with the
  prefix stripped, and to no single named cluster: the list served at such a path is
  the list of every logical cluster. No path at all is routed to a single cluster named
  by the wildcard, and the paths routed to all clusters are exactly those that carry the
  wildcard token.
\<close>
theorem C4_wildcard_is_not_a_cluster_name:
  assumes "rest = [] \<or> hd rest = CHR ''/''"
  shows "routeRequest (clusterPrefix @ clusterAll @ rest) = (AllClusters, rest)
       \<and> (\<forall>n. fst (routeRequest (clusterPrefix @ clusterAll @ rest)) \<noteq> NamedCluster n)
       \<and> fst (routeRequest p) \<noteq> NamedCluster clusterAll
       \<and> listCRDs stored (clusterPrefix @ clusterAll @ rest) = stored
       \<and> (fst (routeRequest p) = AllClusters) =
           (\<exists>r. p = clusterPrefix @ clusterAll @ r \<and> (r = [] \<or> hd r = CHR ''/''))"
proof -
  have star: "CHR ''/'' \<notin> set clusterAll" by (simp add: clusterAll_def)
  have wild: "splitClusterPath (clusterPrefix @ clusterAll @ r) = Some (clusterAll, r)"
    if "r = [] \<or> hd r = CHR ''/''" for r
    using token_split [OF star that] by (simp add: splitClusterPath_prefix)
  have nonempty: "clusterAll \<noteq> []" by (simp add: clusterAll_def)
  have route: "routeRequest (clusterPrefix @ clusterAll @ rest) = (AllClusters, rest)"
    by (simp add: routeRequest_def wild [OF assms] nonempty)
  have all: "listCRDs stored (clusterPrefix @ clusterAll @ rest) = stored"
    by (simp add: listCRDs_def route)
  have iff: "(fst (routeRequest p) = AllClusters) =
           (\<exists>r. p = clusterPrefix @ clusterAll @ r \<and> (r = [] \<or> hd r = CHR ''/''))"
  proof
    assume a: "fst (routeRequest p) = AllClusters"
    then obtain token r where s: "splitClusterPath p = Some (token, r)" and t: "token = clusterAll"
      by (auto simp: routeRequest_def split: option.splits prod.splits if_splits)
    from s have pre: "take (length clusterPrefix) p = clusterPrefix"
      and tok: "token = takeWhile (\<lambda>ch. ch \<noteq> CHR ''/'') (drop (length clusterPrefix) p)"
      and r: "r = dropWhile (\<lambda>ch. ch \<noteq> CHR ''/'') (drop (length clusterPrefix) p)"
      by (auto simp: splitClusterPath_def Let_def split: if_splits)
    have dr: "drop (length clusterPrefix) p = token @ r"
      unfolding tok r by simp
    have "take (length clusterPrefix) p @ drop (length clusterPrefix) p = p"
      by simp
    then have "clusterPrefix @ token @ r = p"
      by (simp only: pre dr)
    then have "p = clusterPrefix @ token @ r" ..
    moreover have "r = [] \<or> hd r = CHR ''/''"
      unfolding r
      using hd_dropWhile [of "\<lambda>ch. ch \<noteq> CHR ''/''" "drop (length clusterPrefix) p"]
      by blast
    ultimately show "\<exists>r. p = clusterPrefix @ clusterAll @ r \<and> (r = [] \<or> hd r = CHR ''/'')"
      using t by blast
  next
    assume "\<exists>r. p = clusterPrefix @ clusterAll @ r \<and> (r = [] \<or> hd r = CHR ''/'')"
    then obtain r where p: "p = clusterPrefix @ clusterAll @ r" and r: "r = [] \<or> hd r = CHR ''/''"
      by blast
    show "fst (routeRequest p) = AllClusters"
      by (simp add: p routeRequest_def wild [OF r] nonempty)
  qed
  from route all iff routeRequest_never_named_wildcard [of p] show ?thesis by simp
qed

text \<open>
  The path at which \<^verbatim>\<open>detectClusterName\<close> lists the definitions of all clusters; on
  the sample server it finds the cluster of the cowboys.
\<close>
theorem C4_wildcard_is_not_a_cluster_name_witness:
  "routeRequest ''/clusters/*/apis/apiextensions.k8s.io/v1/customresourcedefinitions'' =
     (AllClusters, ''/apis/apiextensions.k8s.io/v1/customresourcedefinitions'')
   \<and> listCRDs sampleCRDs (crdListPath ''*'') = sampleCRDs
   \<and> listCRDs sampleCRDs (crdListPath ''user'') =
       [\<lparr>CRD_Name = ''cowboys.wildwest.dev'', CRD_ClusterName = ''user''\<rparr>]
   \<and> detectClusterName sampleList ''cowboys.wildwest.dev'' = Inr ''admin''"
proof -
  have slash: "''/apis/apiextensions.k8s.io/v1/customresourcedefinitions'' = [] \<or>
      hd ''/apis/apiextensions.k8s.io/v1/customresourcedefinitions'' = CHR ''/''"
    by simp
  have path: "clusterPrefix @ clusterAll @
      ''/apis/apiextensions.k8s.io/v1/customresourcedefinitions'' =
      ''/clusters/*/apis/apiextensions.k8s.io/v1/customresourcedefinitions''"
    "crdListPath ''*'' = ''/clusters/*/apis/apiextensions.k8s.io/v1/customresourcedefinitions''"
    by (simp_all add: clusterPrefix_def clusterAll_def crdListPath_def)
  note wild = C4_wildcard_is_not_a_cluster_name [OF slash, of "[]" sampleCRDs]
  have a: "routeRequest ''/clusters/*/apis/apiextensions.k8s.io/v1/customresourcedefinitions'' =
     (AllClusters, ''/apis/apiextensions.k8s.io/v1/customresourcedefinitions'')"
    using wild unfolding path by blast
  have b: "listCRDs sampleCRDs (crdListPath ''*'') = sampleCRDs"
    using wild unfolding path by blast
  have c: "listCRDs sampleCRDs (crdListPath ''user'') =
       [\<lparr>CRD_Name = ''cowboys.wildwest.dev'', CRD_ClusterName = ''user''\<rparr>]"
    by (simp add: listCRDs_def crdListPath_def routeRequest_def splitClusterPath_def
        clusterPrefix_def clusterAll_def clusterAdmin_def sampleCRDs_def)
  have d: "detectClusterName sampleList ''cowboys.wildwest.dev'' = Inr ''admin''"
    using b by (simp add: detectClusterName_def sampleList_def) (simp add: sampleCRDs_def)
  from a b c d show ?thesis by blast
qed

section \<open>Properties of the cluster controller\<close>

lemma settled_new: "settled (newCluster n k)"
  by (simp add: newCluster_def)

lemma settled_moveTo_ready: "settled b \<Longrightarrow> settled (moveTo PhaseReady (readyCondition now) b)"
  by (simp add: moveTo_def readyCondition_def isReadyTrue_def split: ClusterPhase.splits)

lemma settled_moveTo_error:
  "settled b \<Longrightarrow> settled (moveTo PhaseError (errorCondition now reason err) b)"
  by (simp add: moveTo_def errorCondition_def isReadyTrue_def split: ClusterPhase.splits)

lemma settled_reconcile: "settled b \<Longrightarrow> settled (reconcile parse probe now b)"
  unfolding reconcile_def
  by (auto intro: settled_moveTo_ready settled_moveTo_error split: sum.splits option.splits
      simp del: settled.simps)

lemma settled_control: "settled b \<Longrightarrow> settled (control parse b ev)"
proof (cases ev)
  case (SpecChange k)
  assume "settled b"
  then show ?thesis using SpecChange by (simp split: ClusterPhase.splits)
next
  case (Reconcile now answer)
  assume "settled b"
  then show ?thesis
    unfolding Reconcile control.simps by (rule settled_reconcile)
next
  case DeletionRequest
  then show ?thesis by simp
qed

lemma settled_reachable: "settled (foldl (control parse) (newCluster n k) evs)"
proof (induction evs rule: rev_induct)
  case Nil
  show ?case by (simp add: settled_new del: settled.simps)
next
  case (snoc ev evs)
  then show ?case by (simp add: settled_control del: settled.simps)
qed

lemma ready_has_condition:
  "settled b \<Longrightarrow> Status_Phase b = PhaseReady \<Longrightarrow> list_ex isReadyTrue (Status_Conditions b)"
  by (auto simp: list_ex_iff intro: last_in_set)

text \<open>
  C6, as the state machine of the spec has it. Take a binding in any state the
  controller can bring it to (created, then any events), whose blob parses and whose
  sink answers the probe, and a reconciliation of it. If the binding is not Terminating,
  whatever its phase (Initializing, Error or Ready), the reconciliation leaves it Ready,
  with a condition of type Ready and status True in its status, the last of its history:
  if it was not Ready before, exactly one condition was appended, the ready condition
  whose transition time is the time of the reconciliation, and the wait of the test,
  seeing the binding added and then modified, returns without error; if it was Ready
  before, nothing changes. If the binding is Terminating the reconciliation changes
  nothing: Terminating is terminal. The reconciliation event of the controller, with the
  sink answering, is this reconciliation.
\<close>

theorem C6_probe_success_makes_ready:
  assumes parsed: "parse (Spec_KubeConfig (foldl (control parse) (newCluster n k) evs)) =
                     Inr credentials"
    and answers: "probe credentials = None"
  shows "(Status_Phase (foldl (control parse) (newCluster n k) evs) \<noteq> PhaseTerminating \<longrightarrow>
            Status_Phase (reconcile parse probe now
              (foldl (control parse) (newCluster n k) evs)) = PhaseReady
          \<and> list_ex isReadyTrue (Status_Conditions (reconcile parse probe now
              (foldl (control parse) (newCluster n k) evs)))
          \<and> isReadyTrue (last (Status_Conditions (reconcile parse probe now
              (foldl (control parse) (newCluster n k) evs))))
          \<and> (Status_Phase (foldl (control parse) (newCluster n k) evs) \<noteq> PhaseReady \<longrightarrow>
               Status_Conditions (reconcile parse probe now
                 (foldl (control parse) (newCluster n k) evs)) =
                 Status_Conditions (foldl (control parse) (newCluster n k) evs) @
                   [readyCondition now]
               \<and> installCluster_wait n
                   [\<lparr>Event_Type = watch_Added,
                     Event_Object = ClusterObject (foldl (control parse) (newCluster n k) evs)\<rparr>,
                    \<lparr>Event_Type = watch_Modified,
                     Event_Object = ClusterObject (reconcile parse probe now
                       (foldl (control parse) (newCluster n k) evs))\<rparr>] = None)
          \<and> (Status_Phase (foldl (control parse) (newCluster n k) evs) = PhaseReady \<longrightarrow>
               reconcile parse probe now (foldl (control parse) (newCluster n k) evs) =
                 foldl (control parse) (newCluster n k) evs))
       \<and> (Status_Phase (foldl (control parse) (newCluster n k) evs) = PhaseTerminating \<longrightarrow>
            reconcile parse probe now (foldl (control parse) (newCluster n k) evs) =
              foldl (control parse) (newCluster n k) evs)
       \<and> control parse (foldl (control parse) (newCluster n k) evs) (Reconcile now None) =
           reconcile parse probe now (foldl (control parse) (newCluster n k) evs)
       \<and> LastTransitionTime (readyCondition now) = now
       \<and> isReadyTrue (readyCondition now)"
proof -
  define b where "b = foldl (control parse) (newCluster n k) evs"
  define b' where "b' = reconcile parse probe now b"
  have st: "settled b" unfolding b_def by (rule settled_reachable)
  have parsed': "parse (Spec_KubeConfig b) = Inr credentials"
    using parsed by (simp add: b_def)
  have b': "b' = moveTo PhaseReady (readyCondition now) b"
    if "Status_Phase b \<noteq> PhaseTerminating"
    using that parsed' answers by (simp add: b'_def reconcile_def)
  have st': "settled b'" unfolding b'_def by (rule settled_reconcile [OF st])
  have ph: "Status_Phase b' = PhaseReady" if "Status_Phase b \<noteq> PhaseTerminating"
    by (simp add: b' [OF that] moveTo_def)
  have rt: "isReadyTrue (readyCondition now)" "LastTransitionTime (readyCondition now) = now"
    by (simp_all add: isReadyTrue_def readyCondition_def)
  have lst: "isReadyTrue (last (Status_Conditions b'))" if "Status_Phase b \<noteq> PhaseTerminating"
    using st' ph [OF that] by simp
  have ex: "list_ex isReadyTrue (Status_Conditions b')" if "Status_Phase b \<noteq> PhaseTerminating"
    by (rule ready_has_condition [OF st' ph [OF that]])
  have app: "Status_Conditions b' = Status_Conditions b @ [readyCondition now]"
    if "Status_Phase b \<noteq> PhaseTerminating" "Status_Phase b \<noteq> PhaseReady"
    using that(2) by (simp add: b' [OF that(1)] moveTo_def)
  have same: "b' = b" if "Status_Phase b = PhaseReady"
    using that by (simp add: b' moveTo_def)
  have wait: "installCluster_wait n
                [\<lparr>Event_Type = watch_Added, Event_Object = ClusterObject b\<rparr>,
                 \<lparr>Event_Type = watch_Modified, Event_Object = ClusterObject b'\<rparr>] = None"
    if "Status_Phase b \<noteq> PhaseTerminating"
    using ex [OF that] by simp
  have terminal: "b' = b" if "Status_Phase b = PhaseTerminating"
    using that by (simp add: b'_def reconcile_def)
  have ev: "control parse b (Reconcile now None) = b'"
    using parsed' answers by (simp add: b'_def reconcile_def)
  from ph ex lst app same wait terminal ev rt show ?thesis
    unfolding b'_def b_def by blast
qed

text \<open>
  A new binding with the kubeconfig of the sink, reconciled at time 7 with the sink
  answering; the same binding after an unanswered probe at time 5, reconciled at time 7;
  reconciled again at time 9, when it is Ready; and reconciled after its deletion was
  requested.
\<close>

theorem C6_probe_success_makes_ready_witness:
  "sampleParse (Spec_KubeConfig (foldl (control sampleParse)
      (newCluster ''us-east1'' ''kubeconfig of the sink'') [])) =
     Inr \<lparr>Host = ''https://sink:6443'', BearerToken = ''sink-token'', CAData = ''sink-ca'',
          TLSClientConfig_ServerName = []\<rparr>
   \<and> reconcile sampleParse (\<lambda>credentials. None) 7
        (foldl (control sampleParse) (newCluster ''us-east1'' ''kubeconfig of the sink'') []) =
     \<lparr>Cluster_Name = ''us-east1'', Spec_KubeConfig = ''kubeconfig of the sink'',
      Status_Phase = PhaseReady, Status_Conditions = [readyCondition 7]\<rparr>
   \<and> Status_Phase (foldl (control sampleParse)
        (newCluster ''us-east1'' ''kubeconfig of the sink'')
        [Reconcile 5 (Some (errors_New ''connection refused''))]) = PhaseError
   \<and> reconcile sampleParse (\<lambda>credentials. None) 7
        (foldl (control sampleParse) (newCluster ''us-east1'' ''kubeconfig of the sink'')
           [Reconcile 5 (Some (errors_New ''connection refused''))]) =
     \<lparr>Cluster_Name = ''us-east1'', Spec_KubeConfig = ''kubeconfig of the sink'',
      Status_Phase = PhaseReady,
      Status_Conditions =
        [errorCondition 5 ''probe failed'' (errors_New ''connection refused''),
         readyCondition 7]\<rparr>
   \<and> reconcile sampleParse (\<lambda>credentials. None) 9
        (foldl (control sampleParse) (newCluster ''us-east1'' ''kubeconfig of the sink'')
           [Reconcile 7 None]) =
     \<lparr>Cluster_Name = ''us-east1'', Spec_KubeConfig = ''kubeconfig of the sink'',
      Status_Phase = PhaseReady, Status_Conditions = [readyCondition 7]\<rparr>
   \<and> reconcile sampleParse (\<lambda>credentials. None) 7
        (foldl (control sampleParse) (newCluster ''us-east1'' ''kubeconfig of the sink'')
           [DeletionRequest]) =
     \<lparr>Cluster_Name = ''us-east1'', Spec_KubeConfig = ''kubeconfig of the sink'',
      Status_Phase = PhaseTerminating, Status_Conditions = []\<rparr>"
proof -
  let ?new = "newCluster ''us-east1'' ''kubeconfig of the sink''"
  let ?sink = "\<lparr>Host = ''https://sink:6443'', BearerToken = ''sink-token'', CAData = ''sink-ca'',
                TLSClientConfig_ServerName = []\<rparr>"
  let ?refused = "Reconcile 5 (Some (errors_New ''connection refused''))"
  have parsed: "sampleParse (Spec_KubeConfig (foldl (control sampleParse) ?new evs)) = Inr ?sink"
    if "evs \<in> {[], [?refused], [Reconcile 7 None], [DeletionRequest]}" for evs
    using that by (auto simp: newCluster_def sampleParse_def reconcile_def moveTo_def)
  have answers: "(\<lambda>credentials :: rest_Config. None :: error option) ?sink = None"
    by simp
  note sample = C6_probe_success_makes_ready [where parse = sampleParse
      and probe = "\<lambda>credentials. None" and n = "''us-east1''"
      and k = "''kubeconfig of the sink''" and credentials = ?sink]
  note fresh = sample [where evs = "[]" and now = 7, OF parsed answers]
  note failed = sample [where evs = "[?refused]" and now = 7, OF parsed answers]
  note again = sample [where evs = "[Reconcile 7 None]" and now = 9, OF parsed answers]
  note deleted = sample [where evs = "[DeletionRequest]" and now = 7, OF parsed answers]
  have a: "Status_Conditions (reconcile sampleParse (\<lambda>credentials. None) 7
             (foldl (control sampleParse) ?new [])) = [readyCondition 7]"
    "Status_Phase (reconcile sampleParse (\<lambda>credentials. None) 7
             (foldl (control sampleParse) ?new [])) = PhaseReady"
    using fresh by (simp_all add: newCluster_def)
  have a': "reconcile sampleParse (\<lambda>credentials. None) 7 (foldl (control sampleParse) ?new []) =
     \<lparr>Cluster_Name = ''us-east1'', Spec_KubeConfig = ''kubeconfig of the sink'',
      Status_Phase = PhaseReady, Status_Conditions = [readyCondition 7]\<rparr>"
    using a by (simp add: reconcile_def newCluster_def sampleParse_def moveTo_def)
  have e: "foldl (control sampleParse) ?new [?refused] =
     \<lparr>Cluster_Name = ''us-east1'', Spec_KubeConfig = ''kubeconfig of the sink'',
      Status_Phase = PhaseError,
      Status_Conditions = [errorCondition 5 ''probe failed'' (errors_New ''connection refused'')]\<rparr>"
    by (simp add: reconcile_def newCluster_def sampleParse_def moveTo_def)
  have b: "Status_Conditions (reconcile sampleParse (\<lambda>credentials. None) 7
             (foldl (control sampleParse) ?new [?refused])) =
           [errorCondition 5 ''probe failed'' (errors_New ''connection refused''),
            readyCondition 7]"
    "Status_Phase (reconcile sampleParse (\<lambda>credentials. None) 7
             (foldl (control sampleParse) ?new [?refused])) = PhaseReady"
    using failed unfolding e by simp_all
  have b': "reconcile sampleParse (\<lambda>credentials. None) 7
        (foldl (control sampleParse) ?new [?refused]) =
     \<lparr>Cluster_Name = ''us-east1'', Spec_KubeConfig = ''kubeconfig of the sink'',
      Status_Phase = PhaseReady,
      Status_Conditions =
        [errorCondition 5 ''probe failed'' (errors_New ''connection refused''),
         readyCondition 7]\<rparr>"
    using b unfolding e by (simp add: reconcile_def sampleParse_def moveTo_def)
  have r: "foldl (control sampleParse) ?new [Reconcile 7 None] =
     \<lparr>Cluster_Name = ''us-east1'', Spec_KubeConfig = ''kubeconfig of the sink'',
      Status_Phase = PhaseReady, Status_Conditions = [readyCondition 7]\<rparr>"
    by (simp add: reconcile_def newCluster_def sampleParse_def moveTo_def)
  have c: "reconcile sampleParse (\<lambda>credentials. None) 9
        (foldl (control sampleParse) ?new [Reconcile 7 None]) =
     \<lparr>Cluster_Name = ''us-east1'', Spec_KubeConfig = ''kubeconfig of the sink'',
      Status_Phase = PhaseReady, Status_Conditions = [readyCondition 7]\<rparr>"
    using again unfolding r by simp
  have t: "foldl (control sampleParse) ?new [DeletionRequest] =
     \<lparr>Cluster_Name = ''us-east1'', Spec_KubeConfig = ''kubeconfig of the sink'',
      Status_Phase = PhaseTerminating, Status_Conditions = []\<rparr>"
    by (simp add: newCluster_def)
  have d: "reconcile sampleParse (\<lambda>credentials. None) 7
        (foldl (control sampleParse) ?new [DeletionRequest]) =
     \<lparr>Cluster_Name = ''us-east1'', Spec_KubeConfig = ''kubeconfig of the sink'',
      Status_Phase = PhaseTerminating, Status_Conditions = []\<rparr>"
    using deleted unfolding t by simp
  have p: "sampleParse (Spec_KubeConfig (foldl (control sampleParse) ?new [])) = Inr ?sink"
    by (rule parsed) simp
  have ph: "Status_Phase (foldl (control sampleParse) ?new [?refused]) = PhaseError"
    unfolding e by simp
  from p a' ph b' c d show ?thesis by blast
qed

text \<open>
  C6 as stated fails on a binding whose deletion was requested: its blob parses and the
  sink answers, but Terminating is terminal and the reconciliation leaves the binding
  Terminating, with no Ready condition.
\<close>

theorem C6_terminating_counterexample:
  "sampleParse (Spec_KubeConfig
      (foldl (control sampleParse) (newCluster ''us-east1'' ''kubeconfig of the sink'')
         [DeletionRequest])) =
     Inr \<lparr>Host = ''https://sink:6443'', BearerToken = ''sink-token'', CAData = ''sink-ca'',
          TLSClientConfig_ServerName = []\<rparr>
   \<and> reconcile sampleParse (\<lambda>credentials. None) 7
       (foldl (control sampleParse) (newCluster ''us-east1'' ''kubeconfig of the sink'')
          [DeletionRequest]) =
     \<lparr>Cluster_Name = ''us-east1'', Spec_KubeConfig = ''kubeconfig of the sink'',
      Status_Phase = PhaseTerminating, Status_Conditions = []\<rparr>
   \<and> Status_Phase (reconcile sampleParse (\<lambda>credentials. None) 7
       (foldl (control sampleParse) (newCluster ''us-east1'' ''kubeconfig of the sink'')
          [DeletionRequest])) \<noteq> PhaseReady
   \<and> \<not> list_ex isReadyTrue (Status_Conditions (reconcile sampleParse (\<lambda>credentials. None) 7
       (foldl (control sampleParse) (newCluster ''us-east1'' ''kubeconfig of the sink'')
          [DeletionRequest])))"
  by (simp add: newCluster_def sampleParse_def reconcile_def)

section \<open>Properties of the syncer\<close>

lemma cowboyKey_update:
  "cowboyKey (x\<lparr>ResourceVersion := r\<rparr>) = cowboyKey x"
  "cowboyKey (x\<lparr>Status_Result := st\<rparr>) = cowboyKey x"
  "cowboyKey (x\<lparr>Spec_Intent := sp\<rparr>) = cowboyKey x"
  by (simp_all add: cowboyKey_def)

lemma cowboyKey_sinkObject: "cowboyKey (sinkObject obj) = cowboyKey obj"
  by (simp add: cowboyKey_def sinkObject_def)

lemma changed_cowboy:
  "ty = watch_Added \<or> ty = watch_Modified \<Longrightarrow>
   changed \<lparr>Event_Type = ty, Event_Object = CowboyObject obj\<rparr> = Some obj"
  by (auto simp: changed_def)

lemma store_fields:
  "fst (store ty obj c) = obj\<lparr>ResourceVersion := Suc (lastResourceVersion c)\<rparr>"
  "objects (snd (store ty obj c)) =
     (objects c)(cowboyKey obj \<mapsto> obj\<lparr>ResourceVersion := Suc (lastResourceVersion c)\<rparr>)"
  "lastResourceVersion (snd (store ty obj c)) = Suc (lastResourceVersion c)"
  "syncerWatcher (snd (store ty obj c)) =
     syncerWatcher c @
       [\<lparr>Event_Type = ty,
         Event_Object = CowboyObject (obj\<lparr>ResourceVersion := Suc (lastResourceVersion c)\<rparr>)\<rparr>]"
  "testWatcher (snd (store ty obj c)) =
     testWatcher c @
       [\<lparr>Event_Type = ty,
         Event_Object = CowboyObject (obj\<lparr>ResourceVersion := Suc (lastResourceVersion c)\<rparr>)\<rparr>]"
  by (simp_all add: store_def publish_def Let_def)

lemma replayStatus_append:
  "replayStatus m k st (events @ [event]) =
     (case changed event of
        None \<Rightarrow> replayStatus m k st events
      | Some obj \<Rightarrow>
          if cowboyKey obj = k \<and> m \<noteq> Some (ResourceVersion obj) then Status_Result obj
          else replayStatus m k st events)"
  by (induction events arbitrary: st) (simp_all split: option.splits)

lemma replayStatus_others:
  "(\<And>event obj. event \<in> set events \<Longrightarrow> changed event = Some obj \<Longrightarrow> cowboyKey obj \<noteq> k) \<Longrightarrow>
   replayStatus m k st events = st"
proof (induction events arbitrary: st)
  case Nil
  show ?case by simp
next
  case (Cons event events)
  have "(case changed event of
          None \<Rightarrow> st
        | Some obj \<Rightarrow>
            if cowboyKey obj = k \<and> m \<noteq> Some (ResourceVersion obj) then Status_Result obj
            else st) = st"
    using Cons.prems [of event] by (auto split: option.splits)
  moreover have "replayStatus m k st events = st"
    by (rule Cons.IH) (use Cons.prems in auto)
  ultimately show ?case by simp
qed

lemma coherentD:
  "coherent w \<Longrightarrow> binding w = PhaseReady"
  "coherent w \<Longrightarrow> objects (source w) k = Some obj \<Longrightarrow> cowboyKey obj = k"
  "coherent w \<Longrightarrow> objects (sink w) k = Some obj \<Longrightarrow> cowboyKey obj = k"
  "coherent w \<Longrightarrow> objects (sink w) k = Some so \<Longrightarrow> sinkWrites w k = 1"
  "coherent w \<Longrightarrow> objects (sink w) k = Some so \<Longrightarrow>
     \<exists>sr. objects (source w) k = Some sr \<and> Spec_Intent so = Spec_Intent sr \<and>
          replayStatus (wroteToSink w k) k (Status_Result sr) (syncerWatcher (sink w)) =
            Status_Result so"
  "coherent w \<Longrightarrow> objects (sink w) k = None \<Longrightarrow> wroteToSource w k = None"
  "coherent w \<Longrightarrow> objects (sink w) k = None \<Longrightarrow> sinkWrites w k = 0"
  "coherent w \<Longrightarrow> objects (sink w) k = None \<Longrightarrow> objects (source w) k = Some sr \<Longrightarrow>
     Status_Result sr = []"
  "coherent w \<Longrightarrow> objects (sink w) k = None \<Longrightarrow> objects (source w) k = Some sr \<Longrightarrow>
     \<exists>event \<in> set (syncerWatcher (source w)). \<exists>obj. changed event = Some obj \<and> cowboyKey obj = k"
  "coherent w \<Longrightarrow> event \<in> set (syncerWatcher (sink w)) \<Longrightarrow> changed event = Some obj \<Longrightarrow>
     objects (sink w) (cowboyKey obj) \<noteq> None"
  "coherent w \<Longrightarrow> event \<in> set (syncerWatcher (source w)) \<Longrightarrow> changed event = Some obj \<Longrightarrow>
     \<exists>sr. objects (source w) (cowboyKey obj) = Some sr \<and> Spec_Intent obj = Spec_Intent sr"
  "coherent w \<Longrightarrow> wroteToSink w k = Some r \<Longrightarrow> r \<le> lastResourceVersion (sink w)"
  unfolding coherent_def keyed_def mirrored_def awaited_def sinkEventsKnown_def
    sourceEventsKnown_def markersBehind_def
  by blast+

lemma coherentI:
  assumes "binding w = PhaseReady"
    and "\<And>k obj. objects (source w) k = Some obj \<Longrightarrow> cowboyKey obj = k"
    and "\<And>k obj. objects (sink w) k = Some obj \<Longrightarrow> cowboyKey obj = k"
    and "\<And>k so. objects (sink w) k = Some so \<Longrightarrow> sinkWrites w k = 1"
    and "\<And>k so. objects (sink w) k = Some so \<Longrightarrow>
           \<exists>sr. objects (source w) k = Some sr \<and> Spec_Intent so = Spec_Intent sr \<and>
             replayStatus (wroteToSink w k) k (Status_Result sr) (syncerWatcher (sink w)) =
               Status_Result so"
    and "\<And>k. objects (sink w) k = None \<Longrightarrow> wroteToSource w k = None"
    and "\<And>k. objects (sink w) k = None \<Longrightarrow> sinkWrites w k = 0"
    and "\<And>k sr. objects (sink w) k = None \<Longrightarrow> objects (source w) k = Some sr \<Longrightarrow>
           Status_Result sr = []"
    and "\<And>k sr. objects (sink w) k = None \<Longrightarrow> objects (source w) k = Some sr \<Longrightarrow>
           \<exists>event \<in> set (syncerWatcher (source w)).
             \<exists>obj. changed event = Some obj \<and> cowboyKey obj = k"
    and "\<And>event obj. event \<in> set (syncerWatcher (sink w)) \<Longrightarrow> changed event = Some obj \<Longrightarrow>
           objects (sink w) (cowboyKey obj) \<noteq> None"
    and "\<And>event obj. event \<in> set (syncerWatcher (source w)) \<Longrightarrow> changed event = Some obj \<Longrightarrow>
           \<exists>sr. objects (source w) (cowboyKey obj) = Some sr \<and> Spec_Intent obj = Spec_Intent sr"
    and "\<And>k r. wroteToSink w k = Some r \<Longrightarrow> r \<le> lastResourceVersion (sink w)"
  shows "coherent w"
  unfolding coherent_def keyed_def mirrored_def awaited_def sinkEventsKnown_def
    sourceEventsKnown_def markersBehind_def
  using assms by blast

text \<open>The steps of the two directions on a coherent pair.\<close>

lemma specDirection_step:
  assumes "coherent w" "syncerWatcher (source w) = event # pending"
  shows "specDirection w =
     (case changed event of
        None \<Rightarrow> w\<lparr>source := (source w)\<lparr>syncerWatcher := pending\<rparr>\<rparr>
      | Some obj \<Rightarrow>
          if objects (sink w) (cowboyKey obj) = None
          then wroteSink (w\<lparr>source := (source w)\<lparr>syncerWatcher := pending\<rparr>\<rparr>)
                 (store watch_Added (sinkObject obj) (sink w))
          else w\<lparr>source := (source w)\<lparr>syncerWatcher := pending\<rparr>\<rparr>)"
proof (cases "changed event")
  case None
  then show ?thesis using assms(2) coherentD(1) [OF assms(1)] by (simp add: specDirection_def)
next
  case (Some obj)
  have ready: "binding w = PhaseReady" using assms(1) by (rule coherentD)
  show ?thesis
  proof (cases "objects (sink w) (cowboyKey obj)")
    case None
    have "wroteToSource w (cowboyKey obj) = None"
      using assms(1) None by (rule coherentD)
    then show ?thesis
      using Some None ready assms(2)
      by (simp add: specDirection_def applySpec_def api_Create_def cowboyKey_sinkObject Let_def)
  next
    case (Some cur)
    have "event \<in> set (syncerWatcher (source w))" using assms(2) by simp
    from coherentD(11) [OF assms(1) this \<open>changed event = Some obj\<close>] obtain sr where
      sr: "objects (source w) (cowboyKey obj) = Some sr" "Spec_Intent obj = Spec_Intent sr"
      by blast
    from coherentD(5) [OF assms(1) Some] obtain sr' where
      "objects (source w) (cowboyKey obj) = Some sr'" "Spec_Intent cur = Spec_Intent sr'"
      by blast
    with sr have "Spec_Intent cur = Spec_Intent obj" by simp
    then show ?thesis
      using Some \<open>changed event = Some obj\<close> ready assms(2)
      by (simp add: specDirection_def applySpec_def Let_def)
  qed
qed

lemma statusDirection_step:
  assumes "coherent w" "syncerWatcher (sink w) = event # pending"
  shows "statusDirection w =
     (case changed event of
        None \<Rightarrow> w\<lparr>sink := (sink w)\<lparr>syncerWatcher := pending\<rparr>\<rparr>
      | Some obj \<Rightarrow>
          (case objects (source w) (cowboyKey obj) of
             None \<Rightarrow> w\<lparr>sink := (sink w)\<lparr>syncerWatcher := pending\<rparr>\<rparr>
           | Some cur \<Rightarrow>
               if wroteToSink w (cowboyKey obj) = Some (ResourceVersion obj) \<or>
                  Status_Result cur = Status_Result obj
               then w\<lparr>sink := (sink w)\<lparr>syncerWatcher := pending\<rparr>\<rparr>
               else wroteSource (w\<lparr>sink := (sink w)\<lparr>syncerWatcher := pending\<rparr>\<rparr>)
                      (store watch_Modified (cur\<lparr>Status_Result := Status_Result obj\<rparr>)
                         (source w))))"
  using assms(2) coherentD(1) [OF assms(1)]
  by (auto simp: statusDirection_def applyStatus_def api_PatchStatus_def Let_def
      split: option.splits)


text \<open>Each step keeps the pair coherent.\<close>

lemma coherent_popSource:
  assumes c: "coherent w" and q: "syncerWatcher (source w) = event # pending"
    and known: "\<And>obj. changed event = Some obj \<Longrightarrow> objects (sink w) (cowboyKey obj) \<noteq> None"
  shows "coherent (w\<lparr>source := (source w)\<lparr>syncerWatcher := pending\<rparr>\<rparr>)"
proof (rule coherentI)
  let ?w = "w\<lparr>source := (source w)\<lparr>syncerWatcher := pending\<rparr>\<rparr>"
  show "binding ?w = PhaseReady" using coherentD(1) [OF c] by simp
  show "cowboyKey obj = k" if "objects (source ?w) k = Some obj" for k obj
    using coherentD(2) [OF c, of k obj] that by simp
  show "cowboyKey obj = k" if "objects (sink ?w) k = Some obj" for k obj
    using coherentD(3) [OF c, of k obj] that by simp
  show "sinkWrites ?w k = 1" if "objects (sink ?w) k = Some so" for k so
    using coherentD(4) [OF c, of k so] that by simp
  show "\<exists>sr. objects (source ?w) k = Some sr \<and> Spec_Intent so = Spec_Intent sr \<and>
          replayStatus (wroteToSink ?w k) k (Status_Result sr) (syncerWatcher (sink ?w)) =
            Status_Result so"
    if "objects (sink ?w) k = Some so" for k so
    using coherentD(5) [OF c, of k so] that by simp
  show "wroteToSource ?w k = None" if "objects (sink ?w) k = None" for k
    using coherentD(6) [OF c, of k] that by simp
  show "sinkWrites ?w k = 0" if "objects (sink ?w) k = None" for k
    using coherentD(7) [OF c, of k] that by simp
  show "Status_Result sr = []"
    if "objects (sink ?w) k = None" "objects (source ?w) k = Some sr" for k sr
    using coherentD(8) [OF c, of k sr] that by simp
  show "\<exists>event \<in> set (syncerWatcher (source ?w)). \<exists>obj. changed event = Some obj \<and> cowboyKey obj = k"
    if "objects (sink ?w) k = None" "objects (source ?w) k = Some sr" for k sr
  proof -
    from coherentD(9) [OF c, of k sr] that obtain event' obj where
      e: "event' \<in> set (syncerWatcher (source w))" "changed event' = Some obj" "cowboyKey obj = k"
      by auto
    have "event' \<noteq> event" using known [of obj] e(2,3) that(1) by auto
    with e show ?thesis by (auto simp: q)
  qed
  show "objects (sink ?w) (cowboyKey obj) \<noteq> None"
    if "event' \<in> set (syncerWatcher (sink ?w))" "changed event' = Some obj" for event' obj
    using coherentD(10) [OF c, of event' obj] that by simp
  show "\<exists>sr. objects (source ?w) (cowboyKey obj) = Some sr \<and> Spec_Intent obj = Spec_Intent sr"
    if "event' \<in> set (syncerWatcher (source ?w))" "changed event' = Some obj" for event' obj
    using coherentD(11) [OF c, of event' obj] that by (simp add: q)
  show "r \<le> lastResourceVersion (sink ?w)" if "wroteToSink ?w k = Some r" for k r
    using coherentD(12) [OF c, of k r] that by simp
qed

lemma coherent_mirror:
  assumes c: "coherent w" and q: "syncerWatcher (source w) = event # pending"
    and ev: "changed event = Some obj" and absent: "objects (sink w) (cowboyKey obj) = None"
  shows "coherent (wroteSink (w\<lparr>source := (source w)\<lparr>syncerWatcher := pending\<rparr>\<rparr>)
                    (store watch_Added (sinkObject obj) (sink w)))"
proof (rule coherentI)
  define k0 where "k0 = cowboyKey obj"
  define rv where "rv = Suc (lastResourceVersion (sink w))"
  define stored where "stored = (sinkObject obj)\<lparr>ResourceVersion := rv\<rparr>"
  let ?w = "wroteSink (w\<lparr>source := (source w)\<lparr>syncerWatcher := pending\<rparr>\<rparr>)
                    (store watch_Added (sinkObject obj) (sink w))"
  have f: "binding ?w = binding w" "objects (source ?w) = objects (source w)"
    "syncerWatcher (source ?w) = pending"
    "objects (sink ?w) = (objects (sink w))(k0 \<mapsto> stored)"
    "lastResourceVersion (sink ?w) = rv"
    "syncerWatcher (sink ?w) =
       syncerWatcher (sink w) @ [\<lparr>Event_Type = watch_Added, Event_Object = CowboyObject stored\<rparr>]"
    "wroteToSink ?w = (wroteToSink w)(k0 \<mapsto> rv)" "wroteToSource ?w = wroteToSource w"
    "sinkWrites ?w = (sinkWrites w)(k0 := Suc (sinkWrites w k0))"
    by (simp_all add: wroteSink_def store_fields cowboyKey_sinkObject cowboyKey_update k0_def
        rv_def stored_def)
  have st: "cowboyKey stored = k0" "Spec_Intent stored = Spec_Intent obj"
    "Status_Result stored = []" "ResourceVersion stored = rv"
    by (simp_all add: stored_def k0_def cowboyKey_def sinkObject_def)
  have absent0: "objects (sink w) k0 = None" using absent by (simp add: k0_def)
  have inq: "event \<in> set (syncerWatcher (source w))" by (simp add: q)
  from coherentD(11) [OF c inq ev] obtain sr0 where
    sr0: "objects (source w) k0 = Some sr0" "Spec_Intent obj = Spec_Intent sr0"
    by (auto simp: k0_def)
  have nostatus: "Status_Result sr0 = []"
    by (rule coherentD(8) [OF c absent0 sr0(1)])
  have chg: "changed \<lparr>Event_Type = watch_Added, Event_Object = CowboyObject stored\<rparr> = Some stored"
    by (simp add: changed_cowboy)
  have quiet: "replayStatus m k0 s (syncerWatcher (sink w)) = s" for m s
  proof (rule replayStatus_others)
    fix event' obj'
    assume "event' \<in> set (syncerWatcher (sink w))" "changed event' = Some obj'"
    from coherentD(10) [OF c this] show "cowboyKey obj' \<noteq> k0" using absent0 by auto
  qed
  show "binding ?w = PhaseReady" using coherentD(1) [OF c] by (simp add: f)
  show "cowboyKey o' = k" if "objects (source ?w) k = Some o'" for k o'
    using coherentD(2) [OF c, of k o'] that by (simp add: f)
  show "cowboyKey o' = k" if "objects (sink ?w) k = Some o'" for k o'
    using coherentD(3) [OF c, of k o'] that st(1) by (auto simp: f split: if_splits)
  show "sinkWrites ?w k = 1" if "objects (sink ?w) k = Some so" for k so
    using coherentD(4) [OF c, of k so] coherentD(7) [OF c absent0] that
    by (auto simp: f split: if_splits)
  show "\<exists>sr. objects (source ?w) k = Some sr \<and> Spec_Intent so = Spec_Intent sr \<and>
          replayStatus (wroteToSink ?w k) k (Status_Result sr) (syncerWatcher (sink ?w)) =
            Status_Result so"
    if "objects (sink ?w) k = Some so" for k so
  proof (cases "k = k0")
    case True
    then have "so = stored" using that by (simp add: f)
    then show ?thesis
      using True sr0 nostatus st quiet by (simp add: f replayStatus_append chg)
  next
    case False
    then have "objects (sink w) k = Some so" using that by (simp add: f)
    from coherentD(5) [OF c this] show ?thesis
      using False st(1) by (simp add: f replayStatus_append chg)
  qed
  show "wroteToSource ?w k = None" if "objects (sink ?w) k = None" for k
    using coherentD(6) [OF c, of k] that by (auto simp: f split: if_splits)
  show "sinkWrites ?w k = 0" if "objects (sink ?w) k = None" for k
    using coherentD(7) [OF c, of k] that by (auto simp: f split: if_splits)
  show "Status_Result sr = []"
    if "objects (sink ?w) k = None" "objects (source ?w) k = Some sr" for k sr
    using coherentD(8) [OF c, of k sr] that by (auto simp: f split: if_splits)
  show "\<exists>event \<in> set (syncerWatcher (source ?w)). \<exists>obj. changed event = Some obj \<and> cowboyKey obj = k"
    if "objects (sink ?w) k = None" "objects (source ?w) k = Some sr" for k sr
  proof -
    have k: "k \<noteq> k0" "objects (sink w) k = None" "objects (source w) k = Some sr"
      using that by (auto simp: f split: if_splits)
    from coherentD(9) [OF c k(2,3)] obtain event' obj' where
      e: "event' \<in> set (syncerWatcher (source w))" "changed event' = Some obj'"
        "cowboyKey obj' = k"
      by auto
    have "event' \<noteq> event" using e(2,3) ev k(1) by (auto simp: k0_def)
    with e show ?thesis by (auto simp: q f)
  qed
  show "objects (sink ?w) (cowboyKey obj') \<noteq> None"
    if "event' \<in> set (syncerWatcher (sink ?w))" "changed event' = Some obj'" for event' obj'
    using coherentD(10) [OF c, of event' obj'] that st(1) chg by (auto simp: f)
  show "\<exists>sr. objects (source ?w) (cowboyKey obj') = Some sr \<and> Spec_Intent obj' = Spec_Intent sr"
    if "event' \<in> set (syncerWatcher (source ?w))" "changed event' = Some obj'" for event' obj'
    using coherentD(11) [OF c, of event' obj'] that by (simp add: q f)
  show "r \<le> lastResourceVersion (sink ?w)" if "wroteToSink ?w k = Some r" for k r
    using coherentD(12) [OF c, of k r] that by (auto simp: f rv_def split: if_splits)
qed


lemma coherent_popSink:
  assumes c: "coherent w" and q: "syncerWatcher (sink w) = event # pending"
    and same: "\<And>obj cur. changed event = Some obj \<Longrightarrow>
                 objects (source w) (cowboyKey obj) = Some cur \<Longrightarrow>
                 wroteToSink w (cowboyKey obj) = Some (ResourceVersion obj) \<or>
                 Status_Result cur = Status_Result obj"
  shows "coherent (w\<lparr>sink := (sink w)\<lparr>syncerWatcher := pending\<rparr>\<rparr>)"
proof (rule coherentI)
  let ?w = "w\<lparr>sink := (sink w)\<lparr>syncerWatcher := pending\<rparr>\<rparr>"
  show "binding ?w = PhaseReady" using coherentD(1) [OF c] by simp
  show "cowboyKey obj = k" if "objects (source ?w) k = Some obj" for k obj
    using coherentD(2) [OF c, of k obj] that by simp
  show "cowboyKey obj = k" if "objects (sink ?w) k = Some obj" for k obj
    using coherentD(3) [OF c, of k obj] that by simp
  show "sinkWrites ?w k = 1" if "objects (sink ?w) k = Some so" for k so
    using coherentD(4) [OF c, of k so] that by simp
  show "\<exists>sr. objects (source ?w) k = Some sr \<and> Spec_Intent so = Spec_Intent sr \<and>
          replayStatus (wroteToSink ?w k) k (Status_Result sr) (syncerWatcher (sink ?w)) =
            Status_Result so"
    if "objects (sink ?w) k = Some so" for k so
  proof -
    from that have "objects (sink w) k = Some so" by simp
    from coherentD(5) [OF c this] obtain sr where
      sr: "objects (source w) k = Some sr" "Spec_Intent so = Spec_Intent sr"
        "replayStatus (wroteToSink w k) k (Status_Result sr) (event # pending) = Status_Result so"
      by (auto simp: q)
    have "(case changed event of
             None \<Rightarrow> Status_Result sr
           | Some obj \<Rightarrow>
               if cowboyKey obj = k \<and> wroteToSink w k \<noteq> Some (ResourceVersion obj)
               then Status_Result obj else Status_Result sr) = Status_Result sr"
    proof (cases "changed event")
      case None
      then show ?thesis by simp
    next
      case (Some obj)
      show ?thesis
      proof (cases "cowboyKey obj = k")
        case True
        with same [OF Some, of sr] sr(1) show ?thesis using Some by auto
      next
        case False
        then show ?thesis using Some by simp
      qed
    qed
    with sr show ?thesis by simp
  qed
  show "wroteToSource ?w k = None" if "objects (sink ?w) k = None" for k
    using coherentD(6) [OF c, of k] that by simp
  show "sinkWrites ?w k = 0" if "objects (sink ?w) k = None" for k
    using coherentD(7) [OF c, of k] that by simp
  show "Status_Result sr = []"
    if "objects (sink ?w) k = None" "objects (source ?w) k = Some sr" for k sr
    using coherentD(8) [OF c, of k sr] that by simp
  show "\<exists>event \<in> set (syncerWatcher (source ?w)). \<exists>obj. changed event = Some obj \<and> cowboyKey obj = k"
    if "objects (sink ?w) k = None" "objects (source ?w) k = Some sr" for k sr
    using coherentD(9) [OF c, of k sr] that by simp
  show "objects (sink ?w) (cowboyKey obj) \<noteq> None"
    if "event' \<in> set (syncerWatcher (sink ?w))" "changed event' = Some obj" for event' obj
    using coherentD(10) [OF c, of event' obj] that by (simp add: q)
  show "\<exists>sr. objects (source ?w) (cowboyKey obj) = Some sr \<and> Spec_Intent obj = Spec_Intent sr"
    if "event' \<in> set (syncerWatcher (source ?w))" "changed event' = Some obj" for event' obj
    using coherentD(11) [OF c, of event' obj] that by simp
  show "r \<le> lastResourceVersion (sink ?w)" if "wroteToSink ?w k = Some r" for k r
    using coherentD(12) [OF c, of k r] that by simp
qed

lemma coherent_copyStatus:
  assumes c: "coherent w" and q: "syncerWatcher (sink w) = event # pending"
    and ev: "changed event = Some obj"
    and cur: "objects (source w) (cowboyKey obj) = Some cur"
    and genuine: "wroteToSink w (cowboyKey obj) \<noteq> Some (ResourceVersion obj)"
  shows "coherent (wroteSource (w\<lparr>sink := (sink w)\<lparr>syncerWatcher := pending\<rparr>\<rparr>)
                    (store watch_Modified (cur\<lparr>Status_Result := Status_Result obj\<rparr>)
                       (source w)))"
proof (rule coherentI)
  define k0 where "k0 = cowboyKey obj"
  define rv where "rv = Suc (lastResourceVersion (source w))"
  define stored where "stored = cur\<lparr>Status_Result := Status_Result obj, ResourceVersion := rv\<rparr>"
  let ?w = "wroteSource (w\<lparr>sink := (sink w)\<lparr>syncerWatcher := pending\<rparr>\<rparr>)
                    (store watch_Modified (cur\<lparr>Status_Result := Status_Result obj\<rparr>)
                       (source w))"
  have cur0: "objects (source w) k0 = Some cur" using cur by (simp add: k0_def)
  have key: "cowboyKey cur = k0" by (rule coherentD(2) [OF c cur0])
  have f: "binding ?w = binding w" "objects (sink ?w) = objects (sink w)"
    "syncerWatcher (sink ?w) = pending"
    "lastResourceVersion (sink ?w) = lastResourceVersion (sink w)"
    "objects (source ?w) = (objects (source w))(k0 \<mapsto> stored)"
    "syncerWatcher (source ?w) =
       syncerWatcher (source w) @
         [\<lparr>Event_Type = watch_Modified, Event_Object = CowboyObject stored\<rparr>]"
    "wroteToSink ?w = wroteToSink w" "sinkWrites ?w = sinkWrites w"
    by (simp_all add: wroteSource_def store_fields cowboyKey_update key rv_def stored_def)
  have st: "cowboyKey stored = k0" "Spec_Intent stored = Spec_Intent cur"
    "Status_Result stored = Status_Result obj"
    using key by (simp_all add: stored_def cowboyKey_def)
  have chg: "changed \<lparr>Event_Type = watch_Modified, Event_Object = CowboyObject stored\<rparr> =
      Some stored"
    by (simp add: changed_cowboy)
  have inq: "event \<in> set (syncerWatcher (sink w))" by (simp add: q)
  have present: "objects (sink w) k0 \<noteq> None"
    using coherentD(10) [OF c inq ev] by (simp add: k0_def)
  show "binding ?w = PhaseReady" using coherentD(1) [OF c] by (simp add: f)
  show "cowboyKey o' = k" if "objects (source ?w) k = Some o'" for k o'
    using coherentD(2) [OF c, of k o'] that st(1) by (auto simp: f split: if_splits)
  show "cowboyKey o' = k" if "objects (sink ?w) k = Some o'" for k o'
    using coherentD(3) [OF c, of k o'] that by (simp add: f)
  show "sinkWrites ?w k = 1" if "objects (sink ?w) k = Some so" for k so
    using coherentD(4) [OF c, of k so] that by (simp add: f)
  show "\<exists>sr. objects (source ?w) k = Some sr \<and> Spec_Intent so = Spec_Intent sr \<and>
          replayStatus (wroteToSink ?w k) k (Status_Result sr) (syncerWatcher (sink ?w)) =
            Status_Result so"
    if "objects (sink ?w) k = Some so" for k so
  proof -
    from that have "objects (sink w) k = Some so" by (simp add: f)
    from coherentD(5) [OF c this] obtain sr where
      sr: "objects (source w) k = Some sr" "Spec_Intent so = Spec_Intent sr"
        "replayStatus (wroteToSink w k) k (Status_Result sr) (event # pending) = Status_Result so"
      by (auto simp: q)
    show ?thesis
    proof (cases "k = k0")
      case True
      then have "sr = cur" using sr(1) cur0 by simp
      then show ?thesis
        using True sr(2,3) ev genuine st by (simp add: f k0_def)
    next
      case False
      then show ?thesis
        using sr ev by (simp add: f k0_def)
    qed
  qed
  show "wroteToSource ?w k = None" if "objects (sink ?w) k = None" for k
  proof -
    have "k \<noteq> k0" using that present by (auto simp: f)
    then show ?thesis
      using coherentD(6) [OF c, of k] that
      by (simp add: f wroteSource_def store_fields cowboyKey_update key)
  qed
  show "sinkWrites ?w k = 0" if "objects (sink ?w) k = None" for k
    using coherentD(7) [OF c, of k] that by (simp add: f)
  show "Status_Result sr = []"
    if "objects (sink ?w) k = None" "objects (source ?w) k = Some sr" for k sr
  proof -
    have "k \<noteq> k0" using that(1) present by (auto simp: f)
    then show ?thesis using coherentD(8) [OF c, of k sr] that by (simp add: f)
  qed
  show "\<exists>event \<in> set (syncerWatcher (source ?w)). \<exists>obj. changed event = Some obj \<and> cowboyKey obj = k"
    if "objects (sink ?w) k = None" "objects (source ?w) k = Some sr" for k sr
  proof -
    have "k \<noteq> k0" using that(1) present by (auto simp: f)
    then show ?thesis using coherentD(9) [OF c, of k sr] that by (auto simp: f)
  qed
  show "objects (sink ?w) (cowboyKey obj') \<noteq> None"
    if "event' \<in> set (syncerWatcher (sink ?w))" "changed event' = Some obj'" for event' obj'
    using coherentD(10) [OF c, of event' obj'] that by (simp add: q f)
  show "\<exists>sr. objects (source ?w) (cowboyKey obj') = Some sr \<and> Spec_Intent obj' = Spec_Intent sr"
    if "event' \<in> set (syncerWatcher (source ?w))" "changed event' = Some obj'" for event' obj'
  proof (cases "event' \<in> set (syncerWatcher (source w))")
    case True
    from coherentD(11) [OF c True that(2)] obtain sr where
      sr: "objects (source w) (cowboyKey obj') = Some sr" "Spec_Intent obj' = Spec_Intent sr"
      by blast
    show ?thesis
    proof (cases "cowboyKey obj' = k0")
      case True
      then have "sr = cur" using sr(1) cur0 by simp
      then show ?thesis using True sr(2) st by (simp add: f)
    next
      case False
      then show ?thesis using sr by (simp add: f)
    qed
  next
    case False
    then have "obj' = stored" using that chg by (auto simp: f)
    then show ?thesis using st by (simp add: f)
  qed
  show "r \<le> lastResourceVersion (sink ?w)" if "wroteToSink ?w k = Some r" for k r
    using coherentD(12) [OF c, of k r] that by (simp add: f)
qed

lemma coherent_created:
  assumes c: "coherent w" and new: "objects (source w) (ns, n) = None"
  shows "coherent (w\<lparr>source := snd (store watch_Added (newCowboy ns n ls intent) (source w))\<rparr>)"
proof -
  define k0 where "k0 = (ns, n)"
  define rv where "rv = Suc (lastResourceVersion (source w))"
  define stored where "stored = (newCowboy ns n ls intent)\<lparr>ResourceVersion := rv\<rparr>"
  define w' where
    "w' = w\<lparr>source := snd (store watch_Added (newCowboy ns n ls intent) (source w))\<rparr>"
  have "coherent w'"
  proof (rule coherentI)
  let ?w = w'
  have key: "cowboyKey (newCowboy ns n ls intent) = k0"
    by (simp add: cowboyKey_def newCowboy_def k0_def)
  have f: "binding ?w = binding w" "sink ?w = sink w"
    "objects (source ?w) = (objects (source w))(k0 \<mapsto> stored)"
    "syncerWatcher (source ?w) =
       syncerWatcher (source w) @
         [\<lparr>Event_Type = watch_Added, Event_Object = CowboyObject stored\<rparr>]"
    "wroteToSink ?w = wroteToSink w" "wroteToSource ?w = wroteToSource w"
    "sinkWrites ?w = sinkWrites w"
    by (simp_all add: w'_def store_fields key rv_def stored_def)
  have st: "cowboyKey stored = k0" "Status_Result stored = []"
    by (simp_all add: stored_def k0_def cowboyKey_def newCowboy_def)
  have chg: "changed \<lparr>Event_Type = watch_Added, Event_Object = CowboyObject stored\<rparr> =
      Some stored"
    by (simp add: changed_cowboy)
  have new0: "objects (source w) k0 = None" using new by (simp add: k0_def)
  have absent: "objects (sink w) k0 = None"
  proof (cases "objects (sink w) k0")
    case None
    then show ?thesis .
  next
    case (Some so)
    from coherentD(5) [OF c Some] new0 show ?thesis by auto
  qed
  show "binding ?w = PhaseReady" using coherentD(1) [OF c] by (simp add: f)
  show "cowboyKey o' = k" if "objects (source ?w) k = Some o'" for k o'
    using coherentD(2) [OF c, of k o'] that st(1) by (auto simp: f split: if_splits)
  show "cowboyKey o' = k" if "objects (sink ?w) k = Some o'" for k o'
    using coherentD(3) [OF c, of k o'] that by (simp add: f)
  show "sinkWrites ?w k = 1" if "objects (sink ?w) k = Some so" for k so
    using coherentD(4) [OF c, of k so] that by (simp add: f)
  show "\<exists>sr. objects (source ?w) k = Some sr \<and> Spec_Intent so = Spec_Intent sr \<and>
          replayStatus (wroteToSink ?w k) k (Status_Result sr) (syncerWatcher (sink ?w)) =
            Status_Result so"
    if "objects (sink ?w) k = Some so" for k so
  proof -
    from that have so: "objects (sink w) k = Some so" by (simp add: f)
    then have "k \<noteq> k0" using absent by auto
    then show ?thesis using coherentD(5) [OF c so] by (simp add: f)
  qed
  show "wroteToSource ?w k = None" if "objects (sink ?w) k = None" for k
    using coherentD(6) [OF c, of k] that by (simp add: f)
  show "sinkWrites ?w k = 0" if "objects (sink ?w) k = None" for k
    using coherentD(7) [OF c, of k] that by (simp add: f)
  show "Status_Result sr = []"
    if "objects (sink ?w) k = None" "objects (source ?w) k = Some sr" for k sr
    using coherentD(8) [OF c, of k sr] that st(2) by (auto simp: f split: if_splits)
  show "\<exists>event \<in> set (syncerWatcher (source ?w)). \<exists>obj. changed event = Some obj \<and> cowboyKey obj = k"
    if "objects (sink ?w) k = None" "objects (source ?w) k = Some sr" for k sr
  proof (cases "k = k0")
    case True
    then show ?thesis using chg st(1) by (auto simp: f)
  next
    case False
    then show ?thesis using coherentD(9) [OF c, of k sr] that by (auto simp: f)
  qed
  show "objects (sink ?w) (cowboyKey obj') \<noteq> None"
    if "event' \<in> set (syncerWatcher (sink ?w))" "changed event' = Some obj'" for event' obj'
    using coherentD(10) [OF c, of event' obj'] that by (simp add: f)
  show "\<exists>sr. objects (source ?w) (cowboyKey obj') = Some sr \<and> Spec_Intent obj' = Spec_Intent sr"
    if "event' \<in> set (syncerWatcher (source ?w))" "changed event' = Some obj'" for event' obj'
  proof (cases "event' \<in> set (syncerWatcher (source w))")
    case True
    from coherentD(11) [OF c True that(2)] obtain sr where
      sr: "objects (source w) (cowboyKey obj') = Some sr" "Spec_Intent obj' = Spec_Intent sr"
      by blast
    then have "cowboyKey obj' \<noteq> k0" using new0 by auto
    then show ?thesis using sr by (simp add: f)
  next
    case False
    then have "obj' = stored" using that chg by (auto simp: f)
    then show ?thesis using st by (simp add: f)
  qed
  show "r \<le> lastResourceVersion (sink ?w)" if "wroteToSink ?w k = Some r" for k r
    using coherentD(12) [OF c, of k r] that by (simp add: f)
qed
  then show ?thesis by (simp add: w'_def)
qed

lemma coherent_statusPatched:
  assumes c: "coherent w" and so: "objects (sink w) k0 = Some so0"
  shows "coherent (w\<lparr>sink := snd (store watch_Modified (so0\<lparr>Status_Result := T\<rparr>) (sink w))\<rparr>)"
proof -
  define rv where "rv = Suc (lastResourceVersion (sink w))"
  define stored where "stored = so0\<lparr>Status_Result := T, ResourceVersion := rv\<rparr>"
  define w' where
    "w' = w\<lparr>sink := snd (store watch_Modified (so0\<lparr>Status_Result := T\<rparr>) (sink w))\<rparr>"
  have "coherent w'"
  proof (rule coherentI)
  let ?w = w'
  have key: "cowboyKey so0 = k0" by (rule coherentD(3) [OF c so])
  have f: "binding ?w = binding w" "source ?w = source w"
    "objects (sink ?w) = (objects (sink w))(k0 \<mapsto> stored)"
    "lastResourceVersion (sink ?w) = rv"
    "syncerWatcher (sink ?w) =
       syncerWatcher (sink w) @
         [\<lparr>Event_Type = watch_Modified, Event_Object = CowboyObject stored\<rparr>]"
    "wroteToSink ?w = wroteToSink w" "wroteToSource ?w = wroteToSource w"
    "sinkWrites ?w = sinkWrites w"
    by (simp_all add: w'_def store_fields cowboyKey_update key rv_def stored_def)
  have st: "cowboyKey stored = k0" "Spec_Intent stored = Spec_Intent so0"
    "Status_Result stored = T" "ResourceVersion stored = rv"
    using key by (simp_all add: stored_def cowboyKey_def)
  have chg: "changed \<lparr>Event_Type = watch_Modified, Event_Object = CowboyObject stored\<rparr> =
      Some stored"
    by (simp add: changed_cowboy)
  have fresh: "wroteToSink w k \<noteq> Some rv" for k
    using coherentD(12) [OF c, of k rv] by (auto simp: rv_def)
  show "binding ?w = PhaseReady" using coherentD(1) [OF c] by (simp add: f)
  show "cowboyKey o' = k" if "objects (source ?w) k = Some o'" for k o'
    using coherentD(2) [OF c, of k o'] that by (simp add: f)
  show "cowboyKey o' = k" if "objects (sink ?w) k = Some o'" for k o'
    using coherentD(3) [OF c, of k o'] that st(1) by (auto simp: f split: if_splits)
  show "sinkWrites ?w k = 1" if "objects (sink ?w) k = Some so" for k so
    using coherentD(4) [OF c, of k so] coherentD(4) [OF c so] that
    by (auto simp: f split: if_splits)
  show "\<exists>sr. objects (source ?w) k = Some sr \<and> Spec_Intent so = Spec_Intent sr \<and>
          replayStatus (wroteToSink ?w k) k (Status_Result sr) (syncerWatcher (sink ?w)) =
            Status_Result so"
    if "objects (sink ?w) k = Some so" for k so
  proof (cases "k = k0")
    case True
    then have "so = stored" using that by (simp add: f)
    then show ?thesis
      using True coherentD(5) [OF c so] st fresh
      by (auto simp: f replayStatus_append chg)
  next
    case False
    then have "objects (sink w) k = Some so" using that by (simp add: f)
    from coherentD(5) [OF c this] show ?thesis
      using False st(1) by (auto simp: f replayStatus_append chg)
  qed
  show "wroteToSource ?w k = None" if "objects (sink ?w) k = None" for k
    using coherentD(6) [OF c, of k] that by (auto simp: f split: if_splits)
  show "sinkWrites ?w k = 0" if "objects (sink ?w) k = None" for k
    using coherentD(7) [OF c, of k] that by (auto simp: f split: if_splits)
  show "Status_Result sr = []"
    if "objects (sink ?w) k = None" "objects (source ?w) k = Some sr" for k sr
    using coherentD(8) [OF c, of k sr] that by (auto simp: f split: if_splits)
  show "\<exists>event \<in> set (syncerWatcher (source ?w)). \<exists>obj. changed event = Some obj \<and> cowboyKey obj = k"
    if "objects (sink ?w) k = None" "objects (source ?w) k = Some sr" for k sr
    using coherentD(9) [OF c, of k sr] that by (auto simp: f split: if_splits)
  show "objects (sink ?w) (cowboyKey obj') \<noteq> None"
    if "event' \<in> set (syncerWatcher (sink ?w))" "changed event' = Some obj'" for event' obj'
    using coherentD(10) [OF c, of event' obj'] that st(1) chg by (auto simp: f)
  show "\<exists>sr. objects (source ?w) (cowboyKey obj') = Some sr \<and> Spec_Intent obj' = Spec_Intent sr"
    if "event' \<in> set (syncerWatcher (source ?w))" "changed event' = Some obj'" for event' obj'
    using coherentD(11) [OF c, of event' obj'] that by (simp add: f)
  show "r \<le> lastResourceVersion (sink ?w)" if "wroteToSink ?w k = Some r" for k r
    using coherentD(12) [OF c, of k r] that by (auto simp: f rv_def)
qed
  then show ?thesis by (simp add: w'_def)
qed


lemma specDirection_idle: "syncerWatcher (source w) = [] \<Longrightarrow> specDirection w = w"
  by (simp add: specDirection_def)

lemma statusDirection_idle: "syncerWatcher (sink w) = [] \<Longrightarrow> statusDirection w = w"
  by (simp add: statusDirection_def)

lemma coherent_specDirection: "coherent w \<Longrightarrow> coherent (specDirection w)"
proof (cases "syncerWatcher (source w)")
  case Nil
  assume "coherent w"
  then show ?thesis by (simp add: specDirection_idle [OF Nil])
next
  case (Cons event pending)
  assume c: "coherent w"
  show ?thesis
  proof (cases "changed event")
    case None
    then show ?thesis
      using coherent_popSource [OF c Cons] by (simp add: specDirection_step [OF c Cons])
  next
    case (Some obj)
    show ?thesis
    proof (cases "objects (sink w) (cowboyKey obj)")
      case None
      then show ?thesis
        using coherent_mirror [OF c Cons Some None] Some
        by (simp add: specDirection_step [OF c Cons])
    next
      case (Some cur)
      then show ?thesis
        using coherent_popSource [OF c Cons] \<open>changed event = Some obj\<close>
        by (simp add: specDirection_step [OF c Cons])
    qed
  qed
qed

lemma coherent_statusDirection: "coherent w \<Longrightarrow> coherent (statusDirection w)"
proof (cases "syncerWatcher (sink w)")
  case Nil
  assume "coherent w"
  then show ?thesis by (simp add: statusDirection_idle [OF Nil])
next
  case (Cons event pending)
  assume c: "coherent w"
  show ?thesis
  proof (cases "changed event")
    case None
    then show ?thesis
      using coherent_popSink [OF c Cons] by (simp add: statusDirection_step [OF c Cons])
  next
    case (Some obj)
    show ?thesis
    proof (cases "objects (source w) (cowboyKey obj)")
      case None
      have "coherent (w\<lparr>sink := (sink w)\<lparr>syncerWatcher := pending\<rparr>\<rparr>)"
        by (rule coherent_popSink [OF c Cons]) (use None Some in auto)
      then show ?thesis
        using None Some by (simp add: statusDirection_step [OF c Cons])
    next
      case (Some cur)
      show ?thesis
      proof (cases "wroteToSink w (cowboyKey obj) = Some (ResourceVersion obj) \<or>
                    Status_Result cur = Status_Result obj")
        case True
        have "coherent (w\<lparr>sink := (sink w)\<lparr>syncerWatcher := pending\<rparr>\<rparr>)"
          by (rule coherent_popSink [OF c Cons])
             (use True Some \<open>changed event = Some obj\<close> in auto)
        then show ?thesis
          using True Some \<open>changed event = Some obj\<close>
          by (simp add: statusDirection_step [OF c Cons])
      next
        case False
        then show ?thesis
          using coherent_copyStatus [OF c Cons \<open>changed event = Some obj\<close> Some] Some
            \<open>changed event = Some obj\<close>
          by (simp add: statusDirection_step [OF c Cons])
      qed
    qed
  qed
qed

lemma coherent_turn: "coherent w \<Longrightarrow> coherent (turn w d)"
  by (cases d) (simp_all add: coherent_specDirection coherent_statusDirection)

lemma coherent_syncer: "coherent w \<Longrightarrow> coherent (syncer sched w)"
  unfolding syncer_def
  by (induction sched arbitrary: w) (simp_all add: coherent_turn)

lemma createInSource_new:
  assumes "objects (source w) (ns, n) = None"
  shows "createInSource (newCowboy ns n ls intent) w =
     Inr ((newCowboy ns n ls intent)\<lparr>ResourceVersion := Suc (lastResourceVersion (source w))\<rparr>,
          w\<lparr>source := snd (store watch_Added (newCowboy ns n ls intent) (source w))\<rparr>)"
proof -
  have "cowboyKey (newCowboy ns n ls intent) = (ns, n)"
    by (simp add: cowboyKey_def newCowboy_def)
  then show ?thesis
    using assms by (simp add: createInSource_def api_Create_def store_def Let_def)
qed

lemma createInSource_old:
  assumes "objects (source w) (ns, n) \<noteq> None"
  shows "\<exists>err. createInSource (newCowboy ns n ls intent) w = Inl err"
proof -
  have "cowboyKey (newCowboy ns n ls intent) = (ns, n)"
    by (simp add: cowboyKey_def newCowboy_def)
  then show ?thesis
    using assms by (auto simp: createInSource_def api_Create_def)
qed

lemma patchStatusInSink_cases:
  "patchStatusInSink k T w =
     (case objects (sink w) k of
        None \<Rightarrow> Inl (errors_New ''not found'')
      | Some cur \<Rightarrow>
          if Status_Result cur = T then Inr (cur, w)
          else Inr (cur\<lparr>Status_Result := T, ResourceVersion := Suc (lastResourceVersion (sink w))\<rparr>,
                    w\<lparr>sink := snd (store watch_Modified (cur\<lparr>Status_Result := T\<rparr>) (sink w))\<rparr>))"
  by (simp add: patchStatusInSink_def api_PatchStatus_def store_def Let_def split: option.splits)

lemma coherent_occur: "coherent w \<Longrightarrow> coherent (occur w ev)"
proof (cases ev)
  case (Created ns n ls intent)
  assume c: "coherent w"
  show ?thesis
  proof (cases "objects (source w) (ns, n)")
    case None
    then show ?thesis
      using coherent_created [OF c None] Created by (simp add: createInSource_new)
  next
    case (Some obj)
    then obtain err where "createInSource (newCowboy ns n ls intent) w = Inl err"
      using createInSource_old [of w ns n ls intent] by auto
    then show ?thesis using c Created by simp
  qed
next
  case (StatusPatched k T)
  assume c: "coherent w"
  show ?thesis
  proof (cases "objects (sink w) k")
    case None
    then show ?thesis using c StatusPatched by (simp add: patchStatusInSink_cases)
  next
    case (Some cur)
    then show ?thesis
      using c StatusPatched coherent_statusPatched [OF c Some]
      by (simp add: patchStatusInSink_cases)
  qed
next
  case (Turn d)
  assume "coherent w"
  then show ?thesis using Turn by (simp add: coherent_turn)
qed

lemma coherent_freshWorld: "coherent freshWorld"
  by (rule coherentI) (simp_all add: freshWorld_def emptyCluster_def)

lemma coherent_pairAfter: "coherent (pairAfter events)"
  unfolding pairAfter_def
  by (induction events rule: rev_induct) (simp_all add: coherent_freshWorld coherent_occur)

text \<open>The work before the syncer shrinks with every turn that has an event to take.\<close>

lemma filter_length_mono:
  "(\<And>x. x \<in> set xs \<Longrightarrow> P x \<Longrightarrow> Q x) \<Longrightarrow> length (filter P xs) \<le> length (filter Q xs)"
proof (induction xs)
  case Nil
  show ?case by simp
next
  case (Cons x xs)
  have "length (filter P xs) \<le> length (filter Q xs)"
    by (rule Cons.IH) (use Cons.prems in auto)
  then show ?case using Cons.prems [of x] by auto
qed

lemma unmirrored_same:
  assumes same: "objects (sink w') = objects (sink w)"
  shows "unmirrored w' = unmirrored w"
proof (rule ext)
  fix event
  show "unmirrored w' event = unmirrored w event"
    unfolding unmirrored_def same by (rule refl)
qed

lemma pendingWork_specDirection:
  assumes c: "coherent w" and q: "syncerWatcher (source w) \<noteq> []"
  shows "pendingWork (specDirection w) < pendingWork w"
proof -
  from q obtain event pending where ep: "syncerWatcher (source w) = event # pending"
    by (cases "syncerWatcher (source w)") auto
  let ?pop = "w\<lparr>source := (source w)\<lparr>syncerWatcher := pending\<rparr>\<rparr>"
  have "unmirrored ?pop = unmirrored w" by (rule unmirrored_same) simp
  then have pop: "pendingWork ?pop < pendingWork w"
    by (simp add: pendingWork_def ep)
  show ?thesis
  proof (cases "changed event")
    case None
    then show ?thesis using pop by (simp add: specDirection_step [OF c ep])
  next
    case (Some obj)
    show ?thesis
    proof (cases "objects (sink w) (cowboyKey obj)")
      case (Some cur)
      then show ?thesis
        using pop \<open>changed event = Some obj\<close> by (simp add: specDirection_step [OF c ep])
    next
      case None
      let ?w = "wroteSink ?pop (store watch_Added (sinkObject obj) (sink w))"
      have f: "syncerWatcher (source ?w) = pending"
        "length (syncerWatcher (sink ?w)) = Suc (length (syncerWatcher (sink w)))"
        "objects (sink ?w) =
           (objects (sink w))(cowboyKey obj \<mapsto>
              (sinkObject obj)\<lparr>ResourceVersion := Suc (lastResourceVersion (sink w))\<rparr>)"
        by (simp_all add: wroteSink_def store_fields cowboyKey_sinkObject)
      have "length (filter (unmirrored ?w) pending) \<le> length (filter (unmirrored w) pending)"
        by (rule filter_length_mono) (auto simp: unmirrored_def f split: option.splits if_splits)
      moreover have "unmirrored w event"
        using Some None by (simp add: unmirrored_def)
      ultimately have "pendingWork ?w < pendingWork w"
        by (simp add: pendingWork_def ep f)
      then show ?thesis
        using Some None by (simp add: specDirection_step [OF c ep])
    qed
  qed
qed

lemma pendingWork_statusDirection:
  assumes c: "coherent w" and q: "syncerWatcher (sink w) \<noteq> []"
  shows "pendingWork (statusDirection w) < pendingWork w"
proof -
  from q obtain event pending where ep: "syncerWatcher (sink w) = event # pending"
    by (cases "syncerWatcher (sink w)") auto
  let ?pop = "w\<lparr>sink := (sink w)\<lparr>syncerWatcher := pending\<rparr>\<rparr>"
  have "unmirrored ?pop = unmirrored w" by (rule unmirrored_same) simp
  then have pop: "pendingWork ?pop < pendingWork w"
    by (simp add: pendingWork_def ep)
  show ?thesis
  proof (cases "changed event")
    case None
    then show ?thesis using pop by (simp add: statusDirection_step [OF c ep])
  next
    case (Some obj)
    show ?thesis
    proof (cases "objects (source w) (cowboyKey obj)")
      case None
      then show ?thesis
        using pop Some by (simp add: statusDirection_step [OF c ep])
    next
      case (Some cur)
      show ?thesis
      proof (cases "wroteToSink w (cowboyKey obj) = Some (ResourceVersion obj) \<or>
                    Status_Result cur = Status_Result obj")
        case True
        then show ?thesis
          using pop Some \<open>changed event = Some obj\<close>
          by (auto simp: statusDirection_step [OF c ep])
      next
        case False
        let ?stored = "cur\<lparr>Status_Result := Status_Result obj,
                          ResourceVersion := Suc (lastResourceVersion (source w))\<rparr>"
        let ?w = "wroteSource ?pop
                    (store watch_Modified (cur\<lparr>Status_Result := Status_Result obj\<rparr>) (source w))"
        have key: "cowboyKey cur = cowboyKey obj" by (rule coherentD(2) [OF c Some])
        have f: "syncerWatcher (sink ?w) = pending"
          "syncerWatcher (source ?w) =
             syncerWatcher (source w) @
               [\<lparr>Event_Type = watch_Modified, Event_Object = CowboyObject ?stored\<rparr>]"
          "objects (sink ?w) = objects (sink w)"
          by (simp_all add: wroteSource_def store_fields)
        have "event \<in> set (syncerWatcher (sink w))" by (simp add: ep)
        from coherentD(10) [OF c this \<open>changed event = Some obj\<close>]
        have "\<not> unmirrored ?w \<lparr>Event_Type = watch_Modified, Event_Object = CowboyObject ?stored\<rparr>"
          using key by (simp add: unmirrored_def changed_cowboy f cowboyKey_def)
        moreover have "unmirrored ?w = unmirrored w"
          by (rule unmirrored_same) (rule f(3))
        then have "filter (unmirrored ?w) (syncerWatcher (source w)) =
            filter (unmirrored w) (syncerWatcher (source w))"
          by simp
        ultimately have "pendingWork ?w < pendingWork w"
          by (simp add: pendingWork_def ep f)
        then show ?thesis
          using False Some \<open>changed event = Some obj\<close>
          by (simp add: statusDirection_step [OF c ep])
      qed
    qed
  qed
qed


lemma turn_quiescent: "quiescent w \<Longrightarrow> turn w d = w"
  by (cases d) (simp_all add: quiescent_def specDirection_idle statusDirection_idle)

lemma run_quiescent: "quiescent w \<Longrightarrow> foldl turn w sched = w"
  by (induction sched) (simp_all add: turn_quiescent)

text \<open>
  The turns a direction \<open>d\<close> and then the two alternately need to take for the syncer to
  have nothing left to do.
\<close>

lemma pendingWork_positive: "\<not> quiescent w \<Longrightarrow> 0 < pendingWork w"
  by (auto simp: quiescent_def pendingWork_def)

lemma turn_progress:
  assumes c: "coherent w"
  shows "pendingWork (turn w d) \<le> pendingWork w"
    and "(case d of SpecDirection \<Rightarrow> syncerWatcher (source w)
                  | StatusDirection \<Rightarrow> syncerWatcher (sink w)) \<noteq> [] \<Longrightarrow>
         pendingWork (turn w d) < pendingWork w"
proof -
  show "(case d of SpecDirection \<Rightarrow> syncerWatcher (source w)
                  | StatusDirection \<Rightarrow> syncerWatcher (sink w)) \<noteq> [] \<Longrightarrow>
         pendingWork (turn w d) < pendingWork w"
    using pendingWork_specDirection [OF c] pendingWork_statusDirection [OF c]
    by (cases d) simp_all
  show "pendingWork (turn w d) \<le> pendingWork w"
  proof (cases d)
    case SpecDirection
    show ?thesis
    proof (cases "syncerWatcher (source w) = []")
      case True
      then show ?thesis using SpecDirection by (simp add: specDirection_idle)
    next
      case False
      from pendingWork_specDirection [OF c False] show ?thesis using SpecDirection by simp
    qed
  next
    case StatusDirection
    show ?thesis
    proof (cases "syncerWatcher (sink w) = []")
      case True
      then show ?thesis using StatusDirection by (simp add: statusDirection_idle)
    next
      case False
      from pendingWork_statusDirection [OF c False] show ?thesis using StatusDirection by simp
    qed
  qed
qed

lemma settles:
  assumes "coherent w" "subseq (inTurn d n) sched"
    and "quiescent w \<or>
         (if (case d of SpecDirection \<Rightarrow> syncerWatcher (source w)
                      | StatusDirection \<Rightarrow> syncerWatcher (sink w)) = []
          then 2 * pendingWork w + 1 else 2 * pendingWork w) \<le> n"
  shows "quiescent (foldl turn w sched)"
  using assms
proof (induction sched arbitrary: w d n)
  case Nil
  then have n: "n = 0" by (cases n) simp_all
  show ?case
  proof (cases "quiescent w")
    case True
    then show ?thesis by simp
  next
    case False
    from pendingWork_positive [OF False] Nil.prems(3) False n show ?thesis
      by (simp split: if_splits)
  qed
next
  case (Cons x sched)
  let ?waiting = "\<lambda>w d. (case d of SpecDirection \<Rightarrow> syncerWatcher (source w)
                               | StatusDirection \<Rightarrow> syncerWatcher (sink w))"
  have idle: "turn w d' = w" if "?waiting w d' = []" for d'
    using that by (cases d') (simp_all add: specDirection_idle statusDirection_idle)
  have busy: "?waiting w (otherDirection d') \<noteq> []" if "?waiting w d' = []" "\<not> quiescent w" for d'
    using that by (cases d') (auto simp: quiescent_def)
  have c': "coherent (turn w x)" by (rule coherent_turn [OF Cons.prems(1)])
  show ?case
  proof (cases "quiescent w")
    case True
    then show ?thesis by (simp add: run_quiescent turn_quiescent)
  next
    case False
    with Cons.prems(3) have cost:
      "(if ?waiting w d = [] then 2 * pendingWork w + 1 else 2 * pendingWork w) \<le> n"
      by simp
    have pos: "0 < pendingWork w" by (rule pendingWork_positive [OF False])
    show ?thesis
    proof (cases "x = d")
      case True
      from cost pos obtain m where n: "n = Suc m" by (cases n) (auto split: if_splits)
      from Cons.prems(2) True n have sub: "subseq (inTurn (otherDirection d) m) sched"
        by simp
      have "quiescent (foldl turn (turn w d) sched)"
      proof (rule Cons.IH [OF _ sub])
        show "coherent (turn w d)" using c' True by simp
        show "quiescent (turn w d) \<or>
              (if ?waiting (turn w d) (otherDirection d) = []
               then 2 * pendingWork (turn w d) + 1 else 2 * pendingWork (turn w d)) \<le> m"
        proof (cases "?waiting w d = []")
          case True
          then have same: "turn w d = w" by (rule idle)
          show ?thesis
            unfolding same using busy [OF True False] cost True n by simp
        next
          case False
          from turn_progress(2) [OF Cons.prems(1), of d] False
          have "pendingWork (turn w d) < pendingWork w" by simp
          with cost False n show ?thesis by (auto split: if_splits)
        qed
      qed
      then show ?thesis using True by simp
    next
      case neq: False
      then have x: "x = otherDirection d" by (cases x; cases d) simp_all
      from Cons.prems(2) neq have sub: "subseq (inTurn d n) sched"
      proof (cases n)
        case 0
        then show ?thesis by simp
      next
        case (Suc m)
        with Cons.prems(2) neq show ?thesis by simp
      qed
      have "quiescent (foldl turn (turn w x) sched)"
      proof (rule Cons.IH [OF c' sub])
        show "quiescent (turn w x) \<or>
              (if ?waiting (turn w x) d = []
               then 2 * pendingWork (turn w x) + 1 else 2 * pendingWork (turn w x)) \<le> n"
        proof (cases "?waiting w x = []")
          case True
          then have same: "turn w x = w" by (rule idle)
          show ?thesis unfolding same using cost by simp
        next
          case False
          from turn_progress(2) [OF Cons.prems(1), of x] False
          have "pendingWork (turn w x) < pendingWork w" by simp
          with cost show ?thesis by (auto split: if_splits)
        qed
      qed
      then show ?thesis by simp
    qed
  qed
qed

lemma settles_in_time:
  assumes "coherent w" "subseq (inTurn d (boundedTimeout w)) sched"
  shows "quiescent (syncer sched w)"
  unfolding syncer_def
  by (rule settles [OF assms]) (simp add: boundedTimeout_def)

text \<open>What the turns of the syncer leave as it is.\<close>

lemma sink_stable_turn:
  assumes c: "coherent w" and so: "objects (sink w) k = Some so"
  shows "objects (sink (turn w d)) k = Some so \<and> sinkWrites (turn w d) k = sinkWrites w k"
proof (cases d)
  case SpecDirection
  show ?thesis
  proof (cases "syncerWatcher (source w)")
    case Nil
    then show ?thesis using so SpecDirection by (simp add: specDirection_idle)
  next
    case (Cons event pending)
    show ?thesis
    proof (cases "changed event")
      case None
      then show ?thesis using so SpecDirection by (simp add: specDirection_step [OF c Cons])
    next
      case (Some obj)
      show ?thesis
      proof (cases "objects (sink w) (cowboyKey obj)")
        case None
        then have "cowboyKey obj \<noteq> k" using so by auto
        then show ?thesis
          using so SpecDirection Some None
          by (simp add: specDirection_step [OF c Cons] wroteSink_def store_fields
              cowboyKey_sinkObject cowboyKey_update)
      next
        case (Some cur)
        then show ?thesis
          using so SpecDirection \<open>changed event = Some obj\<close>
          by (simp add: specDirection_step [OF c Cons])
      qed
    qed
  qed
next
  case StatusDirection
  show ?thesis
  proof (cases "syncerWatcher (sink w)")
    case Nil
    then show ?thesis using so StatusDirection by (simp add: statusDirection_idle)
  next
    case (Cons event pending)
    then show ?thesis
      using so StatusDirection
      by (simp add: statusDirection_step [OF c Cons] wroteSource_def
          split: option.splits)
  qed
qed

lemma sink_stable:
  assumes "coherent w" "objects (sink w) k = Some so"
  shows "objects (sink (syncer sched w)) k = Some so \<and>
         sinkWrites (syncer sched w) k = sinkWrites w k"
  using assms unfolding syncer_def
proof (induction sched arbitrary: w)
  case Nil
  then show ?case by simp
next
  case (Cons d sched)
  from sink_stable_turn [OF Cons.prems] Cons.IH [OF coherent_turn [OF Cons.prems(1)], of ]
  show ?case by auto
qed

lemma source_spec_turn:
  assumes c: "coherent w" and sr: "objects (source w) k = Some sr"
  shows "\<exists>sr'. objects (source (turn w d)) k = Some sr' \<and> Spec_Intent sr' = Spec_Intent sr"
proof (cases d)
  case SpecDirection
  show ?thesis
  proof (cases "syncerWatcher (source w)")
    case Nil
    then show ?thesis using sr SpecDirection by (simp add: specDirection_idle)
  next
    case (Cons event pending)
    then show ?thesis
      using sr SpecDirection
      by (simp add: specDirection_step [OF c Cons] wroteSink_def split: option.splits)
  qed
next
  case StatusDirection
  show ?thesis
  proof (cases "syncerWatcher (sink w)")
    case Nil
    then show ?thesis using sr StatusDirection by (simp add: statusDirection_idle)
  next
    case (Cons event pending)
    show ?thesis
    proof (cases "changed event")
      case None
      then show ?thesis using sr StatusDirection by (simp add: statusDirection_step [OF c Cons])
    next
      case (Some obj)
      show ?thesis
      proof (cases "objects (source w) (cowboyKey obj)")
        case None
        then show ?thesis
          using sr StatusDirection Some by (simp add: statusDirection_step [OF c Cons])
      next
        case (Some cur)
        have key: "cowboyKey cur = cowboyKey obj" by (rule coherentD(2) [OF c Some])
        show ?thesis
          using sr StatusDirection Some \<open>changed event = Some obj\<close> key
          by (auto simp: statusDirection_step [OF c Cons] wroteSource_def store_fields
              cowboyKey_update)
      qed
    qed
  qed
qed

lemma source_spec:
  assumes "coherent w" "objects (source w) k = Some sr"
  shows "\<exists>sr'. objects (source (syncer sched w)) k = Some sr' \<and>
               Spec_Intent sr' = Spec_Intent sr"
  using assms unfolding syncer_def
proof (induction sched arbitrary: w sr)
  case Nil
  then show ?case by simp
next
  case (Cons d sched)
  from source_spec_turn [OF Cons.prems, of d] obtain sr1 where
    sr1: "objects (source (turn w d)) k = Some sr1" "Spec_Intent sr1 = Spec_Intent sr"
    by blast
  from Cons.IH [OF coherent_turn [OF Cons.prems(1)] sr1(1)] sr1(2)
  show ?case by auto
qed

lemma run_settled: "(\<And>d. turn c d = c) \<Longrightarrow> foldl turn c sched = c"
  by (induction sched) simp_all

lemma run_one_turn:
  assumes "turn b d1 = b" "turn b d2 = c" "\<And>d. turn c d = c" "d1 \<noteq> d2"
    and "subseq [d2] sched"
  shows "foldl turn b sched = c"
  using assms(5)
proof (induction sched rule: list.induct)
  case Nil
  then show ?case by simp
next
  case (Cons d sched)
  show ?case
  proof (cases "d = d2")
    case True
    then show ?thesis using assms(2) run_settled [OF assms(3)] by simp
  next
    case False
    then have "d = d1" using assms(4) by (cases d; cases d1; cases d2) simp_all
    moreover from Cons.prems False have "subseq [d2] sched" by (simp add: subseq_Cons2_iff)
    ultimately show ?thesis using Cons.IH assms(1) by simp
  qed
qed

lemma run_two_turns:
  assumes "turn a d1 = b" "turn a d2 = a" "turn b d1 = b" "turn b d2 = c" "\<And>d. turn c d = c"
    and "d1 \<noteq> d2" and "subseq [d1, d2] sched"
  shows "foldl turn a sched = c"
  using assms(7)
proof (induction sched rule: list.induct)
  case Nil
  then show ?case by simp
next
  case (Cons d sched)
  show ?case
  proof (cases "d = d1")
    case True
    with Cons.prems have "subseq [d2] sched" by (simp add: subseq_Cons2_iff)
    from run_one_turn [OF assms(3) assms(4) assms(5) assms(6) this] True assms(1)
    show ?thesis by simp
  next
    case False
    then have "d = d2" using assms(6) by (cases d; cases d1; cases d2) simp_all
    moreover from Cons.prems False have "subseq [d1, d2] sched" by (simp add: subseq_Cons2_iff)
    ultimately show ?thesis using Cons.IH assms(2) by simp
  qed
qed


lemma specDirection_create:
  assumes "binding w = PhaseReady"
    and "syncerWatcher (source w) = \<lparr>Event_Type = ty, Event_Object = CowboyObject obj\<rparr> # pending"
    and "ty = watch_Added \<or> ty = watch_Modified"
    and "wroteToSource w (cowboyKey obj) \<noteq> Some (ResourceVersion obj)"
    and "objects (sink w) (cowboyKey obj) = None"
  shows "specDirection w =
           wroteSink (w\<lparr>source := (source w)\<lparr>syncerWatcher := pending\<rparr>\<rparr>)
             (store watch_Added (sinkObject obj) (sink w))"
  using assms
  by (simp add: specDirection_def changed_cowboy applySpec_def api_Create_def Let_def
      cowboyKey_def sinkObject_def)

lemma specDirection_echo:
  assumes "binding w = PhaseReady"
    and "syncerWatcher (source w) = \<lparr>Event_Type = ty, Event_Object = CowboyObject obj\<rparr> # pending"
    and "ty = watch_Added \<or> ty = watch_Modified"
    and "wroteToSource w (cowboyKey obj) = Some (ResourceVersion obj)"
  shows "specDirection w = w\<lparr>source := (source w)\<lparr>syncerWatcher := pending\<rparr>\<rparr>"
  using assms
  by (simp add: specDirection_def changed_cowboy applySpec_def Let_def)

lemma statusDirection_echo:
  assumes "binding w = PhaseReady"
    and "syncerWatcher (sink w) = \<lparr>Event_Type = ty, Event_Object = CowboyObject obj\<rparr> # pending"
    and "ty = watch_Added \<or> ty = watch_Modified"
    and "wroteToSink w (cowboyKey obj) = Some (ResourceVersion obj)"
  shows "statusDirection w = w\<lparr>sink := (sink w)\<lparr>syncerWatcher := pending\<rparr>\<rparr>"
  using assms
  by (simp add: statusDirection_def changed_cowboy applyStatus_def Let_def)

lemma statusDirection_patch:
  assumes "binding w = PhaseReady"
    and "syncerWatcher (sink w) = \<lparr>Event_Type = ty, Event_Object = CowboyObject obj\<rparr> # pending"
    and "ty = watch_Added \<or> ty = watch_Modified"
    and "wroteToSink w (cowboyKey obj) \<noteq> Some (ResourceVersion obj)"
    and "objects (source w) (cowboyKey obj) = Some cur"
    and "Status_Result cur \<noteq> Status_Result obj"
  shows "statusDirection w =
           wroteSource (w\<lparr>sink := (sink w)\<lparr>syncerWatcher := pending\<rparr>\<rparr>)
             (store watch_Modified (cur\<lparr>Status_Result := Status_Result obj\<rparr>) (source w))"
  using assms
  by (simp add: statusDirection_def changed_cowboy applyStatus_def api_PatchStatus_def Let_def)

text \<open>The three worlds of the first half: the object created, its spec applied to the
  sink, the echo of that write discarded.\<close>

lemma create_then_sync:
  assumes ready: "binding w0 = PhaseReady"
    and quiet: "quiescent w0"
    and fresh: "objects (source w0) (ns, n) = None" "objects (sink w0) (ns, n) = None"
      "wroteToSink w0 (ns, n) = None" "wroteToSource w0 (ns, n) = None"
    and turns: "subseq [SpecDirection, StatusDirection] sched"
  shows "\<exists>created w1 mirrored.
      createInSource (newCowboy ns n ls S) w0 = Inr (created, w1)
    \<and> objects (source (syncer sched w1)) (ns, n) = Some created
    \<and> created = (newCowboy ns n ls S)\<lparr>ResourceVersion := Suc (lastResourceVersion (source w0))\<rparr>
    \<and> objects (sink (syncer sched w1)) (ns, n) = Some mirrored
    \<and> mirrored = (newCowboy ns n ls S)\<lparr>ResourceVersion := Suc (lastResourceVersion (sink w0))\<rparr>
    \<and> wroteToSink (syncer sched w1) (ns, n) = Some (Suc (lastResourceVersion (sink w0)))
    \<and> wroteToSource (syncer sched w1) (ns, n) = None
    \<and> lastResourceVersion (sink (syncer sched w1)) = Suc (lastResourceVersion (sink w0))
    \<and> binding (syncer sched w1) = PhaseReady
    \<and> quiescent (syncer sched w1)
    \<and> testWatcher (source (syncer sched w1)) =
        testWatcher (source w0) @
          [\<lparr>Event_Type = watch_Added, Event_Object = CowboyObject created\<rparr>]
    \<and> testWatcher (sink (syncer sched w1)) =
        testWatcher (sink w0) @
          [\<lparr>Event_Type = watch_Added, Event_Object = CowboyObject mirrored\<rparr>]"
proof -
  define obj where "obj = newCowboy ns n ls S"
  define created where "created = obj\<lparr>ResourceVersion := Suc (lastResourceVersion (source w0))\<rparr>"
  define mirrored where "mirrored = obj\<lparr>ResourceVersion := Suc (lastResourceVersion (sink w0))\<rparr>"
  define a where "a = w0\<lparr>source := snd (store watch_Added obj (source w0))\<rparr>"
  define b where "b = specDirection a"
  define c where "c = statusDirection b"
  have key: "cowboyKey obj = (ns, n)" "cowboyKey created = (ns, n)" "cowboyKey mirrored = (ns, n)"
    by (simp_all add: cowboyKey_def obj_def created_def mirrored_def newCowboy_def)
  have q0: "syncerWatcher (source w0) = []" "syncerWatcher (sink w0) = []"
    using quiet by (simp_all add: quiescent_def)
  have create: "createInSource obj w0 = Inr (created, a)"
    using fresh(1)
    by (simp add: createInSource_def api_Create_def key a_def created_def store_def Let_def)
  have a_src: "syncerWatcher (source a) =
      [\<lparr>Event_Type = watch_Added, Event_Object = CowboyObject created\<rparr>]"
    and a_snk: "sink a = sink w0"
    and a_obj: "objects (source a) (ns, n) = Some created"
    and a_rest: "binding a = PhaseReady" "wroteToSource a = wroteToSource w0"
      "wroteToSink a = wroteToSink w0"
    and a_seen: "testWatcher (source a) =
        testWatcher (source w0) @
          [\<lparr>Event_Type = watch_Added, Event_Object = CowboyObject created\<rparr>]"
    using q0 ready
    by (simp_all add: a_def store_def publish_def Let_def key created_def)
  have a_status: "statusDirection a = a"
    by (rule statusDirection_idle) (simp add: a_snk q0)
  have sobj: "sinkObject created = obj"
    by (simp add: sinkObject_def created_def obj_def newCowboy_def)
  have b_eq: "b = wroteSink (a\<lparr>source := (source a)\<lparr>syncerWatcher := []\<rparr>\<rparr>)
             (store watch_Added obj (sink a))"
    unfolding b_def sobj [symmetric]
    by (rule specDirection_create [OF a_rest(1) a_src])
       (simp_all add: key a_rest fresh a_snk)
  have b_src: "syncerWatcher (source b) = []"
    and b_snk: "syncerWatcher (sink b) =
      [\<lparr>Event_Type = watch_Added, Event_Object = CowboyObject mirrored\<rparr>]"
    and b_objs: "objects (source b) (ns, n) = Some created" "objects (sink b) (ns, n) = Some mirrored"
    and b_rest: "binding b = PhaseReady" "wroteToSource b (ns, n) = None"
      "wroteToSink b (ns, n) = Some (Suc (lastResourceVersion (sink w0)))"
      "lastResourceVersion (sink b) = Suc (lastResourceVersion (sink w0))"
    and b_seen: "testWatcher (source b) =
        testWatcher (source w0) @
          [\<lparr>Event_Type = watch_Added, Event_Object = CowboyObject created\<rparr>]"
      "testWatcher (sink b) =
        testWatcher (sink w0) @
          [\<lparr>Event_Type = watch_Added, Event_Object = CowboyObject mirrored\<rparr>]"
    using q0 a_obj a_rest fresh a_seen
    by (simp_all add: b_eq wroteSink_def store_def publish_def Let_def key a_snk mirrored_def
        cowboyKey_update)
  have b_spec: "specDirection b = b"
    by (rule specDirection_idle) (rule b_src)
  have c_eq: "c = b\<lparr>sink := (sink b)\<lparr>syncerWatcher := []\<rparr>\<rparr>"
    unfolding c_def
    by (rule statusDirection_echo [OF b_rest(1) b_snk])
       (simp_all add: key b_rest mirrored_def cowboyKey_update)
  have c_quiet: "quiescent c"
    by (simp add: c_eq quiescent_def b_src)
  have run: "syncer sched a = c"
    unfolding syncer_def
    by (rule run_two_turns [where ?d1.0 = SpecDirection and ?d2.0 = StatusDirection and b = b,
          OF _ _ _ _ _ _ turns])
       (simp_all add: b_def [symmetric] c_def [symmetric] a_status b_spec turn_quiescent [OF c_quiet])
  have c_facts: "objects (source c) (ns, n) = Some created"
    "objects (sink c) (ns, n) = Some mirrored"
    "wroteToSink c (ns, n) = Some (Suc (lastResourceVersion (sink w0)))"
    "wroteToSource c (ns, n) = None"
    "lastResourceVersion (sink c) = Suc (lastResourceVersion (sink w0))"
    "binding c = PhaseReady"
    "testWatcher (source c) =
        testWatcher (source w0) @
          [\<lparr>Event_Type = watch_Added, Event_Object = CowboyObject created\<rparr>]"
    "testWatcher (sink c) =
        testWatcher (sink w0) @
          [\<lparr>Event_Type = watch_Added, Event_Object = CowboyObject mirrored\<rparr>]"
    by (simp_all add: c_eq b_objs b_rest b_seen)
  show ?thesis
    using create c_facts c_quiet unfolding run [symmetric] obj_def created_def mirrored_def
    by blast
qed


text \<open>The second half: the status patched on the sink, copied to the source, the echo of
  that write discarded.\<close>

lemma patch_then_sync:
  assumes ready: "binding w = PhaseReady"
    and quiet: "quiescent w"
    and src: "objects (source w) k = Some src" "cowboyKey src = k"
    and snk: "objects (sink w) k = Some snk" "cowboyKey snk = k"
    and agree: "Status_Result snk = Status_Result src"
    and marks: "wroteToSink w k = Some rv" "rv \<le> lastResourceVersion (sink w)"
      "wroteToSource w k = None"
    and turns: "subseq [StatusDirection, SpecDirection] sched"
  shows "\<exists>updated w3 copied.
      patchStatusInSink k T w = Inr (updated, w3)
    \<and> Status_Result updated = T \<and> Spec_Intent updated = Spec_Intent snk
    \<and> objects (sink (syncer sched w3)) k = Some updated
    \<and> objects (source (syncer sched w3)) k = Some copied
    \<and> cowboyKey copied = k \<and> Status_Result copied = T \<and> Spec_Intent copied = Spec_Intent src
    \<and> quiescent (syncer sched w3)
    \<and> (Status_Result snk \<noteq> T \<longrightarrow>
          testWatcher (sink (syncer sched w3)) =
            testWatcher (sink w) @
              [\<lparr>Event_Type = watch_Modified, Event_Object = CowboyObject updated\<rparr>]
        \<and> testWatcher (source (syncer sched w3)) =
            testWatcher (source w) @
              [\<lparr>Event_Type = watch_Modified, Event_Object = CowboyObject copied\<rparr>])"
proof (cases "Status_Result snk = T")
  case True
  have patch: "patchStatusInSink k T w = Inr (snk, w)"
    using snk(1) True by (simp add: patchStatusInSink_def api_PatchStatus_def)
  have stay: "syncer sched' w = w" for sched'
    unfolding syncer_def by (rule run_settled) (rule turn_quiescent [OF quiet])
  show ?thesis
    using patch True snk src agree quiet by (auto simp: stay)
next
  case False
  define updated where
    "updated = snk\<lparr>Status_Result := T, ResourceVersion := Suc (lastResourceVersion (sink w))\<rparr>"
  define copied where
    "copied = src\<lparr>Status_Result := T, ResourceVersion := Suc (lastResourceVersion (source w))\<rparr>"
  define a where "a = w\<lparr>sink := snd (store watch_Modified (snk\<lparr>Status_Result := T\<rparr>) (sink w))\<rparr>"
  define b where "b = statusDirection a"
  define c where "c = specDirection b"
  have q: "syncerWatcher (source w) = []" "syncerWatcher (sink w) = []"
    using quiet by (simp_all add: quiescent_def)
  have key: "cowboyKey updated = k" "cowboyKey copied = k"
    by (simp_all add: updated_def copied_def cowboyKey_def snk(2) [unfolded cowboyKey_def]
        src(2) [unfolded cowboyKey_def])
  have patch: "patchStatusInSink k T w = Inr (updated, a)"
    using snk(1) False
    by (simp add: patchStatusInSink_def api_PatchStatus_def a_def updated_def store_def Let_def)
  have a_snk: "syncerWatcher (sink a) =
      [\<lparr>Event_Type = watch_Modified, Event_Object = CowboyObject updated\<rparr>]"
    and a_src: "source a = source w"
    and a_obj: "objects (sink a) k = Some updated"
    and a_rest: "binding a = PhaseReady" "wroteToSource a = wroteToSource w"
      "wroteToSink a = wroteToSink w"
    and a_seen: "testWatcher (sink a) =
        testWatcher (sink w) @
          [\<lparr>Event_Type = watch_Modified, Event_Object = CowboyObject updated\<rparr>]"
    using q ready
    by (simp_all add: a_def store_def publish_def Let_def updated_def cowboyKey_update snk(2))
  have a_spec: "specDirection a = a"
    by (rule specDirection_idle) (simp add: a_src q)
  have fresher: "wroteToSink a (cowboyKey updated) \<noteq> Some (ResourceVersion updated)"
  proof -
    have "ResourceVersion updated = Suc (lastResourceVersion (sink w))"
      by (simp add: updated_def)
    then show ?thesis using marks(1,2) by (simp add: key a_rest)
  qed
  have differs: "Status_Result src \<noteq> Status_Result updated"
    using False agree by (simp add: updated_def)
  have b_eq: "b = wroteSource (a\<lparr>sink := (sink a)\<lparr>syncerWatcher := []\<rparr>\<rparr>)
             (store watch_Modified (src\<lparr>Status_Result := T\<rparr>) (source a))"
  proof -
    have "statusDirection a =
           wroteSource (a\<lparr>sink := (sink a)\<lparr>syncerWatcher := []\<rparr>\<rparr>)
             (store watch_Modified (src\<lparr>Status_Result := Status_Result updated\<rparr>) (source a))"
      by (rule statusDirection_patch [OF a_rest(1) a_snk _ fresher _ differs])
         (simp_all add: key a_src src)
    then show ?thesis by (simp add: b_def updated_def)
  qed
  have b_snk: "syncerWatcher (sink b) = []"
    and b_src: "syncerWatcher (source b) =
      [\<lparr>Event_Type = watch_Modified, Event_Object = CowboyObject copied\<rparr>]"
    and b_objs: "objects (source b) k = Some copied" "objects (sink b) k = Some updated"
    and b_rest: "binding b = PhaseReady"
      "wroteToSource b k = Some (ResourceVersion copied)"
    and b_seen: "testWatcher (sink b) =
        testWatcher (sink w) @
          [\<lparr>Event_Type = watch_Modified, Event_Object = CowboyObject updated\<rparr>]"
      "testWatcher (source b) =
        testWatcher (source w) @
          [\<lparr>Event_Type = watch_Modified, Event_Object = CowboyObject copied\<rparr>]"
    using q a_obj a_rest a_seen
    by (simp_all add: b_eq wroteSource_def store_def publish_def Let_def a_src copied_def
        cowboyKey_update src(2))
  have b_status: "statusDirection b = b"
    by (rule statusDirection_idle) (rule b_snk)
  have c_eq: "c = b\<lparr>source := (source b)\<lparr>syncerWatcher := []\<rparr>\<rparr>"
    unfolding c_def
    by (rule specDirection_echo [OF b_rest(1) b_src]) (simp_all add: key b_rest)
  have c_quiet: "quiescent c"
    by (simp add: c_eq quiescent_def b_snk)
  have auto1: "turn a StatusDirection = b" "turn a SpecDirection = a"
    "turn b StatusDirection = b" "turn b SpecDirection = c" "\<And>d. turn c d = c"
    by (simp_all add: b_def [symmetric] c_def [symmetric] a_spec b_status
        turn_quiescent [OF c_quiet])
  have ne: "StatusDirection \<noteq> SpecDirection" by simp
  have run: "syncer sched a = c"
    unfolding syncer_def
    by (rule run_two_turns [OF auto1 ne turns])
  have c_facts: "objects (source c) k = Some copied" "objects (sink c) k = Some updated"
    by (simp_all add: c_eq b_objs b_rest)
  have c_seen: "testWatcher (sink c) =
        testWatcher (sink w) @
          [\<lparr>Event_Type = watch_Modified, Event_Object = CowboyObject updated\<rparr>]"
      "testWatcher (source c) =
        testWatcher (source w) @
          [\<lparr>Event_Type = watch_Modified, Event_Object = CowboyObject copied\<rparr>]"
    by (simp_all add: c_eq b_seen)
  have vals: "Status_Result updated = T" "Spec_Intent updated = Spec_Intent snk"
    "Status_Result copied = T" "Spec_Intent copied = Spec_Intent src"
    by (simp_all add: updated_def copied_def)
  show ?thesis
    using patch vals key(2) c_facts(1,2) c_quiet c_seen unfolding run [symmetric]
    by blast
qed


lemma freshWorld_facts:
  "binding freshWorld = PhaseReady" "quiescent freshWorld"
  "objects (source freshWorld) k = None" "objects (sink freshWorld) k = None"
  "wroteToSink freshWorld k = None" "wroteToSource freshWorld k = None"
  "testWatcher (source freshWorld) = []" "testWatcher (sink freshWorld) = []"
  "sinkWrites freshWorld k = 0"
  by (simp_all add: freshWorld_def emptyCluster_def quiescent_def)

lemma work_specSyncs_passes:
  assumes "subseq [SpecDirection, StatusDirection] sched"
  shows "work_specSyncs sched freshWorld = []"
proof -
  from create_then_sync [OF freshWorld_facts(1-6) assms,
      of testNamespace "''timothy''" "[(''kcp.dev/cluster'', clusterName)]" "''yeehaw''"]
  obtain created w1 mirrored where
    h: "createInSource timothy freshWorld = Inr (created, w1)"
      "created = timothy\<lparr>ResourceVersion := Suc (lastResourceVersion (source freshWorld))\<rparr>"
      "mirrored = timothy\<lparr>ResourceVersion := Suc (lastResourceVersion (sink freshWorld))\<rparr>"
      "testWatcher (source (syncer sched w1)) =
         [\<lparr>Event_Type = watch_Added, Event_Object = CowboyObject created\<rparr>]"
      "testWatcher (sink (syncer sched w1)) =
         [\<lparr>Event_Type = watch_Added, Event_Object = CowboyObject mirrored\<rparr>]"
    unfolding timothy_def [symmetric] freshWorld_facts(7,8) append_Nil by blast
  show ?thesis
    by (simp add: work_specSyncs_def h(1,4,5) onSourceWatcher_def onSinkWatcher_def
        expectNextEvent_def nextEvent_def exactMatcher_def specMatcher_def)
       (simp add: h(2,3))
qed

lemma work_statusSyncs_passes:
  assumes t1: "subseq [SpecDirection, StatusDirection] sched1"
    and t2: "subseq [StatusDirection, SpecDirection] sched2"
  shows "work_statusSyncs sched1 sched2 freshWorld = []"
proof -
  define k where "k = (testNamespace, ''timothy'')"
  from create_then_sync [OF freshWorld_facts(1-6) t1,
      of testNamespace "''timothy''" "[(''kcp.dev/cluster'', clusterName)]" "''yeehaw''"]
  obtain created w1 mirrored where
    h: "createInSource timothy freshWorld = Inr (created, w1)"
      "objects (source (syncer sched1 w1)) k = Some created"
      "created = timothy\<lparr>ResourceVersion := Suc (lastResourceVersion (source freshWorld))\<rparr>"
      "objects (sink (syncer sched1 w1)) k = Some mirrored"
      "mirrored = timothy\<lparr>ResourceVersion := Suc (lastResourceVersion (sink freshWorld))\<rparr>"
      "wroteToSink (syncer sched1 w1) k = Some (Suc (lastResourceVersion (sink freshWorld)))"
      "wroteToSource (syncer sched1 w1) k = None"
      "lastResourceVersion (sink (syncer sched1 w1)) =
         Suc (lastResourceVersion (sink freshWorld))"
      "binding (syncer sched1 w1) = PhaseReady"
      "quiescent (syncer sched1 w1)"
      "testWatcher (source (syncer sched1 w1)) =
         [\<lparr>Event_Type = watch_Added, Event_Object = CowboyObject created\<rparr>]"
      "testWatcher (sink (syncer sched1 w1)) =
         [\<lparr>Event_Type = watch_Added, Event_Object = CowboyObject mirrored\<rparr>]"
    unfolding timothy_def [symmetric] freshWorld_facts(7,8) append_Nil k_def [symmetric]
    by blast
  define W where "W = syncer sched1 w1"
  define w3 where
    "w3 = W\<lparr>source := (source W)\<lparr>testWatcher := []\<rparr>, sink := (sink W)\<lparr>testWatcher := []\<rparr>\<rparr>"
  note hW = h(2,4,6-12) [folded W_def]
  have names: "Name created = ''timothy''" "cowboyKey created = k" "cowboyKey mirrored = k"
    "Status_Result mirrored = Status_Result created" "Status_Result mirrored \<noteq> ''giddyup''"
    "Namespace created = testNamespace"
    by (simp_all add: h(3,5) timothy_def newCowboy_def cowboyKey_def k_def)
  have w3: "binding w3 = PhaseReady" "quiescent w3"
    "objects (source w3) k = Some created" "objects (sink w3) k = Some mirrored"
    "wroteToSink w3 k = Some (Suc (lastResourceVersion (sink freshWorld)))"
    "Suc (lastResourceVersion (sink freshWorld)) \<le> lastResourceVersion (sink w3)"
    "wroteToSource w3 k = None"
    "testWatcher (source w3) = []" "testWatcher (sink w3) = []"
    using hW by (simp_all add: w3_def quiescent_def)
  from patch_then_sync [OF w3(1,2) w3(3) names(2) w3(4) names(3) names(4) w3(5,6,7) t2,
      of "''giddyup''"] names(5)
  obtain updated w4 copied where
    p: "patchStatusInSink k ''giddyup'' w3 = Inr (updated, w4)"
      "cowboyKey copied = k" "Status_Result copied = ''giddyup''" "Status_Result updated = ''giddyup''"
      "testWatcher (sink (syncer sched2 w4)) =
         [\<lparr>Event_Type = watch_Modified, Event_Object = CowboyObject updated\<rparr>]"
      "testWatcher (source (syncer sched2 w4)) =
         [\<lparr>Event_Type = watch_Modified, Event_Object = CowboyObject copied\<rparr>]"
    unfolding w3(8,9) append_Nil by blast
  have ck: "Namespace copied = testNamespace" "Name copied = ''timothy''"
    using p(2) by (simp_all add: cowboyKey_def k_def)
  have read1: "onSourceWatcher ignoreNextEvent W =
      (None, W\<lparr>source := (source W)\<lparr>testWatcher := []\<rparr>\<rparr>)"
    by (simp add: onSourceWatcher_def ignoreNextEvent_def nextEvent_def hW)
  have read2: "onSinkWatcher ignoreNextEvent (W\<lparr>source := (source W)\<lparr>testWatcher := []\<rparr>\<rparr>) = (None, w3)"
    by (simp add: onSinkWatcher_def ignoreNextEvent_def nextEvent_def hW w3_def)
  define V where "V = syncer sched2 w4"
  note pV = p(5,6) [folded V_def]
  have read3: "onSinkWatcher (\<lambda>sinkWatcher.
        expectNextEvent sinkWatcher watch_Modified (exactMatcher updated)) V =
      (Inr updated, V\<lparr>sink := (sink V)\<lparr>testWatcher := []\<rparr>\<rparr>)"
    by (simp add: onSinkWatcher_def expectNextEvent_def nextEvent_def exactMatcher_def pV)
  have read4: "onSourceWatcher (\<lambda>sourceWatcher.
        expectNextEvent sourceWatcher watch_Modified (statusMatcher created updated))
        (V\<lparr>sink := (sink V)\<lparr>testWatcher := []\<rparr>\<rparr>) =
      (Inr copied, V\<lparr>sink := (sink V)\<lparr>testWatcher := []\<rparr>,
                     source := (source V)\<lparr>testWatcher := []\<rparr>\<rparr>)"
    by (simp add: onSourceWatcher_def expectNextEvent_def nextEvent_def statusMatcher_def pV
        names(1,6) ck p(3,4))
  show ?thesis
    unfolding work_statusSyncs_def
    by (simp add: h(1) W_def [symmetric] read1 read2 names(1) k_def [symmetric] p(1)
        V_def [symmetric] read3 read4)
qed

lemma patch_present:
  assumes c: "coherent w" and m: "objects (sink w) k = Some m"
  shows "\<exists>updated w3.
      patchStatusInSink k T w = Inr (updated, w3)
    \<and> Status_Result updated = T \<and> Spec_Intent updated = Spec_Intent m
    \<and> objects (sink w3) k = Some updated \<and> coherent w3
    \<and> sinkWrites w3 k = sinkWrites w k"
proof (cases "Status_Result m = T")
  case True
  then show ?thesis using c m by (simp add: patchStatusInSink_cases)
next
  case False
  have key: "cowboyKey m = k" by (rule coherentD(3) [OF c m])
  show ?thesis
    using False m coherent_statusPatched [OF c m, of T] key
    by (simp add: patchStatusInSink_cases store_fields cowboyKey_update)
qed

text \<open>
  C1. Take a bound, ready pair in any state it can be in: started by the framework and
  gone through any creations on the source, status patches on the sink and turns of the
  syncer, so that the syncer may have any number of events of other objects before it.
  An object that the source does not hold yet is created there with spec \<open>S\<close>. The
  bounded timeout is a number of turns that depends on the work before the syncer: under
  every schedule in which the two directions alternately get that many turns, with any
  other turns in between, the sink holds an object of that namespace and name, and the
  syncer has nothing left to do. Whenever the sink holds the object, after any schedule
  whatsoever, it has the spec \<open>S\<close>, and the syncer has written it once. Its status is
  then patched to \<open>T\<close>, at any such moment. After that no schedule whatsoever makes the
  syncer write the sink object again: it stays as the patch left it, with spec \<open>S\<close> and
  status \<open>T\<close>. And under every schedule that gives the two directions their turns within
  the timeout, the source object has status \<open>T\<close> and still spec \<open>S\<close>. The two test
  cases report no error on the pair the framework starts, under every schedule that
  gives each direction a turn.
\<close>

theorem C1_round_trip:
  assumes new: "objects (source (pairAfter events)) (ns, n) = None"
  shows "\<exists>created w1.
      createInSource (newCowboy ns n ls S) (pairAfter events) = Inr (created, w1)
    \<and> (\<forall>d sched1. subseq (inTurn d (boundedTimeout w1)) sched1 \<longrightarrow>
          quiescent (syncer sched1 w1)
        \<and> (\<exists>m. objects (sink (syncer sched1 w1)) (ns, n) = Some m))
    \<and> (\<forall>sched1 m. objects (sink (syncer sched1 w1)) (ns, n) = Some m \<longrightarrow>
          Namespace m = ns \<and> Name m = n \<and> Spec_Intent m = S
        \<and> sinkWrites (syncer sched1 w1) (ns, n) = 1
        \<and> (\<exists>updated w3.
              patchStatusInSink (ns, n) T (syncer sched1 w1) = Inr (updated, w3)
            \<and> Status_Result updated = T \<and> Spec_Intent updated = S
            \<and> (\<forall>sched. objects (sink (syncer sched w3)) (ns, n) = Some updated
                      \<and> sinkWrites (syncer sched w3) (ns, n) = 1)
            \<and> (\<forall>d sched2. subseq (inTurn d (boundedTimeout w3)) sched2 \<longrightarrow>
                  quiescent (syncer sched2 w3)
                \<and> (\<exists>copied. objects (source (syncer sched2 w3)) (ns, n) = Some copied
                      \<and> Namespace copied = ns \<and> Name copied = n
                      \<and> Status_Result copied = T \<and> Spec_Intent copied = S))))
    \<and> (\<forall>sched1 sched2.
          subseq [SpecDirection, StatusDirection] sched1 \<and>
          subseq [StatusDirection, SpecDirection] sched2 \<longrightarrow>
          work_specSyncs sched1 freshWorld = [] \<and>
          work_statusSyncs sched1 sched2 freshWorld = [])"
proof -
  define k where "k = (ns, n)"
  define w0 where "w0 = pairAfter events"
  define created where
    "created = (newCowboy ns n ls S)\<lparr>ResourceVersion := Suc (lastResourceVersion (source w0))\<rparr>"
  define w1 where "w1 = w0\<lparr>source := snd (store watch_Added (newCowboy ns n ls S) (source w0))\<rparr>"
  have c0: "coherent w0" unfolding w0_def by (rule coherent_pairAfter)
  have new0: "objects (source w0) (ns, n) = None" using new by (simp add: w0_def)
  have create: "createInSource (newCowboy ns n ls S) w0 = Inr (created, w1)"
    unfolding created_def w1_def by (rule createInSource_new [OF new0])
  have c1: "coherent w1" unfolding w1_def by (rule coherent_created [OF c0 new0])
  have key: "cowboyKey (newCowboy ns n ls S) = k"
    by (simp add: cowboyKey_def newCowboy_def k_def)
  have src1: "objects (source w1) k = Some created"
    by (simp add: w1_def store_fields key created_def)
  have spec1: "Spec_Intent created = S"
    by (simp add: created_def newCowboy_def)
  have names: "Namespace obj = ns \<and> Name obj = n" if "cowboyKey obj = k" for obj
    using that by (simp add: cowboyKey_def k_def)
  have source_S: "\<exists>sr. objects (source (syncer sched w1)) k = Some sr \<and> Spec_Intent sr = S"
    for sched
    using source_spec [OF c1 src1, of sched] spec1 by simp
  have appears: "quiescent (syncer sched1 w1) \<and>
      (\<exists>m. objects (sink (syncer sched1 w1)) k = Some m)"
    if fair: "subseq (inTurn d (boundedTimeout w1)) sched1" for d sched1
  proof -
    let ?W = "syncer sched1 w1"
    have cW: "coherent ?W" by (rule coherent_syncer [OF c1])
    have q: "quiescent ?W" by (rule settles_in_time [OF c1 fair])
    from source_S [of sched1] obtain sr where sr: "objects (source ?W) k = Some sr" by blast
    have "objects (sink ?W) k \<noteq> None"
    proof
      assume "objects (sink ?W) k = None"
      from coherentD(9) [OF cW this sr] q show False by (simp add: quiescent_def)
    qed
    with q show ?thesis by auto
  qed
  have mirrored: "Namespace m = ns \<and> Name m = n \<and> Spec_Intent m = S
        \<and> sinkWrites (syncer sched1 w1) k = 1
        \<and> (\<exists>updated w3.
              patchStatusInSink k T (syncer sched1 w1) = Inr (updated, w3)
            \<and> Status_Result updated = T \<and> Spec_Intent updated = S
            \<and> (\<forall>sched. objects (sink (syncer sched w3)) k = Some updated
                      \<and> sinkWrites (syncer sched w3) k = 1)
            \<and> (\<forall>d sched2. subseq (inTurn d (boundedTimeout w3)) sched2 \<longrightarrow>
                  quiescent (syncer sched2 w3)
                \<and> (\<exists>copied. objects (source (syncer sched2 w3)) k = Some copied
                      \<and> Namespace copied = ns \<and> Name copied = n
                      \<and> Status_Result copied = T \<and> Spec_Intent copied = S)))"
    if m: "objects (sink (syncer sched1 w1)) k = Some m" for sched1 m
  proof -
    let ?W = "syncer sched1 w1"
    have cW: "coherent ?W" by (rule coherent_syncer [OF c1])
    have mk: "cowboyKey m = k" by (rule coherentD(3) [OF cW m])
    from coherentD(5) [OF cW m] source_S [of sched1] have mS: "Spec_Intent m = S" by auto
    have once: "sinkWrites ?W k = 1" by (rule coherentD(4) [OF cW m])
    from patch_present [OF cW m, of T] obtain updated w3 where
      p: "patchStatusInSink k T ?W = Inr (updated, w3)" "Status_Result updated = T"
        "Spec_Intent updated = Spec_Intent m" "objects (sink w3) k = Some updated"
        "coherent w3" "sinkWrites w3 k = sinkWrites ?W k"
      by blast
    have stays: "objects (sink (syncer sched w3)) k = Some updated \<and>
        sinkWrites (syncer sched w3) k = 1" for sched
      using sink_stable [OF p(5) p(4), of sched] p(6) once by simp
    have copies: "quiescent (syncer sched2 w3)
                \<and> (\<exists>copied. objects (source (syncer sched2 w3)) k = Some copied
                      \<and> Namespace copied = ns \<and> Name copied = n
                      \<and> Status_Result copied = T \<and> Spec_Intent copied = S)"
      if fair: "subseq (inTurn d (boundedTimeout w3)) sched2" for d sched2
    proof -
      let ?V = "syncer sched2 w3"
      have cV: "coherent ?V" by (rule coherent_syncer [OF p(5)])
      have q: "quiescent ?V" by (rule settles_in_time [OF p(5) fair])
      have u: "objects (sink ?V) k = Some updated" using stays [of sched2] by simp
      from coherentD(5) [OF cV u] obtain sr where
        sr: "objects (source ?V) k = Some sr" "Spec_Intent updated = Spec_Intent sr"
          "replayStatus (wroteToSink ?V k) k (Status_Result sr) (syncerWatcher (sink ?V)) =
             Status_Result updated"
        by blast
      have "syncerWatcher (sink ?V) = []" using q by (simp add: quiescent_def)
      with sr(3) have "Status_Result sr = T" by (simp add: p(2))
      moreover have "Spec_Intent sr = S" using sr(2) p(3) mS by simp
      moreover have "Namespace sr = ns \<and> Name sr = n"
        by (rule names) (rule coherentD(2) [OF cV sr(1)])
      ultimately show ?thesis using q sr(1) by blast
    qed
    from names [OF mk] mS once p(1,2) p(3) [unfolded mS] stays copies show ?thesis by blast
  qed
  have tests: "work_specSyncs sched1 freshWorld = [] \<and>
      work_statusSyncs sched1 sched2 freshWorld = []"
    if "subseq [SpecDirection, StatusDirection] sched1 \<and>
        subseq [StatusDirection, SpecDirection] sched2" for sched1 sched2
    using that work_specSyncs_passes [of sched1] work_statusSyncs_passes [of sched1 sched2]
    by blast
  from create appears mirrored tests show ?thesis
    unfolding k_def w0_def by blast
qed


text \<open>
  A pair in which another object, emmylou, has just been created on the source and the
  syncer has not had a turn yet, when timothy is created. The work before the syncer is
  two events of objects not yet on the sink, and the timeout is 17 turns. One turn of
  each direction is not enough: the spec direction spends its turn on emmylou. Within
  the timeout timothy is on the sink with his spec, and after the patch of his status
  there, within the timeout again, the status is on the source.
\<close>

theorem C1_round_trip_witness:
  "objects (source (pairAfter [Created testNamespace ''emmylou'' [] ''howdy'']))
     (testNamespace, ''timothy'') = None
   \<and> boundedTimeout
       (pairAfter [Created testNamespace ''emmylou'' [] ''howdy'',
                   Created testNamespace ''timothy'' [(''kcp.dev/cluster'', clusterName)]
                     ''yeehaw'']) = 17
   \<and> objects (sink (syncer [SpecDirection, StatusDirection]
       (pairAfter [Created testNamespace ''emmylou'' [] ''howdy'',
                   Created testNamespace ''timothy'' [(''kcp.dev/cluster'', clusterName)]
                     ''yeehaw''])))
       (testNamespace, ''timothy'') = None
   \<and> map_option Spec_Intent (objects (sink (syncer (inTurn SpecDirection 17)
       (pairAfter [Created testNamespace ''emmylou'' [] ''howdy'',
                   Created testNamespace ''timothy'' [(''kcp.dev/cluster'', clusterName)]
                     ''yeehaw''])))
       (testNamespace, ''timothy'')) = Some ''yeehaw''
   \<and> map_option Status_Result (objects (source
       (syncer
          (inTurn StatusDirection (boundedTimeout
             (occur (syncer (inTurn SpecDirection 17)
                (pairAfter [Created testNamespace ''emmylou'' [] ''howdy'',
                   Created testNamespace ''timothy'' [(''kcp.dev/cluster'', clusterName)]
                     ''yeehaw'']))
                (StatusPatched (testNamespace, ''timothy'') ''giddyup''))))
          (occur (syncer (inTurn SpecDirection 17)
             (pairAfter [Created testNamespace ''emmylou'' [] ''howdy'',
                Created testNamespace ''timothy'' [(''kcp.dev/cluster'', clusterName)]
                  ''yeehaw'']))
             (StatusPatched (testNamespace, ''timothy'') ''giddyup''))))
       (testNamespace, ''timothy'')) = Some ''giddyup''
   \<and> work_specSyncs [SpecDirection, StatusDirection] freshWorld = []
   \<and> work_statusSyncs [SpecDirection, StatusDirection] [StatusDirection, SpecDirection]
         freshWorld = []
   \<and> work_specSyncs [] freshWorld =
       [fmt_Errorf ''did not see cowboy spec updated on sink cluster: %v'' []
          (Some (errors_New ''timed out waiting for event'')),
        fmt_Errorf ''%#v'' [] None, fmt_Errorf ''%#v'' [] None]"
proof -
  let ?emmylou = "Created testNamespace ''emmylou'' [] ''howdy''"
  let ?timothy = "Created testNamespace ''timothy'' [(''kcp.dev/cluster'', clusterName)] ''yeehaw''"
  let ?k = "(testNamespace, ''timothy'')"
  let ?w1 = "pairAfter [?emmylou, ?timothy]"
  let ?W = "syncer (inTurn SpecDirection 17) ?w1"
  let ?w3 = "occur ?W (StatusPatched ?k ''giddyup'')"
  have new: "objects (source (pairAfter [?emmylou])) ?k = None"
    by (simp add: pairAfter_def freshWorld_def emptyCluster_def createInSource_def
        api_Create_def store_def publish_def Let_def newCowboy_def cowboyKey_def testNamespace_def)
  have bound: "boundedTimeout ?w1 = 17"
    by (simp add: boundedTimeout_def pendingWork_def unmirrored_def changed_def
        pairAfter_def freshWorld_def emptyCluster_def createInSource_def
        api_Create_def store_def publish_def Let_def newCowboy_def cowboyKey_def testNamespace_def)
  have early: "objects (sink (syncer [SpecDirection, StatusDirection] ?w1)) ?k = None"
    by (simp add: syncer_def specDirection_def statusDirection_def applySpec_def applyStatus_def
        changed_def wroteSink_def sinkObject_def api_PatchStatus_def
        pairAfter_def freshWorld_def emptyCluster_def createInSource_def
        api_Create_def store_def publish_def Let_def newCowboy_def cowboyKey_def testNamespace_def)
  from C1_round_trip [OF new, of "[(''kcp.dev/cluster'', clusterName)]" "''yeehaw''" "''giddyup''"]
  obtain created w1 where
    create: "createInSource (newCowboy testNamespace ''timothy''
               [(''kcp.dev/cluster'', clusterName)] ''yeehaw'') (pairAfter [?emmylou]) =
             Inr (created, w1)"
    and appears: "\<forall>d sched1. subseq (inTurn d (boundedTimeout w1)) sched1 \<longrightarrow>
          quiescent (syncer sched1 w1)
        \<and> (\<exists>m. objects (sink (syncer sched1 w1)) ?k = Some m)"
    and mirrored: "\<forall>sched1 m. objects (sink (syncer sched1 w1)) ?k = Some m \<longrightarrow>
          Namespace m = testNamespace \<and> Name m = ''timothy'' \<and> Spec_Intent m = ''yeehaw''
        \<and> sinkWrites (syncer sched1 w1) ?k = 1
        \<and> (\<exists>updated w3.
              patchStatusInSink ?k ''giddyup'' (syncer sched1 w1) = Inr (updated, w3)
            \<and> Status_Result updated = ''giddyup'' \<and> Spec_Intent updated = ''yeehaw''
            \<and> (\<forall>sched. objects (sink (syncer sched w3)) ?k = Some updated
                      \<and> sinkWrites (syncer sched w3) ?k = 1)
            \<and> (\<forall>d sched2. subseq (inTurn d (boundedTimeout w3)) sched2 \<longrightarrow>
                  quiescent (syncer sched2 w3)
                \<and> (\<exists>copied. objects (source (syncer sched2 w3)) ?k = Some copied
                      \<and> Namespace copied = testNamespace \<and> Name copied = ''timothy''
                      \<and> Status_Result copied = ''giddyup'' \<and> Spec_Intent copied = ''yeehaw'')))"
    and tests: "\<forall>sched1 sched2.
          subseq [SpecDirection, StatusDirection] sched1 \<and>
          subseq [StatusDirection, SpecDirection] sched2 \<longrightarrow>
          work_specSyncs sched1 freshWorld = [] \<and>
          work_statusSyncs sched1 sched2 freshWorld = []"
    by (elim exE conjE) (rule that, assumption+)
  have w1: "?w1 = w1"
    using create by (simp add: pairAfter_def)
  have fair1: "subseq (inTurn SpecDirection (boundedTimeout w1)) (inTurn SpecDirection 17)"
    using bound unfolding w1 by simp
  from appears [rule_format, OF fair1] obtain m where
    m: "objects (sink (syncer (inTurn SpecDirection 17) w1)) ?k = Some m"
    by blast
  from mirrored [rule_format, OF m] obtain updated w3 where
    spec: "Spec_Intent m = ''yeehaw''"
    and patch: "patchStatusInSink ?k ''giddyup'' (syncer (inTurn SpecDirection 17) w1) =
                  Inr (updated, w3)"
    and copies: "\<forall>d sched2. subseq (inTurn d (boundedTimeout w3)) sched2 \<longrightarrow>
                  quiescent (syncer sched2 w3)
                \<and> (\<exists>copied. objects (source (syncer sched2 w3)) ?k = Some copied
                      \<and> Namespace copied = testNamespace \<and> Name copied = ''timothy''
                      \<and> Status_Result copied = ''giddyup'' \<and> Spec_Intent copied = ''yeehaw'')"
    by (elim exE conjE) (rule that, assumption+)
  have w3: "?w3 = w3" using patch unfolding w1 by simp
  have fair2: "subseq (inTurn StatusDirection (boundedTimeout w3))
      (inTurn StatusDirection (boundedTimeout w3))"
    by simp
  from copies [rule_format, OF fair2] obtain copied where
    "objects (source (syncer (inTurn StatusDirection (boundedTimeout w3)) w3)) ?k = Some copied"
    "Status_Result copied = ''giddyup''"
    by blast
  then have status: "map_option Status_Result
      (objects (source (syncer (inTurn StatusDirection (boundedTimeout ?w3)) ?w3)) ?k) =
      Some ''giddyup''"
    unfolding w3 by simp
  have mirror: "map_option Spec_Intent (objects (sink ?W) ?k) = Some ''yeehaw''"
    using m spec unfolding w1 by simp
  have pass: "work_specSyncs [SpecDirection, StatusDirection] freshWorld = []"
    "work_statusSyncs [SpecDirection, StatusDirection] [StatusDirection, SpecDirection]
         freshWorld = []"
    using tests [rule_format, of "[SpecDirection, StatusDirection]"
      "[StatusDirection, SpecDirection]"]
    by simp_all
  have timeout: "work_specSyncs [] freshWorld =
       [fmt_Errorf ''did not see cowboy spec updated on sink cluster: %v'' []
          (Some (errors_New ''timed out waiting for event'')),
        fmt_Errorf ''%#v'' [] None, fmt_Errorf ''%#v'' [] None]"
    by (simp add: work_specSyncs_def createInSource_def api_Create_def store_def publish_def
        Let_def timothy_def newCowboy_def cowboyKey_def freshWorld_def emptyCluster_def
        syncer_def onSourceWatcher_def onSinkWatcher_def expectNextEvent_def nextEvent_def
        exactMatcher_def)
  from new bound early mirror status pass timeout show ?thesis by blast
qed

end
